(* ===== verification/Prelude.thy ===== *)
theory Prelude
  imports "HOL-Library.Monad_Syntax" "HOL-Library.Multiset" "HOL-Library.AList"
begin

text \<open>
  Shared vocabulary of the development.

  \<^item> A call into code that may not come back (it blocks for ever, throws an exception that no
    code of the repository catches, or dereferences a null pointer) has a result of type
    \<open>'a option\<close>: \<^term>\<open>None\<close> is "control never returns to the caller". Calls are sequenced by
    the option monad's \<open>do\<close> notation. Errors that the code does return are ordinary values.
  \<^item> \<open>absl::flat_hash_set\<close> is a duplicate-free list; its iteration order is unspecified, so every
    loop over one goes through an arbitrary reordering (\<open>perm_order\<close>).
  \<^item> \<open>absl::flat_hash_map\<close> is a partial map, or an association list where the code iterates
    over it; its \<open>operator[]\<close> inserts a default value for a missing key (\<open>index_default\<close>).
\<close>

named_theorems component_defs \<open>definitions of the operations of the components\<close>
named_theorems bind_elims \<open>rules that take apart a sequence of calls which returned\<close>

subsection \<open>Sequencing of calls\<close>

lemma bind_returns [bind_elims]:
  "Option.bind e k = Some r \<Longrightarrow> (\<And>x. e = Some x \<Longrightarrow> k x = Some r \<Longrightarrow> P) \<Longrightarrow> P"
  by (cases e) auto

lemma bind_pair_returns [bind_elims]:
  "Option.bind e (\<lambda>(x, y). k x y) = Some r \<Longrightarrow>
   (\<And>x y. e = Some (x, y) \<Longrightarrow> k x y = Some r \<Longrightarrow> P) \<Longrightarrow> P"
  by (cases e) auto

lemma if_returns [bind_elims]:
  "(if b then x else y) = Some r \<Longrightarrow> (b \<Longrightarrow> x = Some r \<Longrightarrow> P) \<Longrightarrow> (\<not> b \<Longrightarrow> y = Some r \<Longrightarrow> P) \<Longrightarrow> P"
  by (cases b) auto

text \<open>A sequence of calls that return returns.\<close>

lemma bind_pair_total:
  "e \<noteq> None \<Longrightarrow> (\<And>x y. e = Some (x, y) \<Longrightarrow> k x y \<noteq> None) \<Longrightarrow> Option.bind e (\<lambda>(x, y). k x y) \<noteq> None"
  by (cases e) auto

subsection \<open>Hash sets with an unspecified iteration order\<close>

definition hs_emplace :: "'a \<Rightarrow> 'a list \<Rightarrow> 'a list" where
  "hs_emplace x xs = (if x \<in> set xs then xs else xs @ [x])"

definition hs_erase :: "'a \<Rightarrow> 'a list \<Rightarrow> 'a list" where
  "hs_erase x xs = filter (\<lambda>y. y \<noteq> x) xs"

definition hs_contains :: "'a list \<Rightarrow> 'a \<Rightarrow> bool" where
  "hs_contains xs x \<longleftrightarrow> x \<in> set xs"

lemma set_hs_emplace [simp]: "set (hs_emplace x xs) = insert x (set xs)"
  by (auto simp: hs_emplace_def)

lemma set_hs_erase [simp]: "set (hs_erase x xs) = set xs - {x}"
  by (auto simp: hs_erase_def)

lemma hs_contains_iff [simp]: "hs_contains xs x \<longleftrightarrow> x \<in> set xs"
  by (simp add: hs_contains_def)

lemma distinct_hs_emplace [intro, simp]: "distinct xs \<Longrightarrow> distinct (hs_emplace x xs)"
  by (simp add: hs_emplace_def)

lemma distinct_hs_erase [intro, simp]: "distinct xs \<Longrightarrow> distinct (hs_erase x xs)"
  by (simp add: hs_erase_def)

text \<open>An iteration order of a hash container visits each element exactly once.\<close>

definition perm_order :: "('a list \<Rightarrow> 'a list) \<Rightarrow> bool" where
  "perm_order iter \<longleftrightarrow> (\<forall>xs. mset (iter xs) = mset xs)"

lemma perm_order_id [simp]: "perm_order (\<lambda>xs. xs)"
  by (simp add: perm_order_def)

lemma perm_order_rev [simp]: "perm_order rev"
  by (simp add: perm_order_def)

lemma perm_order_mset: "perm_order iter \<Longrightarrow> mset (iter xs) = mset xs"
  by (simp add: perm_order_def)

lemma perm_order_set: "perm_order iter \<Longrightarrow> set (iter xs) = set xs"
  by (metis perm_order_def set_mset_mset)

lemma perm_order_length: "perm_order iter \<Longrightarrow> length (iter xs) = length xs"
  by (metis perm_order_def size_mset)

lemma perm_order_distinct: "perm_order iter \<Longrightarrow> distinct (iter xs) = distinct xs"
  by (metis perm_order_def mset_eq_imp_distinct_iff)

lemma perm_order_Nil: "perm_order iter \<Longrightarrow> iter xs = [] \<longleftrightarrow> xs = []"
  by (metis length_0_conv perm_order_length)

lemma perm_order_single: "perm_order iter \<Longrightarrow> iter [x] = [x]"
  using perm_order_mset [of iter "[x]"] by simp

subsection \<open>Hash maps\<close>

text \<open>\<open>m[k]\<close> as an expression: the value, with a default constructed when the key is absent.\<close>

definition index_default :: "'v \<Rightarrow> ('k \<rightharpoonup> 'v) \<Rightarrow> 'k \<Rightarrow> 'v" where
  "index_default d m k = (case m k of None \<Rightarrow> d | Some v \<Rightarrow> v)"

lemma index_default_same [simp]: "index_default d (m(k \<mapsto> v)) k = v"
  by (simp add: index_default_def)

lemma index_default_other [simp]:
  "k \<noteq> k' \<Longrightarrow> index_default d (m(k' \<mapsto> v)) k = index_default d m k"
  by (simp add: index_default_def)

lemma index_default_Some: "m k = Some v \<Longrightarrow> index_default d m k = v"
  by (simp add: index_default_def)

lemma index_default_None: "m k = None \<Longrightarrow> index_default d m k = d"
  by (simp add: index_default_def)

text \<open>\<open>absl::StrCat\<close> of two strings.\<close>

abbreviation StrCat :: "string \<Rightarrow> string \<Rightarrow> string" where
  "StrCat a b \<equiv> a @ b"

end
