(* ===== verification/Abs_Time.thy ===== *)
theory Abs_Time
  imports Prelude
begin

text \<open>
  The part of \<open>absl/time\<close> the code uses. An \<open>absl::Time\<close> or \<open>absl::Duration\<close> counts ticks of a
  quarter of a nanosecond. Times are unbounded here: \<open>absl\<close> saturates only for second counts near
  the ends of \<open>int64\<close>, far outside the years 1 to 9999 that \<open>google.protobuf.Timestamp\<close> allows.
\<close>

type_synonym time = int
type_synonym duration = int

record timestamp =
  seconds :: int
  nanos :: int

abbreviation (input) ticks_per_second :: int where "ticks_per_second \<equiv> 4000000000"

definition FromUnixSeconds :: "int \<Rightarrow> time" where
  "FromUnixSeconds s = s * ticks_per_second"

definition Nanoseconds :: "int \<Rightarrow> duration" where
  "Nanoseconds n = 4 * n"

definition Seconds :: "int \<Rightarrow> duration" where
  "Seconds s = s * ticks_per_second"

text \<open>\<open>ToTimespec\<close>, \<open>ToTimeT\<close> and \<open>ToUnixSeconds\<close> round towards the infinite past.\<close>

definition ToTimespec :: "time \<Rightarrow> timestamp" where
  "ToTimespec t = \<lparr>seconds = t div ticks_per_second, nanos = (t mod ticks_per_second) div 4\<rparr>"

definition ToTimeT :: "time \<Rightarrow> int" where
  "ToTimeT t = t div ticks_per_second"

definition ToUnixSeconds :: "time \<Rightarrow> int" where
  "ToUnixSeconds t = t div ticks_per_second"

text \<open>\<open>ToChronoMicroseconds\<close> truncates a duration towards zero.\<close>

definition ToChronoMicroseconds :: "duration \<Rightarrow> int" where
  "ToChronoMicroseconds d = (if d < 0 then - ((- d) div 4000) else d div 4000)"

text \<open>The expression \<open>FromUnixSeconds(ts.seconds()) + Nanoseconds(ts.nanos())\<close>.\<close>

definition time_of_timestamp :: "timestamp \<Rightarrow> time" where
  "time_of_timestamp ts = FromUnixSeconds (seconds ts) + Nanoseconds (nanos ts)"

text \<open>A timestamp as the protobuf documentation requires it: nanoseconds in the second.\<close>

definition valid_timestamp :: "timestamp \<Rightarrow> bool" where
  "valid_timestamp ts \<longleftrightarrow> 0 \<le> nanos ts \<and> nanos ts < 1000000000"

lemmas time_defs = FromUnixSeconds_def Nanoseconds_def Seconds_def ToTimespec_def ToTimeT_def
  ToUnixSeconds_def time_of_timestamp_def valid_timestamp_def

lemma valid_ToTimespec: "valid_timestamp (ToTimespec t)"
proof -
  have "0 \<le> t mod 4000000000" and "t mod 4000000000 < 4000000000" by simp_all
  then have "0 \<le> (t mod 4000000000) div 4" and "(t mod 4000000000) div 4 < 1000000000"
    by linarith+
  then show ?thesis by (simp add: time_defs)
qed

lemma timestamp_roundtrip: "valid_timestamp ts \<Longrightarrow> ToTimespec (time_of_timestamp ts) = ts"
  by (cases ts) (auto simp: time_defs)

lemma ToTimespec_floor:
  "time_of_timestamp (ToTimespec t) \<le> t \<and> t < time_of_timestamp (ToTimespec t) + 4"
  by (simp add: time_defs) presburger

lemma ToTimeT_time_of_timestamp [simp]:
  "valid_timestamp ts \<Longrightarrow> ToTimeT (time_of_timestamp ts) = seconds ts"
  by (cases ts) (auto simp: time_defs)

lemma ToTimeT_le: "FromUnixSeconds (ToTimeT t) \<le> t"
  by (simp add: time_defs)

lemma ToTimespec_FromUnixSeconds [simp]:
  "ToTimespec (FromUnixSeconds s) = \<lparr>seconds = s, nanos = 0\<rparr>"
  by (simp add: time_defs)

lemma ToChronoMicroseconds_nonneg: "0 \<le> d \<Longrightarrow> 0 \<le> ToChronoMicroseconds d"
  by (simp add: ToChronoMicroseconds_def)

end
