(* ===== verification/Messages.thy ===== *)
theory Messages
  imports Abs_Time "HOL-Library.Word"
begin

text \<open>
  The messages of \<open>src/proto/{common,cohort,coordinator}.proto\<close>. A \<open>oneof\<close> is a datatype with a
  constructor for "not set"; a submessage whose presence the code tests is an \<open>option\<close>; an accessor
  of a field that is not set returns the field's default value, as protobuf's C++ accessors do.
\<close>

type_synonym int64 = "64 word"

subsection \<open>common.proto\<close>

record name_space =
  ns_identifier :: string
  ns_address :: string

record get_op =
  get_key :: string

datatype constant_value = ConstantValue "int64 option"

datatype numeric_value = NumericValue "int64 option"

record relative_value =
  relative_part :: "numeric_value option"
  default_part :: "numeric_value option"

datatype put_value = ValueNotSet | Constant constant_value | Relative relative_value

record put_op =
  put_key :: string
  put_val :: put_value

datatype op_type = OpNotSet | GetOp get_op | PutOp put_op

record operation =
  op_namespace :: name_space
  op_type :: op_type

type_synonym transaction = "operation list"

record transaction_config =
  config_abort_time :: "timestamp option"

datatype abort_reason =
    ABORT_REASON_UNSPECIFIED
  | ABORT_REASON_PRESUMED_ABORT_TIMESTAMP_REACHED
  | ABORT_REASON_RESOURCE_LOCKED
  | ABORT_REASON_OPERATION_FOR_NON_EXISTENT_VALUE
  | ABORT_REASON_RELATIVE_VALUE_INVALID_TYPE

record get_response =
  gr_namespace :: name_space
  gr_get :: get_op
  gr_value :: int64

type_synonym committed_response = "get_response list"

text \<open>Accessors with protobuf's defaults.\<close>

fun const_int64 :: "constant_value \<Rightarrow> int64" where
  "const_int64 (ConstantValue v) = (case v of None \<Rightarrow> 0 | Some i \<Rightarrow> i)"

fun num_int64 :: "numeric_value option \<Rightarrow> int64" where
  "num_int64 None = 0"
| "num_int64 (Some (NumericValue v)) = (case v of None \<Rightarrow> 0 | Some i \<Rightarrow> i)"

fun has_get :: "operation \<Rightarrow> bool" where
  "has_get op = (case op_type op of GetOp _ \<Rightarrow> True | _ \<Rightarrow> False)"

fun has_put :: "operation \<Rightarrow> bool" where
  "has_put op = (case op_type op of PutOp _ \<Rightarrow> True | _ \<Rightarrow> False)"

fun the_get :: "operation \<Rightarrow> get_op" where
  "the_get op = (case op_type op of GetOp g \<Rightarrow> g | _ \<Rightarrow> \<lparr>get_key = []\<rparr>)"

fun the_put :: "operation \<Rightarrow> put_op" where
  "the_put op = (case op_type op of PutOp p \<Rightarrow> p | _ \<Rightarrow> \<lparr>put_key = [], put_val = ValueNotSet\<rparr>)"

text \<open>\<open>value.relative_value()\<close>: the default instance when another case is set.\<close>

fun the_relative :: "put_value \<Rightarrow> relative_value" where
  "the_relative (Relative r) = r"
| "the_relative _ = \<lparr>relative_part = None, default_part = None\<rparr>"

definition config_time :: "transaction_config \<Rightarrow> timestamp" where
  "config_time c = (case config_abort_time c of
     None \<Rightarrow> \<lparr>seconds = 0, nanos = 0\<rparr> | Some ts \<Rightarrow> ts)"

subsection \<open>cohort.proto\<close>

datatype participant_info = ParticipantNotSet | OnlyCohort bool | CohortIndex nat

record prepare_request =
  req_transaction_id :: string
  req_transaction :: transaction
  req_config :: transaction_config
  participant :: participant_info

fun only_cohort :: "prepare_request \<Rightarrow> bool" where
  "only_cohort r = (case participant r of OnlyCohort b \<Rightarrow> b | _ \<Rightarrow> False)"

fun cohort_index :: "prepare_request \<Rightarrow> nat" where
  "cohort_index r = (case participant r of CohortIndex i \<Rightarrow> i | _ \<Rightarrow> 0)"

declare only_cohort.simps [simp del] cohort_index.simps [simp del]

datatype cohort_result =
    CohortStatusNotSet
  | CohortPending
  | CohortCommitted committed_response
  | CohortAborted abort_reason

text \<open>
  \<open>mutable_committed_response()\<close> switches the \<open>oneof\<close> to the committed case (empty when it was in
  another case); \<open>committed_response()\<close> reads it, or the empty default instance.
\<close>

fun mutable_committed :: "cohort_result \<Rightarrow> cohort_result" where
  "mutable_committed (CohortCommitted gs) = CohortCommitted gs"
| "mutable_committed _ = CohortCommitted []"

fun committed_of :: "cohort_result \<Rightarrow> committed_response" where
  "committed_of (CohortCommitted gs) = gs"
| "committed_of _ = []"

lemma committed_of_mutable [simp]: "committed_of (mutable_committed r) = committed_of r"
  by (cases r) auto

lemma mutable_committed_eq: "mutable_committed r = CohortCommitted (committed_of r)"
  by (cases r) auto

subsection \<open>coordinator.proto\<close>

record commit_request =
  client_transaction_id :: string
  creq_transaction :: transaction
  creq_config :: transaction_config

record commit_response =
  global_transaction_id :: string
  cresp_config :: transaction_config

record coord_committed =
  complete_flag :: bool
  all_get_responses :: committed_response

record coord_aborted =
  abort_reason_of :: abort_reason
  abort_namespaces :: "name_space list"

datatype coord_result =
    CoordStatusNotSet
  | CoordPending
  | CoordCommitted coord_committed
  | CoordAborted coord_aborted

fun mutable_coord_committed :: "coord_result \<Rightarrow> coord_committed" where
  "mutable_coord_committed (CoordCommitted c) = c"
| "mutable_coord_committed _ = \<lparr>complete_flag = False, all_get_responses = []\<rparr>"

fun mutable_coord_aborted :: "coord_result \<Rightarrow> coord_aborted" where
  "mutable_coord_aborted (CoordAborted a) = a"
| "mutable_coord_aborted _ =
     \<lparr>abort_reason_of = ABORT_REASON_UNSPECIFIED, abort_namespaces = []\<rparr>"

subsection \<open>two\_phase\_commit\_adapter.proto\<close>

datatype ballot = BALLOT_UNSPECIFIED | BALLOT_COMMIT | BALLOT_ABORT

datatype voting_decision =
    VOTING_DECISION_UNKNOWN
  | VOTING_DECISION_PENDING
  | VOTING_DECISION_COMMIT
  | VOTING_DECISION_ABORT

text \<open>A decision that ends the waiting of the cohorts and of the coordinator.\<close>

definition definite :: "voting_decision \<Rightarrow> bool" where
  "definite d \<longleftrightarrow> d \<noteq> VOTING_DECISION_PENDING \<and> d \<noteq> VOTING_DECISION_UNKNOWN"

lemma definite_iff [simp]:
  "definite VOTING_DECISION_COMMIT" "definite VOTING_DECISION_ABORT"
  "\<not> definite VOTING_DECISION_PENDING" "\<not> definite VOTING_DECISION_UNKNOWN"
  by (simp_all add: definite_def)

lemma definite_cases:
  "definite d \<Longrightarrow> d = VOTING_DECISION_COMMIT \<or> d = VOTING_DECISION_ABORT"
  by (cases d) auto

end
