(* ===== verification/Vote_Contract.thy ===== *)
theory Vote_Contract
  imports Messages
begin

text \<open>
  The smart contract \<open>src/blockchain/contracts/TwoPhaseCommit.sol\<close>. A \<open>mapping\<close> is a total function
  whose untouched entries are zero; a failed \<open>require\<close> reverts the whole call (\<^term>\<open>None\<close>, the
  contract keeps its state). \<open>uint256\<close> and \<open>uint32\<close> are words; the arithmetic of the compiler
  versions that accept \<open>now\<close> wraps around. The time of the block is an argument.
\<close>

type_synonym uint256 = "256 word"
type_synonym uint32 = "32 word"

datatype sol_ballot = UNKNOWN | COMMIT | ABORT

record sol_config =
  cohorts :: uint32
  vote_timeout_time :: uint256

record contract =
  transaction_states :: "string \<Rightarrow> uint256"
  transaction_configs :: "string \<Rightarrow> sol_config"
  mock_now :: uint256

definition new_contract :: contract where
  "new_contract = \<lparr>transaction_states = (\<lambda>_. 0),
     transaction_configs = (\<lambda>_. \<lparr>cohorts = 0, vote_timeout_time = 0\<rparr>), mock_now = 0\<rparr>"

fun ballot_uint :: "sol_ballot \<Rightarrow> nat" where
  "ballot_uint UNKNOWN = 0"
| "ballot_uint COMMIT = 1"
| "ballot_uint ABORT = 2"

fun ballot_of_uint :: "nat \<Rightarrow> sol_ballot" where
  "ballot_of_uint n = (if n = 0 then UNKNOWN else if n = 1 then COMMIT else ABORT)"

definition getNow :: "contract \<Rightarrow> uint256 \<Rightarrow> uint256" where
  "getNow c now = (if mock_now c > 0 then mock_now c else now)"

definition setMockNow :: "contract \<Rightarrow> uint256 \<Rightarrow> contract" where
  "setMockNow c new_mock_now = c\<lparr>mock_now := new_mock_now\<rparr>"

definition getHeartBeat :: "bool" where
  "getHeartBeat = True"

definition getCohortBallot :: "uint256 \<Rightarrow> uint32 \<Rightarrow> sol_ballot" where
  "getCohortBallot encoded cohort_id =
     ballot_of_uint (unat ((encoded div 3 ^ unat cohort_id) mod 3))"

definition getNewCohortBallot :: "uint256 \<Rightarrow> uint32 \<Rightarrow> sol_ballot \<Rightarrow> uint256" where
  "getNewCohortBallot encoded cohort_id ballot =
     (let original = getCohortBallot encoded cohort_id;
          encoded = encoded - of_nat (ballot_uint original) * 3 ^ unat cohort_id
      in encoded + of_nat (ballot_uint ballot) * 3 ^ unat cohort_id)"

definition sol_startVoting ::
  "contract \<Rightarrow> uint256 \<Rightarrow> string \<Rightarrow> uint32 \<Rightarrow> uint256 \<Rightarrow> contract option" where
  "sol_startVoting c now tid n timeout =
     (if \<not> n > 0 then None
      else if \<not> n \<le> 120 then None
      else if \<not> getNow c now < timeout then None
      else Some (c\<lparr>
        transaction_configs := (transaction_configs c)(tid := \<lparr>cohorts = n, vote_timeout_time = timeout\<rparr>),
        transaction_states := (transaction_states c)(tid := 0)\<rparr>))"

definition sol_vote ::
  "contract \<Rightarrow> uint256 \<Rightarrow> string \<Rightarrow> uint32 \<Rightarrow> sol_ballot \<Rightarrow> contract option" where
  "sol_vote c now tid cohort_id ballot =
     (if \<not> getNow c now < vote_timeout_time (transaction_configs c tid) then None
      else if \<not> cohorts (transaction_configs c tid) > cohort_id then None
      else if ballot = UNKNOWN then None
      else Some (c\<lparr>
        transaction_states := (transaction_states c)(tid :=
          getNewCohortBallot (transaction_states c tid) cohort_id ballot)\<rparr>))"

datatype sol_option = OPT_UNKNOWN | OPT_PENDING | OPT_COMMIT | OPT_ABORT

fun serializeVotingDecision :: "sol_option \<times> string \<Rightarrow> string" where
  "serializeVotingDecision (opt, reason) =
     (let option_str = (if opt = OPT_PENDING then ''1:''
                        else if opt = OPT_COMMIT then ''2:''
                        else if opt = OPT_ABORT then ''3:'' else ''?:'')
      in option_str @ reason)"

text \<open>
  The counting loop of \<open>getVotingDecision\<close> over the cohort numbers still to visit: the number of
  commit votes, or \<^term>\<open>None\<close> for the early return on the first abort vote.
\<close>

fun count_votes :: "uint256 \<Rightarrow> nat list \<Rightarrow> uint32 \<Rightarrow> uint32 option" where
  "count_votes encoded [] votes = Some votes"
| "count_votes encoded (i # is) votes =
     (let votes = (if getCohortBallot encoded (of_nat i) = COMMIT then votes + 1 else votes)
      in if getCohortBallot encoded (of_nat i) = ABORT then None
         else count_votes encoded is votes)"

definition decide :: "contract \<Rightarrow> uint256 \<Rightarrow> string \<Rightarrow> (sol_option \<times> string) option" where
  "decide c now tid =
     (let n = cohorts (transaction_configs c tid) in
      if \<not> n > 0 then None
      else case count_votes (transaction_states c tid) [0 ..< unat n] 0 of
        None \<Rightarrow> Some (OPT_ABORT, ''Cohort voted to abort.'')
      | Some votes \<Rightarrow>
          if n = votes then Some (OPT_COMMIT, ''Sufficient vote collected before timeout.'')
          else if getNow c now \<ge> vote_timeout_time (transaction_configs c tid)
          then Some (OPT_ABORT, ''Insufficient vote after timeout.'')
          else Some (OPT_PENDING, ''Insufficient vote before timeout.''))"

definition sol_getVotingDecision :: "contract \<Rightarrow> uint256 \<Rightarrow> string \<Rightarrow> string option" where
  "sol_getVotingDecision c now tid = map_option serializeVotingDecision (decide c now tid)"

subsection \<open>Ballots as base-3 digits\<close>

definition digit3 :: "nat \<Rightarrow> nat \<Rightarrow> nat" where
  "digit3 e i = (e div 3 ^ i) mod 3"

definition set_digit3 :: "nat \<Rightarrow> nat \<Rightarrow> nat \<Rightarrow> nat" where
  "set_digit3 e i b = e - digit3 e i * 3 ^ i + b * 3 ^ i"

lemma digit3_lt [simp]: "digit3 e i < 3"
  by (simp add: digit3_def)

lemma digit3_le: "digit3 e i * 3 ^ i \<le> e"
proof -
  have "digit3 e i * 3 ^ i \<le> e div 3 ^ i * 3 ^ i" by (simp add: digit3_def)
  also have "\<dots> \<le> e" by simp
  finally show ?thesis .
qed

text \<open>A number split at digit \<open>i\<close>: the digits above, the digit, the digits below.\<close>

lemma split_at_digit3:
  "e = (e div 3 ^ Suc i) * 3 ^ Suc i + digit3 e i * 3 ^ i + e mod 3 ^ i"
proof -
  have "e div 3 ^ Suc i = e div 3 ^ i div 3" by (simp only: power_Suc2 div_mult2_eq)
  then have "e div 3 ^ i = e div 3 ^ Suc i * 3 + digit3 e i"
    unfolding digit3_def by simp
  then have "e div 3 ^ i * 3 ^ i = e div 3 ^ Suc i * 3 ^ Suc i + digit3 e i * 3 ^ i"
    by (simp add: algebra_simps)
  moreover have "e = e div 3 ^ i * 3 ^ i + e mod 3 ^ i" by (rule div_mult_mod_eq [symmetric])
  ultimately show ?thesis by linarith
qed

lemma set_digit3_split:
  "set_digit3 e i b = (e div 3 ^ Suc i) * 3 ^ Suc i + b * 3 ^ i + e mod 3 ^ i"
  using split_at_digit3 [of e i] digit3_le [of e i] unfolding set_digit3_def by linarith

lemma below_next_digit: "b < 3 \<Longrightarrow> b * 3 ^ i + e mod 3 ^ i < (3::nat) ^ Suc i"
proof -
  assume "b < 3"
  then have "b * 3 ^ i \<le> 2 * (3::nat) ^ i" by simp
  moreover have "e mod 3 ^ i < (3::nat) ^ i" by simp
  ultimately show ?thesis unfolding power_Suc by linarith
qed

lemma set_digit3_div: "b < 3 \<Longrightarrow> set_digit3 e i b div 3 ^ Suc i = e div 3 ^ Suc i"
proof -
  assume "b < 3"
  then have "b * 3 ^ i + e mod 3 ^ i < 3 ^ Suc i" by (rule below_next_digit)
  then show ?thesis by (simp add: set_digit3_split add.assoc del: power_Suc)
qed

lemma digit3_set_same [simp]: "b < 3 \<Longrightarrow> digit3 (set_digit3 e i b) i = b"
proof -
  assume b: "b < 3"
  have "set_digit3 e i b = (e div 3 ^ Suc i * 3 + b) * 3 ^ i + e mod 3 ^ i"
    by (simp add: set_digit3_split algebra_simps)
  then have "set_digit3 e i b div 3 ^ i = e div 3 ^ Suc i * 3 + b" by simp
  with b show ?thesis by (simp add: digit3_def)
qed

lemma digit3_set_other [simp]: "b < 3 \<Longrightarrow> j \<noteq> i \<Longrightarrow> digit3 (set_digit3 e i b) j = digit3 e j"
proof -
  assume b: "b < 3" and "j \<noteq> i"
  then consider (below) "j < i" | (above) "i < j" by linarith
  then show ?thesis
  proof cases
    case below
    then obtain k where k: "i = j + Suc k" by (metis add_Suc_right less_imp_Suc_add)
    have pow: "(3::nat) ^ i = 3 ^ j * (3 * 3 ^ k)" by (simp add: k power_add)
    have "set_digit3 e i b + digit3 e i * 3 ^ i = e + b * 3 ^ i"
      using digit3_le [of e i] by (simp add: set_digit3_def)
    then have "(set_digit3 e i b + digit3 e i * 3 ^ i) div 3 ^ j mod 3 = (e + b * 3 ^ i) div 3 ^ j mod 3"
      by simp
    moreover have "(x + c * 3 ^ i) div 3 ^ j mod 3 = x div 3 ^ j mod 3" for x c :: nat
    proof -
      have "x + c * 3 ^ i = x + 3 ^ j * (3 * (c * 3 ^ k))" unfolding pow by simp
      then show ?thesis by (simp only: div_mult_self2 mod_mult_self2) simp
    qed
    ultimately show ?thesis by (simp add: digit3_def)
  next
    case above
    then obtain k where k: "j = Suc i + k" by (metis add_Suc less_imp_Suc_add)
    have "set_digit3 e i b div 3 ^ Suc i div 3 ^ k = e div 3 ^ Suc i div 3 ^ k"
      using b by (simp add: set_digit3_div del: power_Suc)
    then show ?thesis by (simp add: digit3_def k power_add div_mult2_eq)
  qed
qed

lemma set_digit3_bound:
  assumes "e < 3 ^ n" and "i < n" and "b < 3"
  shows "set_digit3 e i b < 3 ^ n"
proof -
  obtain k where k: "n = Suc i + k" using assms(2) by (metis add_Suc less_imp_Suc_add)
  have "e < 3 ^ k * 3 ^ Suc i" using assms(1) unfolding k power_add by (simp only: mult.commute)
  then have "e div 3 ^ Suc i < 3 ^ k" by (rule less_mult_imp_div_less)
  then have "set_digit3 e i b div 3 ^ Suc i < 3 ^ k"
    using assms(3) by (simp only: set_digit3_div)
  then have "set_digit3 e i b < 3 ^ k * 3 ^ Suc i"
    by (subst (asm) div_less_iff_less_mult) simp_all
  then show ?thesis unfolding k power_add by (simp only: mult.commute)
qed

subsection \<open>The encoded ballots of a transaction\<close>

text \<open>
  \<open>3 ^ 120\<close> fits into 256 bits, so an encoding of at most 120 ballots never wraps around, and the
  word operations of the contract are the digit operations on natural numbers.
\<close>

lemma pow3_fits: "n \<le> 120 \<Longrightarrow> (3::nat) ^ n < 2 ^ 256"
proof -
  assume "n \<le> 120"
  then have "(3::nat) ^ n \<le> 3 ^ 120" by (rule power_increasing) simp
  also have "(3::nat) ^ 120 < 2 ^ 256" by simp
  finally show ?thesis .
qed

lemma unat_small_nat: "e < 2 ^ 256 \<Longrightarrow> unat (of_nat e :: uint256) = e"
  by (simp add: unat_of_nat take_bit_nat_eq_self)

lemma digit3_enc: "unat ((encoded div 3 ^ i) mod (3 :: uint256)) = digit3 (unat encoded) i"
  if "i \<le> 120"
proof -
  have "unat ((3 :: uint256) ^ i) = unat (of_nat (3 ^ i) :: uint256)" by simp
  also have "\<dots> = 3 ^ i" using pow3_fits [OF that] by (rule unat_small_nat)
  finally show ?thesis by (simp add: unat_div_distrib unat_mod_distrib digit3_def)
qed

lemma getCohortBallot_digit:
  "unat i \<le> 120 \<Longrightarrow> getCohortBallot encoded i = ballot_of_uint (digit3 (unat encoded) (unat i))"
  by (simp add: getCohortBallot_def digit3_enc del: ballot_of_uint.simps)

lemma ballot_uint_lt [simp]: "ballot_uint b < 3"
  by (cases b) auto

lemma ballot_of_ballot_uint [simp]: "ballot_of_uint (ballot_uint b) = b"
  by (cases b) auto

lemma ballot_uint_of_uint [simp]: "n < 3 \<Longrightarrow> ballot_uint (ballot_of_uint n) = n"
  by auto

lemma unat_getNewCohortBallot:
  assumes "unat encoded < 3 ^ n" and "unat i < n" and "n \<le> 120"
  shows "unat (getNewCohortBallot encoded i b) = set_digit3 (unat encoded) (unat i) (ballot_uint b)"
proof -
  let ?e = "unat encoded" and ?i = "unat i"
  have i: "?i \<le> 120" using assms by simp
  have orig: "ballot_uint (getCohortBallot encoded i) = digit3 ?e ?i"
    using i by (simp add: getCohortBallot_digit del: ballot_of_uint.simps)
  have "getNewCohortBallot encoded i b =
      of_nat ?e - of_nat (digit3 ?e ?i * 3 ^ ?i) + of_nat (ballot_uint b * 3 ^ ?i)"
    by (simp add: getNewCohortBallot_def orig Let_def)
  also have "\<dots> = of_nat (set_digit3 ?e ?i (ballot_uint b))"
    using digit3_le [of ?e ?i] unfolding set_digit3_def of_nat_add by (simp only: of_nat_diff)
  finally have eq: "getNewCohortBallot encoded i b = of_nat (set_digit3 ?e ?i (ballot_uint b))" .
  have "set_digit3 ?e ?i (ballot_uint b) < 3 ^ n"
    using assms(1,2) by (rule set_digit3_bound) simp
  also have "\<dots> < 2 ^ 256" using assms(3) by (rule pow3_fits)
  finally show ?thesis unfolding eq by (rule unat_small_nat)
qed

text \<open>
  The invariant of the contract: every transaction has at most 120 cohorts and its encoding uses
  one digit per cohort.
\<close>

definition contract_inv :: "contract \<Rightarrow> bool" where
  "contract_inv c \<longleftrightarrow> (\<forall>tid. unat (cohorts (transaction_configs c tid)) \<le> 120 \<and>
     unat (transaction_states c tid) < 3 ^ unat (cohorts (transaction_configs c tid)))"

lemma contract_invD:
  assumes "contract_inv c"
  shows "unat (cohorts (transaction_configs c tid)) \<le> 120"
    and "unat (transaction_states c tid) < 3 ^ unat (cohorts (transaction_configs c tid))"
  using assms by (auto simp: contract_inv_def)

definition ballot_at :: "contract \<Rightarrow> string \<Rightarrow> nat \<Rightarrow> sol_ballot" where
  "ballot_at c tid i = getCohortBallot (transaction_states c tid) (of_nat i)"

definition num_cohorts :: "contract \<Rightarrow> string \<Rightarrow> nat" where
  "num_cohorts c tid = unat (cohorts (transaction_configs c tid))"

lemma unat_of_nat_32 [simp]: "i \<le> 120 \<Longrightarrow> unat (of_nat i :: uint32) = i"
  by (simp add: unat_of_nat take_bit_nat_eq_self)

lemma ballot_at_digit:
  "i \<le> 120 \<Longrightarrow> ballot_at c tid i = ballot_of_uint (digit3 (unat (transaction_states c tid)) i)"
  by (simp add: ballot_at_def getCohortBallot_digit del: ballot_of_uint.simps)

subsection \<open>The operations of the contract\<close>

lemma contract_inv_new [simp]: "contract_inv new_contract"
  by (simp add: contract_inv_def new_contract_def)

lemma contract_inv_setMockNow [simp]: "contract_inv (setMockNow c t) = contract_inv c"
  by (simp add: contract_inv_def setMockNow_def)

lemma startVoting_accepts:
  "sol_startVoting c now tid n timeout \<noteq> None \<longleftrightarrow>
   0 < unat n \<and> unat n \<le> 120 \<and> getNow c now < timeout"
  by (simp add: sol_startVoting_def word_le_nat_alt word_gt_0 unat_gt_0)

lemma startVoting_effect:
  assumes "sol_startVoting c now tid n timeout = Some c'"
  shows "num_cohorts c' tid = unat n" and "vote_timeout_time (transaction_configs c' tid) = timeout"
    and "i \<le> 120 \<Longrightarrow> ballot_at c' tid i = UNKNOWN"
    and "tid' \<noteq> tid \<Longrightarrow> transaction_configs c' tid' = transaction_configs c tid' \<and>
           transaction_states c' tid' = transaction_states c tid'"
    and "mock_now c' = mock_now c"
  using assms
  by (auto simp: sol_startVoting_def num_cohorts_def ballot_at_digit digit3_def split: if_splits)

lemma startVoting_inv:
  "contract_inv c \<Longrightarrow> sol_startVoting c now tid n timeout = Some c' \<Longrightarrow> contract_inv c'"
  by (auto simp: sol_startVoting_def contract_inv_def word_le_nat_alt split: if_splits)

lemma vote_accepts:
  "sol_vote c now tid i b \<noteq> None \<longleftrightarrow>
   getNow c now < vote_timeout_time (transaction_configs c tid) \<and> unat i < num_cohorts c tid \<and>
   b \<noteq> UNKNOWN"
  by (simp add: sol_vote_def num_cohorts_def word_less_nat_alt)

lemma vote_frame:
  assumes "sol_vote c now tid i b = Some c'"
  shows "transaction_configs c' = transaction_configs c" and "mock_now c' = mock_now c"
    and "tid' \<noteq> tid \<Longrightarrow> transaction_states c' tid' = transaction_states c tid'"
  using assms by (auto simp: sol_vote_def split: if_splits)

lemma vote_digits:
  assumes "contract_inv c" and "sol_vote c now tid i b = Some c'"
  shows "unat (transaction_states c' tid) =
         set_digit3 (unat (transaction_states c tid)) (unat i) (ballot_uint b)"
    and "unat i < num_cohorts c tid"
proof -
  show i: "unat i < num_cohorts c tid" using assms(2) vote_accepts [of c now tid i b] by auto
  have "transaction_states c' tid = getNewCohortBallot (transaction_states c tid) i b"
    using assms(2) by (auto simp: sol_vote_def split: if_splits)
  moreover have "unat (getNewCohortBallot (transaction_states c tid) i b) =
      set_digit3 (unat (transaction_states c tid)) (unat i) (ballot_uint b)"
    using contract_invD [OF assms(1)] i unfolding num_cohorts_def
    by (rule unat_getNewCohortBallot [rotated 2, OF _ _ _]) 
  ultimately show "unat (transaction_states c' tid) =
         set_digit3 (unat (transaction_states c tid)) (unat i) (ballot_uint b)" by simp
qed

lemma vote_inv:
  assumes "contract_inv c" and "sol_vote c now tid i b = Some c'"
  shows "contract_inv c'"
proof -
  have "unat (transaction_states c' tid') < 3 ^ unat (cohorts (transaction_configs c' tid'))" for tid'
  proof (cases "tid' = tid")
    case True
    have "set_digit3 (unat (transaction_states c tid)) (unat i) (ballot_uint b) < 3 ^ num_cohorts c tid"
      using contract_invD(2) [OF assms(1)] vote_digits(2) [OF assms]
      unfolding num_cohorts_def by (rule set_digit3_bound) simp
    then show ?thesis
      using True vote_digits(1) [OF assms] vote_frame(1) [OF assms(2)] by (simp add: num_cohorts_def)
  next
    case False
    then show ?thesis using vote_frame [OF assms(2)] contract_invD(2) [OF assms(1)] by simp
  qed
  then show ?thesis
    using vote_frame(1) [OF assms(2)] contract_invD(1) [OF assms(1)] by (simp add: contract_inv_def)
qed

text \<open>A vote changes the voter's ballot and no other ballot.\<close>

lemma vote_ballots:
  assumes "contract_inv c" and "sol_vote c now tid i b = Some c'" and "j \<le> 120"
  shows "ballot_at c' tid j = (if j = unat i then b else ballot_at c tid j)"
  using assms(3) by (simp add: ballot_at_digit vote_digits(1) [OF assms(1,2)] del: ballot_of_uint.simps)

lemma vote_num_cohorts: "sol_vote c now tid i b = Some c' \<Longrightarrow> num_cohorts c' = num_cohorts c"
  by (simp add: fun_eq_iff num_cohorts_def vote_frame)

subsection \<open>The decision\<close>

lemma count_votes_None_iff:
  "count_votes encoded is votes = None \<longleftrightarrow>
   (\<exists>i \<in> set is. getCohortBallot encoded (of_nat i) = ABORT)"
  by (induction encoded "is" votes rule: count_votes.induct) (auto simp: Let_def)

lemma count_votes_Some:
  "count_votes encoded is votes = Some n \<Longrightarrow>
   n = votes + of_nat (length (filter (\<lambda>i. getCohortBallot encoded (of_nat i) = COMMIT) is))"
  by (induction encoded "is" votes rule: count_votes.induct) (auto simp: Let_def split: if_splits)

definition all_commit :: "contract \<Rightarrow> string \<Rightarrow> bool" where
  "all_commit c tid \<longleftrightarrow> (\<forall>i < num_cohorts c tid. ballot_at c tid i = COMMIT)"

definition some_abort :: "contract \<Rightarrow> string \<Rightarrow> bool" where
  "some_abort c tid \<longleftrightarrow> (\<exists>i < num_cohorts c tid. ballot_at c tid i = ABORT)"

definition timed_out :: "contract \<Rightarrow> uint256 \<Rightarrow> string \<Rightarrow> bool" where
  "timed_out c now tid \<longleftrightarrow> getNow c now \<ge> vote_timeout_time (transaction_configs c tid)"

lemma filter_all_length: "length (filter P xs) = length xs \<longleftrightarrow> (\<forall>x \<in> set xs. P x)"
  by (metis filter_True length_filter_less linorder_neq_iff)

lemma count_all_commit:
  assumes "contract_inv c"
    and "count_votes (transaction_states c tid) [0 ..< num_cohorts c tid] 0 = Some votes"
  shows "cohorts (transaction_configs c tid) = votes \<longleftrightarrow> all_commit c tid"
proof -
  let ?yes = "filter (\<lambda>i. getCohortBallot (transaction_states c tid) (of_nat i) = COMMIT)
    [0 ..< num_cohorts c tid]"
  have n: "num_cohorts c tid \<le> 120" using contract_invD(1) [OF assms(1)] by (simp add: num_cohorts_def)
  have "votes = of_nat (length ?yes)" using count_votes_Some [OF assms(2)] by simp
  moreover have "length ?yes \<le> 120" using length_filter_le [of _ "[0 ..< num_cohorts c tid]"] n
    by (metis diff_zero length_upt order_trans)
  ultimately have "unat votes = length ?yes" by simp
  then have "cohorts (transaction_configs c tid) = votes \<longleftrightarrow> length ?yes = num_cohorts c tid"
    by (auto simp: num_cohorts_def word_unat_eq_iff)
  also have "\<dots> \<longleftrightarrow> all_commit c tid"
    using filter_all_length [of _ "[0 ..< num_cohorts c tid]"]
    by (auto simp: all_commit_def ballot_at_def)
  finally show ?thesis .
qed

lemma some_abort_count:
  "some_abort c tid \<longleftrightarrow> count_votes (transaction_states c tid) [0 ..< num_cohorts c tid] 0 = None"
  by (auto simp: some_abort_def ballot_at_def count_votes_None_iff)

text \<open>
  The decision, case by case. The four results exclude each other: an abort vote wins over
  everything, unanimity over the timeout, and only an open vote before the timeout is pending.
\<close>

lemma decide_cases:
  assumes "contract_inv c" and "0 < num_cohorts c tid"
  shows "decide c now tid = Some (
    if some_abort c tid then (OPT_ABORT, ''Cohort voted to abort.'')
    else if all_commit c tid then (OPT_COMMIT, ''Sufficient vote collected before timeout.'')
    else if timed_out c now tid then (OPT_ABORT, ''Insufficient vote after timeout.'')
    else (OPT_PENDING, ''Insufficient vote before timeout.''))"
proof (cases "count_votes (transaction_states c tid) [0 ..< num_cohorts c tid] 0")
  case None
  moreover have "cohorts (transaction_configs c tid) > 0"
    using assms(2) by (simp add: num_cohorts_def unat_gt_0 word_gt_0)
  ultimately show ?thesis using some_abort_count [of c tid]
    by (simp add: decide_def num_cohorts_def)
next
  case (Some votes)
  moreover have "cohorts (transaction_configs c tid) > 0"
    using assms(2) by (simp add: num_cohorts_def unat_gt_0 word_gt_0)
  ultimately show ?thesis
    using some_abort_count [of c tid] count_all_commit [OF assms(1) Some]
    by (simp add: decide_def num_cohorts_def timed_out_def)
qed

lemma decide_None: "decide c now tid = None \<longleftrightarrow> num_cohorts c tid = 0"
  by (auto simp: decide_def num_cohorts_def Let_def word_gt_0 unat_eq_zero split: option.splits)

text \<open>The decision as the proto enumeration, before it is serialized.\<close>

definition decision_option :: "contract \<Rightarrow> uint256 \<Rightarrow> string \<Rightarrow> sol_option option" where
  "decision_option c now tid = map_option fst (decide c now tid)"

lemma decision_commit_iff:
  assumes "contract_inv c" and "0 < num_cohorts c tid"
  shows "decision_option c now tid = Some OPT_COMMIT \<longleftrightarrow> all_commit c tid"
  using assms by (auto simp: decision_option_def decide_cases all_commit_def some_abort_def)

lemma decision_abort_iff:
  assumes "contract_inv c" and "0 < num_cohorts c tid"
  shows "decision_option c now tid = Some OPT_ABORT \<longleftrightarrow>
         some_abort c tid \<or> \<not> all_commit c tid \<and> timed_out c now tid"
  using assms by (auto simp: decision_option_def decide_cases)

lemma decision_pending_iff:
  assumes "contract_inv c" and "0 < num_cohorts c tid"
  shows "decision_option c now tid = Some OPT_PENDING \<longleftrightarrow>
         \<not> some_abort c tid \<and> \<not> all_commit c tid \<and> \<not> timed_out c now tid"
  using assms by (auto simp: decision_option_def decide_cases)

lemma vote_refused_after_timeout: "timed_out c now tid \<Longrightarrow> sol_vote c now tid i b = None"
  by (simp add: sol_vote_def timed_out_def linorder_not_less)

end
