(* ===== verification/Chain_Adapter.thy ===== *)
theory Chain_Adapter
  imports Vote_Contract
begin

text \<open>
  The JavaScript adapter server between the C++ servers and the contract:
  \<open>src/blockchain/client/{adapter_server,contract_client}.js\<close> and its messages
  (\<open>two_phase_commit_adapter.proto\<close>). A handler either calls its callback once, with the response,
  or never: on an error of the contract call \<open>contract_client.js\<close> only logs it. The result of a
  handler is therefore the new chain and an optional response. \<open>web3\<close> encodes the arguments and
  refuses a value that does not fit its Solidity type.
\<close>

record chain =
  deployed :: contract
  block_now :: uint256

record start_voting_request =
  sv_transaction_id :: string
  sv_timeout_time :: timestamp
  sv_cohorts :: uint32

record vote_request =
  vr_transaction_id :: string
  vr_cohort_id :: int
  vr_ballot :: ballot

record get_decision_request =
  dr_transaction_id :: string

record get_decision_response =
  dr_decision :: voting_decision
  dr_reason :: string

subsection \<open>contract\_client.js\<close>

definition encodes_uint :: "nat \<Rightarrow> int \<Rightarrow> bool" where
  "encodes_uint bits v \<longleftrightarrow> 0 \<le> v \<and> v < 2 ^ bits"

text \<open>\<open>send\<close> mines a transaction: \<open>Some\<close> new chain when it is accepted, \<open>None\<close> when it fails.\<close>

definition client_startVoting :: "chain \<Rightarrow> string \<Rightarrow> uint32 \<Rightarrow> int \<Rightarrow> chain option" where
  "client_startVoting ch tid n timeout =
     (if encodes_uint 256 timeout
      then map_option (\<lambda>c. ch\<lparr>deployed := c\<rparr>)
             (sol_startVoting (deployed ch) (block_now ch) tid n (of_int timeout))
      else None)"

definition client_vote :: "chain \<Rightarrow> string \<Rightarrow> int \<Rightarrow> nat \<Rightarrow> chain option" where
  "client_vote ch tid cohort_id ballot_int =
     (if encodes_uint 32 cohort_id
      then map_option (\<lambda>c. ch\<lparr>deployed := c\<rparr>)
             (sol_vote (deployed ch) (block_now ch) tid (of_int cohort_id) (ballot_of_uint ballot_int))
      else None)"

definition client_getVotingDecision :: "chain \<Rightarrow> string \<Rightarrow> string option" where
  "client_getVotingDecision ch tid = sol_getVotingDecision (deployed ch) (block_now ch) tid"

subsection \<open>adapter\_server.js\<close>

definition js_startVoting :: "start_voting_request \<Rightarrow> chain \<Rightarrow> chain \<times> unit option" where
  "js_startVoting req ch =
     (case client_startVoting ch (sv_transaction_id req) (sv_cohorts req)
             (seconds (sv_timeout_time req)) of
        None \<Rightarrow> (ch, None)
      | Some ch' \<Rightarrow> (ch', Some ()))"

fun ballot_int :: "ballot \<Rightarrow> nat" where
  "ballot_int b = (if b = BALLOT_COMMIT then 1 else if b = BALLOT_ABORT then 2 else 0)"

definition js_vote :: "vote_request \<Rightarrow> chain \<Rightarrow> chain \<times> unit option" where
  "js_vote req ch =
     (case client_vote ch (vr_transaction_id req) (vr_cohort_id req) (ballot_int (vr_ballot req)) of
        None \<Rightarrow> (ch, None)
      | Some ch' \<Rightarrow> (ch', Some ()))"

text \<open>\<open>switch (result.charAt(0))\<close> and \<open>result.substring(2)\<close>.\<close>

definition parse_decision :: "string \<Rightarrow> voting_decision" where
  "parse_decision result =
     (case result of
        [] \<Rightarrow> VOTING_DECISION_UNKNOWN
      | ch # _ \<Rightarrow>
          if ch = CHR ''1'' then VOTING_DECISION_PENDING
          else if ch = CHR ''2'' then VOTING_DECISION_COMMIT
          else if ch = CHR ''3'' then VOTING_DECISION_ABORT
          else VOTING_DECISION_UNKNOWN)"

definition js_getVotingDecision ::
  "get_decision_request \<Rightarrow> chain \<Rightarrow> chain \<times> get_decision_response option" where
  "js_getVotingDecision req ch =
     (ch, map_option (\<lambda>result. \<lparr>dr_decision = parse_decision result, dr_reason = drop 2 result\<rparr>)
            (client_getVotingDecision ch (dr_transaction_id req)))"

definition js_getHeartBeat :: "chain \<Rightarrow> chain \<times> bool option" where
  "js_getHeartBeat ch = (ch, Some getHeartBeat)"

subsection \<open>The decision survives the trip through a string\<close>

fun proto_decision :: "sol_option \<Rightarrow> voting_decision" where
  "proto_decision OPT_UNKNOWN = VOTING_DECISION_UNKNOWN"
| "proto_decision OPT_PENDING = VOTING_DECISION_PENDING"
| "proto_decision OPT_COMMIT = VOTING_DECISION_COMMIT"
| "proto_decision OPT_ABORT = VOTING_DECISION_ABORT"

lemma parse_serialize [simp]: "parse_decision (serializeVotingDecision (opt, reason)) = proto_decision opt"
  by (cases opt) (simp_all add: parse_decision_def)

lemma reason_serialize [simp]: "drop 2 (serializeVotingDecision (opt, reason)) = reason"
  by (cases opt) simp_all

lemma js_getVotingDecision_eq:
  "js_getVotingDecision req ch =
     (ch, map_option (\<lambda>(opt, reason). \<lparr>dr_decision = proto_decision opt, dr_reason = reason\<rparr>)
            (decide (deployed ch) (block_now ch) (dr_transaction_id req)))"
  by (cases "decide (deployed ch) (block_now ch) (dr_transaction_id req)")
     (auto simp: js_getVotingDecision_def client_getVotingDecision_def sol_getVotingDecision_def
       simp del: serializeVotingDecision.simps)

lemma js_vote_answers:
  "snd (js_vote req ch) \<noteq> None \<longleftrightarrow>
   (\<exists>c'. client_vote ch (vr_transaction_id req) (vr_cohort_id req) (ballot_int (vr_ballot req)) = Some c')"
  by (auto simp: js_vote_def split: option.splits)

lemma client_vote_accepts:
  assumes "i \<le> 120" and "b \<noteq> BALLOT_UNSPECIFIED"
  shows "client_vote ch tid (int i) (ballot_int b) \<noteq> None \<longleftrightarrow>
         getNow (deployed ch) (block_now ch) < vote_timeout_time (transaction_configs (deployed ch) tid)
         \<and> i < num_cohorts (deployed ch) tid"
  using assms vote_accepts [of "deployed ch" "block_now ch" tid "of_nat i" "ballot_of_uint (ballot_int b)"]
  by (cases b) (auto simp: client_vote_def encodes_uint_def)

end
