(* ===== verification/Status_Utils.thy ===== *)
theory Status_Utils
  imports Prelude
begin

text \<open>
  \<open>absl::Status\<close>, \<open>grpc::Status\<close> and the conversions and macros of
  \<open>src/utils/status_utils.{h,cc}\<close>. Both libraries number their codes alike; a code is kept as the
  raw integer because the conversions cast raw integers. An \<open>absl::StatusOr\<open>T\<close>\<close> is a value of
  type \<open>absl_status + T\<close>.
\<close>

record absl_status =
  raw_code :: int
  absl_message :: string

record grpc_status =
  error_code :: int
  error_message :: string

abbreviation (input) kOk :: int where "kOk \<equiv> 0"
abbreviation (input) kUnknown :: int where "kUnknown \<equiv> 2"
abbreviation (input) kInvalidArgument :: int where "kInvalidArgument \<equiv> 3"
abbreviation (input) kDeadlineExceeded :: int where "kDeadlineExceeded \<equiv> 4"
abbreviation (input) kNotFound :: int where "kNotFound \<equiv> 5"
abbreviation (input) kFailedPrecondition :: int where "kFailedPrecondition \<equiv> 9"
abbreviation (input) kInternal :: int where "kInternal \<equiv> 13"
abbreviation (input) kUnavailable :: int where "kUnavailable \<equiv> 14"

text \<open>The constructor \<open>absl::Status(code, message)\<close>: an OK code drops the message.\<close>

definition mk_absl_status :: "int \<Rightarrow> string \<Rightarrow> absl_status" where
  "mk_absl_status c msg = (if c = kOk then \<lparr>raw_code = kOk, absl_message = []\<rparr>
                           else \<lparr>raw_code = c, absl_message = msg\<rparr>)"

definition OkStatus :: absl_status where
  "OkStatus = \<lparr>raw_code = kOk, absl_message = []\<rparr>"

definition grpc_OK :: grpc_status where
  "grpc_OK = \<lparr>error_code = kOk, error_message = []\<rparr>"

definition absl_ok :: "absl_status \<Rightarrow> bool" where
  "absl_ok st \<longleftrightarrow> raw_code st = kOk"

definition grpc_ok :: "grpc_status \<Rightarrow> bool" where
  "grpc_ok st \<longleftrightarrow> error_code st = kOk"

text \<open>\<open>Status::code()\<close> maps a raw code outside the canonical range to \<open>kUnknown\<close>.\<close>

definition absl_code :: "absl_status \<Rightarrow> int" where
  "absl_code st = (if 0 \<le> raw_code st \<and> raw_code st \<le> 16 then raw_code st else kUnknown)"

definition FromAbslStatus :: "absl_status \<Rightarrow> string \<Rightarrow> grpc_status" where
  "FromAbslStatus status prefix =
     \<lparr>error_code = raw_code status,
      error_message = StrCat (StrCat prefix '' '') (absl_message status)\<rparr>"

definition FromGrpcStatus :: "grpc_status \<Rightarrow> string \<Rightarrow> absl_status" where
  "FromGrpcStatus status prefix =
     mk_absl_status (error_code status) (StrCat prefix (error_message status))"

text \<open>
  \<open>RETURN_IF_ERROR(expr); rest\<close>: evaluate the call, return its status when it is an error, go on
  with the state it left otherwise. \<open>ASSIGN_OR_RETURN(lhs, rexpr); rest\<close> unwraps a
  \<open>StatusOr\<close> or returns its status.
\<close>

definition return_if_error ::
  "(absl_status \<times> 's) option \<Rightarrow> ('s \<Rightarrow> (absl_status \<times> 's) option) \<Rightarrow> (absl_status \<times> 's) option" where
  "return_if_error e rest =
     do { (st, s) \<leftarrow> e; if absl_ok st then rest s else Some (st, s) }"

definition assign_or_return ::
  "absl_status + 'a \<Rightarrow> ('a \<Rightarrow> absl_status + 'b) \<Rightarrow> absl_status + 'b" where
  "assign_or_return e rest = (case e of Inl st \<Rightarrow> Inl st | Inr v \<Rightarrow> rest v)"

lemma absl_ok_OkStatus [simp]: "absl_ok OkStatus"
  by (simp add: absl_ok_def OkStatus_def)

lemma grpc_ok_grpc_OK [simp]: "grpc_ok grpc_OK"
  by (simp add: grpc_ok_def grpc_OK_def)

lemma raw_code_OkStatus [simp]: "raw_code OkStatus = kOk"
  by (simp add: OkStatus_def)

lemma absl_ok_mk [simp]: "absl_ok (mk_absl_status c msg) \<longleftrightarrow> c = kOk"
  by (simp add: absl_ok_def mk_absl_status_def)

lemma raw_code_mk [simp]: "raw_code (mk_absl_status c msg) = c"
  by (simp add: mk_absl_status_def)

lemma absl_code_canonical: "0 \<le> raw_code st \<Longrightarrow> raw_code st \<le> 16 \<Longrightarrow> absl_code st = raw_code st"
  by (simp add: absl_code_def)

lemma absl_code_mk [simp]:
  "absl_code (mk_absl_status c msg) = (if 0 \<le> c \<and> c \<le> 16 then c else kUnknown)"
  by (simp add: absl_code_def)

lemma absl_ok_FromGrpcStatus [simp]: "absl_ok (FromGrpcStatus st p) \<longleftrightarrow> grpc_ok st"
  by (simp add: FromGrpcStatus_def grpc_ok_def)

lemma grpc_ok_FromAbslStatus [simp]: "grpc_ok (FromAbslStatus st p) \<longleftrightarrow> absl_ok st"
  by (simp add: FromAbslStatus_def grpc_ok_def absl_ok_def)

lemma error_code_FromAbslStatus [simp]: "error_code (FromAbslStatus st p) = raw_code st"
  by (simp add: FromAbslStatus_def)

lemma raw_code_FromGrpcStatus [simp]: "raw_code (FromGrpcStatus st p) = error_code st"
  by (simp add: FromGrpcStatus_def)

lemma return_if_error_returns [bind_elims]:
  "return_if_error e rest = Some r \<Longrightarrow>
   (\<And>st s. e = Some (st, s) \<Longrightarrow> absl_ok st \<Longrightarrow> rest s = Some r \<Longrightarrow> P) \<Longrightarrow>
   (\<And>st s. e = Some (st, s) \<Longrightarrow> \<not> absl_ok st \<Longrightarrow> r = (st, s) \<Longrightarrow> P) \<Longrightarrow> P"
  by (cases e) (auto simp: return_if_error_def split: if_splits)

lemma return_if_error_ok [simp]:
  "absl_ok st \<Longrightarrow> return_if_error (Some (st, s)) rest = rest s"
  by (simp add: return_if_error_def)

lemma return_if_error_error [simp]:
  "\<not> absl_ok st \<Longrightarrow> return_if_error (Some (st, s)) rest = Some (st, s)"
  by (simp add: return_if_error_def)

lemma return_if_error_None [simp]: "return_if_error None rest = None"
  by (simp add: return_if_error_def)

lemma assign_or_return_simps [simp]:
  "assign_or_return (Inl st) rest = Inl st"
  "assign_or_return (Inr v) rest = rest v"
  by (simp_all add: assign_or_return_def)

end
