(* ===== verification/Retry_Loop.thy ===== *)
theory Retry_Loop
  imports Prelude
begin

text \<open>
  Loops that repeat an attempt which either succeeds, or fails and leaves a world in which to try again: the
  client polling for a result and probing for the coordinator, the cohort waiting for the decision and
  committing to its database, the constructor of the blockchain client waiting for the adapter server. The laws of
  such a loop are its recursion equation and the induction rule of its least fixed point; that it returns is
  that some attempt succeeds.
\<close>

locale retry_loop =
  fixes loop :: "'w \<Rightarrow> 'r option"
    and attempt :: "'w \<Rightarrow> ('r + 'w) option"
  assumes unfold: "loop w = (case attempt w of None \<Rightarrow> None | Some (Inl r) \<Rightarrow> Some r | Some (Inr w') \<Rightarrow> loop w')"
    and induct [consumes 1, case_names succeeds fails]: "loop w = Some r \<Longrightarrow> (\<And>w r. attempt w = Some (Inl r) \<Longrightarrow> P w r) \<Longrightarrow>
      (\<And>w w' r. attempt w = Some (Inr w') \<Longrightarrow> P w' r \<Longrightarrow> P w r) \<Longrightarrow> P w r"
begin

text \<open>\<open>failing n w\<close>: the world after \<open>n\<close> attempts from \<open>w\<close> that all failed.\<close>

fun failing :: "nat \<Rightarrow> 'w \<Rightarrow> 'w option" where
  "failing 0 w = Some w"
| "failing (Suc n) w = (case attempt w of Some (Inr w') \<Rightarrow> failing n w' | _ \<Rightarrow> None)"

lemma failing_loop: "failing n w = Some w' \<Longrightarrow> loop w = loop w'"
proof (induction n arbitrary: w)
  case (Suc n)
  then show ?case by (subst unfold) (auto split: option.splits sum.splits)
qed simp

text \<open>\<open>succeeds_after n w\<close>: the result when \<open>n\<close> attempts fail and the next one succeeds.\<close>

fun succeeds_after :: "nat \<Rightarrow> 'w \<Rightarrow> 'r option" where
  "succeeds_after 0 w = (case attempt w of Some (Inl r) \<Rightarrow> Some r | _ \<Rightarrow> None)"
| "succeeds_after (Suc n) w = (case attempt w of Some (Inr w') \<Rightarrow> succeeds_after n w' | _ \<Rightarrow> None)"

lemma succeeds_after_failing:
  "succeeds_after n w = Some r \<longleftrightarrow> (\<exists>w'. failing n w = Some w' \<and> attempt w' = Some (Inl r))"
  by (induction n arbitrary: w) (auto split: option.splits sum.splits)

lemma returns_iff: "loop w = Some r \<longleftrightarrow> (\<exists>n w'. failing n w = Some w' \<and> attempt w' = Some (Inl r))"
proof
  assume "loop w = Some r"
  then show "\<exists>n w'. failing n w = Some w' \<and> attempt w' = Some (Inl r)"
  proof (induction rule: induct)
    case (succeeds w r)
    then show ?case by (intro exI [of _ 0]) simp
  next
    case (fails w w' r)
    then obtain n w'' where "failing n w' = Some w''" "attempt w'' = Some (Inl r)" by blast
    with fails(1) show ?case by (intro exI [of _ "Suc n"]) simp
  qed
next
  assume "\<exists>n w'. failing n w = Some w' \<and> attempt w' = Some (Inl r)"
  then obtain n w' where "failing n w = Some w'" and "attempt w' = Some (Inl r)" by blast
  then show "loop w = Some r" using failing_loop unfold [of w'] by simp
qed

lemma returns_after_iff: "loop w = Some r \<longleftrightarrow> (\<exists>n. succeeds_after n w = Some r)"
  by (simp add: returns_iff succeeds_after_failing)

text \<open>What a failed attempt keeps holds after any number of them.\<close>

lemma failing_invariant:
  assumes "failing n w = Some w'" and "Q w" and "\<And>w w'. attempt w = Some (Inr w') \<Longrightarrow> Q w \<Longrightarrow> Q w'"
  shows "Q w'"
  using assms(1,2) by (induction n w rule: failing.induct) (auto split: option.splits sum.splits dest: assms(3))

end

end
