(* ===== verification/Blockchain_Client.thy ===== *)
theory Blockchain_Client
  imports Chain_Adapter Status_Utils Retry_Loop
begin

text \<open>
  \<open>blockchain::TwoPhaseCommit\<close> (\<open>src/blockchain/two_phase_commit.{h,cc}\<close>), the C++ client of the
  adapter server. The gRPC stub is a parameter: a record of the four calls over a world of type
  \<open>'w\<close>; a call that gets no answer does not return (\<^term>\<open>None\<close>; the contexts carry no deadline).
\<close>

record 'w adapter_stub =
  stub_StartVoting :: "start_voting_request \<Rightarrow> 'w \<Rightarrow> (grpc_status \<times> 'w) option"
  stub_Vote :: "vote_request \<Rightarrow> 'w \<Rightarrow> (grpc_status \<times> 'w) option"
  stub_GetVotingDecision ::
    "get_decision_request \<Rightarrow> 'w \<Rightarrow> (grpc_status \<times> get_decision_response \<times> 'w) option"
  stub_GetHeartBeat :: "'w \<Rightarrow> (grpc_status \<times> bool \<times> 'w) option"

definition bc_StartVoting ::
  "'w adapter_stub \<Rightarrow> string \<Rightarrow> int \<Rightarrow> int \<Rightarrow> 'w \<Rightarrow> (absl_status \<times> 'w) option" where
  "bc_StartVoting stub transaction_id timeout_time n_participants w =
     (let absl_time = FromUnixSeconds timeout_time;
          ts = ToTimespec absl_time;
          request = \<lparr>sv_transaction_id = transaction_id, sv_timeout_time = ts,
                     sv_cohorts = of_int n_participants\<rparr>
      in do {
        (status, w) \<leftarrow> stub_StartVoting stub request w;
        Some (FromGrpcStatus status ''Failed to start voting'', w)
      })"

definition bc_Vote ::
  "'w adapter_stub \<Rightarrow> string \<Rightarrow> int \<Rightarrow> ballot \<Rightarrow> 'w \<Rightarrow> (absl_status \<times> 'w) option" where
  "bc_Vote stub transaction_id participant_id ballot w =
     (let request = \<lparr>vr_transaction_id = transaction_id, vr_cohort_id = participant_id,
                     vr_ballot = ballot\<rparr>
      in do {
        (status, w) \<leftarrow> stub_Vote stub request w;
        Some (FromGrpcStatus status ''Failed to vote'', w)
      })"

definition bc_GetVotingDecision ::
  "'w adapter_stub \<Rightarrow> string \<Rightarrow> 'w \<Rightarrow> ((absl_status + voting_decision) \<times> 'w) option" where
  "bc_GetVotingDecision stub transaction_id w =
     do {
       (status, response, w) \<leftarrow> stub_GetVotingDecision stub \<lparr>dr_transaction_id = transaction_id\<rparr> w;
       Some (if \<not> grpc_ok status then Inl (FromGrpcStatus status ''Failed to vote'')
             else Inr (dr_decision response), w)
     }"

definition bc_GetHeartBeat :: "'w adapter_stub \<Rightarrow> 'w \<Rightarrow> (absl_status \<times> 'w) option" where
  "bc_GetHeartBeat stub w =
     do {
       (status, response, w) \<leftarrow> stub_GetHeartBeat stub w;
       Some (FromGrpcStatus status ''Failed to get heartbeat'', w)
     }"

text \<open>
  The constructor's loop: ask for a heartbeat once a second until one succeeds. It returns the
  number of failures and how often it logged (every tenth failure).
\<close>

partial_function (option) wait_for_adapter ::
  "'w adapter_stub \<Rightarrow> ('w \<Rightarrow> 'w) \<Rightarrow> nat \<Rightarrow> nat \<Rightarrow> 'w \<Rightarrow> (nat \<times> nat \<times> 'w) option" where
  "wait_for_adapter stub sleep_one_second failure_count logged w =
     do {
       (status, w) \<leftarrow> bc_GetHeartBeat stub w;
       (if absl_ok status then Some (failure_count, logged, w)
        else wait_for_adapter stub sleep_one_second (failure_count + 1)
               (if (failure_count + 1) mod 10 = 0 then logged + 1 else logged)
               (sleep_one_second w))
     }"

subsection \<open>The adapter server behind a gRPC channel that delivers\<close>

text \<open>
  The world is the chain itself: a call runs the handler of the adapter server and answers with
  its response and an OK status, or never.
\<close>

definition answer :: "chain \<times> 'r option \<Rightarrow> (grpc_status \<times> 'r \<times> chain) option" where
  "answer h = (case h of (ch, None) \<Rightarrow> None | (ch, Some r) \<Rightarrow> Some (grpc_OK, r, ch))"

definition js_stub :: "chain adapter_stub" where
  "js_stub = \<lparr>
     stub_StartVoting = (\<lambda>req ch. map_option (\<lambda>(st, _, ch). (st, ch)) (answer (js_startVoting req ch))),
     stub_Vote = (\<lambda>req ch. map_option (\<lambda>(st, _, ch). (st, ch)) (answer (js_vote req ch))),
     stub_GetVotingDecision = (\<lambda>req ch. answer (js_getVotingDecision req ch)),
     stub_GetHeartBeat = (\<lambda>ch. answer (js_getHeartBeat ch))\<rparr>"

lemma FromGrpcStatus_OK [simp]: "FromGrpcStatus grpc_OK p = OkStatus"
  by (simp add: FromGrpcStatus_def grpc_OK_def mk_absl_status_def OkStatus_def)

lemma bc_Vote_js:
  "bc_Vote js_stub tid i b ch =
     map_option (\<lambda>ch. (OkStatus, ch)) (client_vote ch tid i (ballot_int b))"
  by (simp add: bc_Vote_def js_stub_def js_vote_def answer_def Let_def split: option.splits)

lemma bc_StartVoting_js:
  "bc_StartVoting js_stub tid timeout n ch =
     map_option (\<lambda>ch. (OkStatus, ch)) (client_startVoting ch tid (of_int n) timeout)"
  by (simp add: bc_StartVoting_def js_stub_def js_startVoting_def answer_def Let_def
      split: option.splits)

lemma bc_GetVotingDecision_js:
  "bc_GetVotingDecision js_stub tid ch =
     map_option (\<lambda>opt. (Inr (proto_decision opt), ch)) (decision_option (deployed ch) (block_now ch) tid)"
  by (simp add: bc_GetVotingDecision_def js_stub_def js_getVotingDecision_eq answer_def
      decision_option_def split: option.splits)

lemma bc_GetHeartBeat_js: "bc_GetHeartBeat js_stub ch = Some (OkStatus, ch)"
  by (simp add: bc_GetHeartBeat_def js_stub_def js_getHeartBeat_def answer_def)

subsection \<open>Waiting for the adapter server\<close>

definition heartbeat_attempt ::
  "'w adapter_stub \<Rightarrow> ('w \<Rightarrow> 'w) \<Rightarrow> nat \<times> nat \<times> 'w \<Rightarrow> ((nat \<times> nat \<times> 'w) + nat \<times> nat \<times> 'w) option" where
  "heartbeat_attempt stub sleep = (\<lambda>(n, logged, w). map_option (\<lambda>(st, w). if absl_ok st then Inl (n, logged, w)
     else Inr (n + 1, if (n + 1) mod 10 = 0 then logged + 1 else logged, sleep w)) (bc_GetHeartBeat stub w))"

lemma heartbeat_attempt_simps [simp]:
  "heartbeat_attempt stub sleep (n, logged, w) = map_option (\<lambda>(st, w). if absl_ok st then Inl (n, logged, w)
     else Inr (n + 1, if (n + 1) mod 10 = 0 then logged + 1 else logged, sleep w)) (bc_GetHeartBeat stub w)"
  by (simp add: heartbeat_attempt_def)

interpretation heartbeat: retry_loop "\<lambda>(n, logged, w). wait_for_adapter stub sleep n logged w" "heartbeat_attempt stub sleep"
  for stub :: "'w adapter_stub" and sleep
proof
  fix x :: "nat \<times> nat \<times> 'w" and r and P :: "nat \<times> nat \<times> 'w \<Rightarrow> nat \<times> nat \<times> 'w \<Rightarrow> bool"
  show "(case x of (n, logged, w) \<Rightarrow> wait_for_adapter stub sleep n logged w) =
      (case heartbeat_attempt stub sleep x of None \<Rightarrow> None | Some (Inl r) \<Rightarrow> Some r
       | Some (Inr x') \<Rightarrow> (case x' of (n, logged, w) \<Rightarrow> wait_for_adapter stub sleep n logged w))"
    by (cases x) (subst (1) wait_for_adapter.simps, auto split: option.split)
  assume ret: "(case x of (n, logged, w) \<Rightarrow> wait_for_adapter stub sleep n logged w) = Some r"
    and good: "\<And>x r. heartbeat_attempt stub sleep x = Some (Inl r) \<Longrightarrow> P x r"
    and retry: "\<And>x x' r. heartbeat_attempt stub sleep x = Some (Inr x') \<Longrightarrow> P x' r \<Longrightarrow> P x r"
  have run: "stub' = stub \<longrightarrow> sleep' = sleep \<longrightarrow> P (n, logged, w) r"
    if "wait_for_adapter stub' sleep' n logged w = Some r" for stub' sleep' n logged w r
  proof (rule wait_for_adapter.raw_induct [OF _ that], intro impI)
    fix f stub' sleep' n logged w r
    assume IH: "\<And>stub' sleep' n logged w r. f stub' sleep' n logged w = Some r \<Longrightarrow>
        stub' = stub \<longrightarrow> sleep' = sleep \<longrightarrow> P (n, logged, w) r"
      and body: "bc_GetHeartBeat stub' w \<bind> (\<lambda>(status, w). if absl_ok status then Some (n, logged, w)
        else f stub' sleep' (n + 1) (if (n + 1) mod 10 = 0 then logged + 1 else logged) (sleep' w)) = Some r"
      and eqs: "stub' = stub" "sleep' = sleep"
    from body obtain st w1 where hb: "bc_GetHeartBeat stub w = Some (st, w1)"
      and rest: "(if absl_ok st then Some (n, logged, w1)
        else f stub sleep (n + 1) (if (n + 1) mod 10 = 0 then logged + 1 else logged) (sleep w1)) = Some r"
      unfolding eqs by (auto elim!: bind_elims)
    show "P (n, logged, w) r"
    proof (cases "absl_ok st")
      case True
      with rest hb show ?thesis by (intro good) simp
    next
      case False
      show ?thesis
        by (rule retry [where x' = "(n + 1, if (n + 1) mod 10 = 0 then logged + 1 else logged, sleep w1)"])
           (use False rest hb IH in simp_all)
    qed
  qed
  obtain n logged w where x: "x = (n, logged, w)" by (metis prod_cases3)
  show "P x r" unfolding x by (rule run [rule_format], rule ret [unfolded x prod.case]) simp_all
qed

text \<open>
  \<open>heartbeat_after k\<close>: the first \<open>k\<close> answers of the adapter fail and the next one succeeds.
\<close>

fun heartbeat_after :: "'w adapter_stub \<Rightarrow> ('w \<Rightarrow> 'w) \<Rightarrow> nat \<Rightarrow> 'w \<Rightarrow> 'w option" where
  "heartbeat_after stub sleep 0 w =
     (case bc_GetHeartBeat stub w of
        Some (st, w') \<Rightarrow> if absl_ok st then Some w' else None | None \<Rightarrow> None)"
| "heartbeat_after stub sleep (Suc k) w =
     (case bc_GetHeartBeat stub w of
        Some (st, w') \<Rightarrow> if absl_ok st then None else heartbeat_after stub sleep k (sleep w')
      | None \<Rightarrow> None)"

lemma heartbeat_after_succeeds:
  "map_option (\<lambda>(m, _, w'). (m, w')) (retry_loop.succeeds_after (heartbeat_attempt stub sleep) k (n, logged, w)) =
   map_option (\<lambda>w'. (n + k, w')) (heartbeat_after stub sleep k w)"
  by (induction k arbitrary: n logged w) (auto simp: heartbeat.succeeds_after.simps split: option.split)

text \<open>The constructor returns, after exactly \<open>k\<close> failures, if and only if the answer after \<open>k\<close> failures succeeds.\<close>

lemma wait_for_adapter_returns_iff:
  "(\<exists>logged'. wait_for_adapter stub sleep n logged w = Some (m, logged', w')) \<longleftrightarrow>
   (\<exists>k. m = n + k \<and> heartbeat_after stub sleep k w = Some w')"
proof -
  have "(\<exists>logged'. wait_for_adapter stub sleep n logged w = Some (m, logged', w')) \<longleftrightarrow>
      (\<exists>k logged'. retry_loop.succeeds_after (heartbeat_attempt stub sleep) k (n, logged, w) = Some (m, logged', w'))"
    using heartbeat.returns_after_iff [of stub sleep "(n, logged, w)"] by auto
  also have "\<dots> \<longleftrightarrow> (\<exists>k. map_option (\<lambda>(m, _, w'). (m, w'))
      (retry_loop.succeeds_after (heartbeat_attempt stub sleep) k (n, logged, w)) = Some (m, w'))"
    by auto
  also have "\<dots> \<longleftrightarrow> (\<exists>k. m = n + k \<and> heartbeat_after stub sleep k w = Some w')"
    unfolding heartbeat_after_succeeds by auto
  finally show ?thesis .
qed

end
