(* ===== verification/Chain_Runs.thy ===== *)
theory Chain_Runs
  imports Blockchain_Client
begin

text \<open>
  The chain as its users see it: the calls of the C++ client that go through the adapter server to the
  contract, and the time of the blocks, as a step relation. The contract is shown to implement a
  voting board with one ballot per cohort, and a decision, once definite, is stable as long as
  nobody opens the vote again and no cohort changes its ballot.
\<close>

subsection \<open>The voting board\<close>

text \<open>
  What the contract promises for one transaction: the number of voters, the deadline and a ballot
  per voter. No encoding, no words.
\<close>

record board =
  voters :: nat
  deadline :: nat
  ballot_of :: "nat \<Rightarrow> sol_ballot"

definition board_of :: "contract \<Rightarrow> string \<Rightarrow> board" where
  "board_of c tid = \<lparr>voters = num_cohorts c tid, deadline = unat (vote_timeout_time (transaction_configs c tid)),
     ballot_of = (\<lambda>i. if i < num_cohorts c tid then ballot_at c tid i else UNKNOWN)\<rparr>"

definition open_board :: "nat \<Rightarrow> nat \<Rightarrow> board" where
  "open_board n t = \<lparr>voters = n, deadline = t, ballot_of = (\<lambda>_. UNKNOWN)\<rparr>"

definition cast_ballot :: "nat \<Rightarrow> nat \<Rightarrow> sol_ballot \<Rightarrow> board \<Rightarrow> board option" where
  "cast_ballot now i b bd =
     (if now < deadline bd \<and> i < voters bd \<and> b \<noteq> UNKNOWN
      then Some (bd\<lparr>ballot_of := (ballot_of bd)(i := b)\<rparr>) else None)"

definition board_decision :: "nat \<Rightarrow> board \<Rightarrow> voting_decision" where
  "board_decision now bd =
     (if \<exists>i < voters bd. ballot_of bd i = ABORT then VOTING_DECISION_ABORT
      else if \<forall>i < voters bd. ballot_of bd i = COMMIT then VOTING_DECISION_COMMIT
      else if deadline bd \<le> now then VOTING_DECISION_ABORT
      else VOTING_DECISION_PENDING)"

definition contract_time :: "contract \<Rightarrow> uint256 \<Rightarrow> nat" where
  "contract_time c now = unat (getNow c now)"

lemma board_simps [simp]:
  "voters (board_of c tid) = num_cohorts c tid"
  "deadline (board_of c tid) = unat (vote_timeout_time (transaction_configs c tid))"
  "i < num_cohorts c tid \<Longrightarrow> ballot_of (board_of c tid) i = ballot_at c tid i"
  "voters (open_board n t) = n" "deadline (open_board n t) = t" "ballot_of (open_board n t) i = UNKNOWN"
  by (simp_all add: board_of_def open_board_def)

lemma num_cohorts_le: "contract_inv c \<Longrightarrow> num_cohorts c tid \<le> 120"
  by (simp add: num_cohorts_def contract_invD)

text \<open>The decision of the contract, as the adapter reports it, is the decision of the board.\<close>

lemma decision_board:
  assumes "contract_inv c" and "0 < num_cohorts c tid"
  shows "map_option proto_decision (decision_option c now tid) =
    Some (board_decision (contract_time c now) (board_of c tid))"
proof -
  have *: "some_abort c tid \<longleftrightarrow> (\<exists>i < voters (board_of c tid). ballot_of (board_of c tid) i = ABORT)"
    "all_commit c tid \<longleftrightarrow> (\<forall>i < voters (board_of c tid). ballot_of (board_of c tid) i = COMMIT)"
    "timed_out c now tid \<longleftrightarrow> deadline (board_of c tid) \<le> contract_time c now"
    by (auto simp: some_abort_def all_commit_def timed_out_def contract_time_def word_le_nat_alt)
  show ?thesis
    unfolding decision_option_def decide_cases [OF assms] board_decision_def * [symmetric] by simp
qed

lemma startVoting_board:
  assumes "sol_startVoting c now tid n timeout = Some c'"
  shows "board_of c' tid = open_board (unat n) (unat timeout)"
    and "tid' \<noteq> tid \<Longrightarrow> board_of c' tid' = board_of c tid'"
proof -
  have n: "unat n \<le> 120" using assms startVoting_accepts [of c now tid n timeout] by auto
  show "board_of c' tid = open_board (unat n) (unat timeout)"
    using startVoting_effect [OF assms] n by (auto simp: board_of_def open_board_def fun_eq_iff)
  show "tid' \<noteq> tid \<Longrightarrow> board_of c' tid' = board_of c tid'"
    using startVoting_effect(4) [OF assms, of tid'] by (simp add: board_of_def num_cohorts_def ballot_at_def fun_eq_iff)
qed

lemma vote_board:
  assumes "contract_inv c"
  shows "map_option (\<lambda>c'. board_of c' tid) (sol_vote c now tid i b) =
    cast_ballot (contract_time c now) (unat i) b (board_of c tid)"
proof (cases "sol_vote c now tid i b")
  case None
  with vote_accepts [of c now tid i b] show ?thesis
    by (auto simp: cast_ballot_def contract_time_def word_less_nat_alt)
next
  case (Some c')
  have acc: "contract_time c now < deadline (board_of c tid)" "unat i < num_cohorts c tid" "b \<noteq> UNKNOWN"
    using Some vote_accepts [of c now tid i b] by (auto simp: contract_time_def word_less_nat_alt)
  have "ballot_at c' tid j = (if j = unat i then b else ballot_at c tid j)" if "j < num_cohorts c tid" for j
    using vote_ballots [OF assms Some] num_cohorts_le [OF assms, of tid] that by simp
  then have "board_of c' tid = (board_of c tid)\<lparr>ballot_of := (ballot_of (board_of c tid))(unat i := b)\<rparr>"
    using acc(2) vote_frame(1) [OF Some] vote_num_cohorts [OF Some]
    by (auto simp: board_of_def fun_eq_iff num_cohorts_def)
  with Some acc show ?thesis by (simp add: cast_ballot_def)
qed

lemma vote_other_board:
  assumes "sol_vote c now tid i b = Some c'" and "tid' \<noteq> tid"
  shows "board_of c' tid' = board_of c tid'"
  using vote_frame [OF assms(1)] assms(2) by (simp add: board_of_def num_cohorts_def ballot_at_def fun_eq_iff)

subsection \<open>How a board may change\<close>

text \<open>
  From one moment to a later one: the voters and the deadline stay, a ballot is cast before the
  deadline only, and a ballot that was cast stays.
\<close>

definition evolves :: "nat \<Rightarrow> board \<Rightarrow> nat \<Rightarrow> board \<Rightarrow> bool" where
  "evolves now bd now' bd' \<longleftrightarrow> now \<le> now' \<and> voters bd' = voters bd \<and> deadline bd' = deadline bd \<and>
     (\<forall>i < voters bd. ballot_of bd' i \<noteq> ballot_of bd i \<longrightarrow> ballot_of bd i = UNKNOWN \<and> now < deadline bd)"

lemma evolves_refl [simp]: "evolves now bd now bd"
  by (simp add: evolves_def)

lemma evolves_time: "now \<le> now' \<Longrightarrow> evolves now bd now' bd"
  by (simp add: evolves_def)

lemma evolves_trans:
  assumes "evolves now bd now' bd'" and "evolves now' bd' now'' bd''"
  shows "evolves now bd now'' bd''"
proof -
  have "ballot_of bd i = UNKNOWN \<and> now < deadline bd"
    if "i < voters bd" "ballot_of bd'' i \<noteq> ballot_of bd i" for i
    using assms that unfolding evolves_def by (metis le_less_trans)
  with assms show ?thesis by (auto simp: evolves_def)
qed

lemma evolves_cast:
  assumes "cast_ballot now i b bd = Some bd'" and "ballot_of bd i = UNKNOWN \<or> ballot_of bd i = b"
  shows "evolves now bd now bd'"
  using assms by (auto simp: cast_ballot_def evolves_def split: if_splits)

lemma evolves_decision:
  assumes "evolves now bd now' bd'" and "definite (board_decision now bd)"
  shows "board_decision now' bd' = board_decision now bd"
proof -
  from assms(1) have e: "now \<le> now'" "voters bd' = voters bd" "deadline bd' = deadline bd"
    "\<And>i. i < voters bd \<Longrightarrow> ballot_of bd i \<noteq> UNKNOWN \<Longrightarrow> ballot_of bd' i = ballot_of bd i"
    "\<And>i. i < voters bd \<Longrightarrow> deadline bd \<le> now \<Longrightarrow> ballot_of bd' i = ballot_of bd i"
    by (auto simp: evolves_def)
  consider (aborted) "\<exists>i < voters bd. ballot_of bd i = ABORT"
    | (unanimous) "\<forall>i < voters bd. ballot_of bd i = COMMIT"
    | (late) "deadline bd \<le> now"
    using assms(2) by (auto simp: board_decision_def split: if_splits)
  then show ?thesis
  proof cases
    case aborted
    then obtain i where "i < voters bd" "ballot_of bd i = ABORT" by blast
    moreover from this have "ballot_of bd' i = ABORT" using e(4) by simp
    ultimately show ?thesis using e(2) by (auto simp: board_decision_def)
  next
    case unanimous
    then have "ballot_of bd' i = COMMIT" if "i < voters bd" for i using e(4) that by simp
    with unanimous e(2) show ?thesis by (auto simp: board_decision_def)
  next
    case late
    then have "\<forall>i < voters bd. ballot_of bd' i = ballot_of bd i" using e(5) by simp
    with late e(1-3) show ?thesis by (auto simp: board_decision_def)
  qed
qed

lemma decision_after_deadline: "deadline bd \<le> now \<Longrightarrow> definite (board_decision now bd)"
  by (simp add: board_decision_def)

subsection \<open>The calls that change the chain\<close>

text \<open>
  What may happen to the chain: the two calls of the C++ client that write, and a new block. A call
  that is refused never returns and leaves the chain as it is.
\<close>

datatype chain_op = StartVotingOp string int int | VoteOp string int ballot | BlockOp uint256

fun chain_exec :: "chain_op \<Rightarrow> chain \<Rightarrow> chain" where
  "chain_exec (StartVotingOp tid timeout n) ch =
     (case bc_StartVoting js_stub tid timeout n ch of None \<Rightarrow> ch | Some (st, ch') \<Rightarrow> ch')"
| "chain_exec (VoteOp tid i b) ch =
     (case bc_Vote js_stub tid i b ch of None \<Rightarrow> ch | Some (st, ch') \<Rightarrow> ch')"
| "chain_exec (BlockOp t) ch = ch\<lparr>block_now := max (block_now ch) t\<rparr>"

definition chain_run :: "chain_op list \<Rightarrow> chain \<Rightarrow> chain" where
  "chain_run ops ch = fold chain_exec ops ch"

text \<open>The contract as deployed, before the first call.\<close>

definition genesis :: "uint256 \<Rightarrow> chain" where
  "genesis t = \<lparr>deployed = new_contract, block_now = t\<rparr>"

text \<open>The abstract machine: a board per transaction and a clock.\<close>

record boards =
  board_for :: "string \<Rightarrow> board"
  clock :: nat

fun cast_of :: "ballot \<Rightarrow> sol_ballot" where
  "cast_of BALLOT_COMMIT = COMMIT" | "cast_of BALLOT_ABORT = ABORT" | "cast_of BALLOT_UNSPECIFIED = UNKNOWN"

fun boards_exec :: "chain_op \<Rightarrow> boards \<Rightarrow> boards" where
  "boards_exec (StartVotingOp tid timeout n) B =
     (let m = nat (take_bit 32 n) in
      if 0 < m \<and> m \<le> 120 \<and> timeout < 2 ^ 256 \<and> int (clock B) < timeout
      then B\<lparr>board_for := (board_for B)(tid := open_board m (nat timeout))\<rparr> else B)"
| "boards_exec (VoteOp tid i b) B =
     (case (if 0 \<le> i then cast_ballot (clock B) (nat i) (cast_of b) (board_for B tid) else None) of
        None \<Rightarrow> B
      | Some bd \<Rightarrow> B\<lparr>board_for := (board_for B)(tid := bd)\<rparr>)"
| "boards_exec (BlockOp t) B = B\<lparr>clock := max (clock B) (unat t)\<rparr>"

definition boards_of :: "chain \<Rightarrow> boards" where
  "boards_of ch = \<lparr>board_for = board_of (deployed ch), clock = unat (block_now ch)\<rparr>"

text \<open>The states that the calls keep: a well-formed contract and no mocked time.\<close>

definition chain_ok :: "chain \<Rightarrow> bool" where
  "chain_ok ch \<longleftrightarrow> contract_inv (deployed ch) \<and> mock_now (deployed ch) = 0"

lemma chain_ok_genesis [simp]: "chain_ok (genesis t)"
  by (simp add: chain_ok_def genesis_def) (simp add: new_contract_def)

lemma contract_time_ok: "chain_ok ch \<Longrightarrow> contract_time (deployed ch) now = unat now"
  by (simp add: chain_ok_def contract_time_def getNow_def)

lemma ballot_of_uint_int [simp]: "ballot_of_uint (ballot_int b) = cast_of b"
  by (cases b) simp_all

declare ballot_int.simps [simp del] ballot_of_uint.simps [simp del]

lemma unat_of_int: "encodes_uint n i \<Longrightarrow> n = LENGTH('a) \<Longrightarrow> unat (of_int i :: 'a::len word) = nat i"
  by (simp add: encodes_uint_def unsigned_of_int take_bit_int_eq_self)

lemma boards_of_update:
  assumes "\<And>tid'. tid' \<noteq> tid \<Longrightarrow> board_of c' tid' = board_of (deployed ch) tid'"
  shows "boards_of (ch\<lparr>deployed := c'\<rparr>) =
    (boards_of ch)\<lparr>board_for := (board_for (boards_of ch))(tid := board_of c' tid)\<rparr>"
  using assms by (auto simp: boards_of_def fun_eq_iff)

lemma chain_exec_start:
  assumes ok: "chain_ok ch"
  shows "boards_of (chain_exec (StartVotingOp tid timeout n) ch) = boards_exec (StartVotingOp tid timeout n) (boards_of ch)
    \<and> chain_ok (chain_exec (StartVotingOp tid timeout n) ch)"
proof (cases "client_startVoting ch tid (of_int n) timeout")
  case None
  have "\<not> (0 < nat (take_bit 32 n) \<and> nat (take_bit 32 n) \<le> 120 \<and> timeout < 2 ^ 256 \<and> int (clock (boards_of ch)) < timeout)"
  proof
    assume a: "0 < nat (take_bit 32 n) \<and> nat (take_bit 32 n) \<le> 120 \<and> timeout < 2 ^ 256 \<and>
      int (clock (boards_of ch)) < timeout"
    then have enc: "encodes_uint 256 timeout" by (auto simp: encodes_uint_def)
    then have "unat (of_int timeout :: uint256) = nat timeout" by (rule unat_of_int) simp
    moreover have "unat (of_int n :: uint32) = nat (take_bit 32 n)" by (simp add: unsigned_of_int)
    ultimately have "sol_startVoting (deployed ch) (block_now ch) tid (of_int n) (of_int timeout) \<noteq> None"
      using a ok unfolding startVoting_accepts
      by (auto simp: boards_of_def chain_ok_def getNow_def word_less_nat_alt zless_nat_eq_int_zless)
    with None enc show False by (auto simp: client_startVoting_def)
  qed
  then show ?thesis using None ok by (auto simp: bc_StartVoting_js Let_def)
next
  case (Some ch')
  then obtain c' where c': "sol_startVoting (deployed ch) (block_now ch) tid (of_int n) (of_int timeout) = Some c'"
    and ch': "ch' = ch\<lparr>deployed := c'\<rparr>" and enc: "encodes_uint 256 timeout"
    by (auto simp: client_startVoting_def split: if_splits)
  have t: "unat (of_int timeout :: uint256) = nat timeout" using enc by (rule unat_of_int) simp
  have m: "unat (of_int n :: uint32) = nat (take_bit 32 n)" by (simp add: unsigned_of_int)
  have "0 < nat (take_bit 32 n)" "nat (take_bit 32 n) \<le> 120" "int (clock (boards_of ch)) < timeout"
    using c' startVoting_accepts [of "deployed ch" "block_now ch" tid "of_int n" "of_int timeout"] ok t m enc
    by (auto simp: chain_ok_def boards_of_def getNow_def word_less_nat_alt encodes_uint_def zless_nat_eq_int_zless)
  then have "boards_exec (StartVotingOp tid timeout n) (boards_of ch) =
      (boards_of ch)\<lparr>board_for := (board_for (boards_of ch))(tid := board_of c' tid)\<rparr>"
    using enc t m startVoting_board(1) [OF c'] by (simp add: encodes_uint_def Let_def)
  moreover have "chain_ok ch'"
    using ok c' startVoting_inv startVoting_effect(5) [OF c'] by (auto simp: chain_ok_def ch')
  ultimately show ?thesis
    using Some boards_of_update [OF startVoting_board(2) [OF c']] by (simp add: bc_StartVoting_js ch')
qed

text \<open>A vote through the C++ client: it returns exactly when the board accepts the ballot.\<close>

lemma bc_Vote_boards:
  assumes ok: "chain_ok ch"
  shows "case bc_Vote js_stub tid i b ch of
      None \<Rightarrow> 0 \<le> i \<longrightarrow> cast_ballot (clock (boards_of ch)) (nat i) (cast_of b) (board_for (boards_of ch) tid) = None
    | Some (st, ch') \<Rightarrow> 0 \<le> i \<and> st = OkStatus \<and> chain_ok ch' \<and>
        cast_ballot (clock (boards_of ch)) (nat i) (cast_of b) (board_for (boards_of ch) tid) =
          Some (board_for (boards_of ch') tid) \<and>
        boards_of ch' = (boards_of ch)\<lparr>board_for := (board_for (boards_of ch))(tid := board_for (boards_of ch') tid)\<rparr>"
proof -
  have inv: "contract_inv (deployed ch)" using ok by (simp add: chain_ok_def)
  have cast: "cast_ballot (clock (boards_of ch)) (nat i) (cast_of b) (board_of (deployed ch) tid) =
      map_option (\<lambda>c'. board_of c' tid) (sol_vote (deployed ch) (block_now ch) tid (of_int i) (cast_of b))"
    if "encodes_uint 32 i"
    using vote_board [OF inv] unat_of_int [OF that, where 'a = 32] contract_time_ok [OF ok]
    by (simp add: boards_of_def)
  consider (negative) "i < 0" | (large) "2 ^ 32 \<le> i" | (fits) "encodes_uint 32 i"
    unfolding encodes_uint_def by (meson linorder_not_le)
  then show ?thesis
  proof cases
    case negative
    then show ?thesis by (simp add: bc_Vote_js client_vote_def encodes_uint_def)
  next
    case large
    then have "\<not> nat i < num_cohorts (deployed ch) tid" using num_cohorts_le [OF inv, of tid] by simp
    then have "cast_ballot (clock (boards_of ch)) (nat i) (cast_of b) (board_of (deployed ch) tid) = None"
      by (simp add: cast_ballot_def)
    with large show ?thesis by (simp add: bc_Vote_js client_vote_def encodes_uint_def boards_of_def)
  next
    case fits
    show ?thesis
    proof (cases "sol_vote (deployed ch) (block_now ch) tid (of_int i) (cast_of b)")
      case None
      with cast [OF fits] fits show ?thesis
        by (simp add: bc_Vote_js client_vote_def encodes_uint_def boards_of_def)
    next
      case (Some c')
      have "chain_ok (ch\<lparr>deployed := c'\<rparr>)"
        using ok vote_inv [OF inv Some] vote_frame(2) [OF Some] by (simp add: chain_ok_def)
      with Some cast [OF fits] fits boards_of_update [OF vote_other_board [OF Some]] show ?thesis
        by (simp add: bc_Vote_js client_vote_def encodes_uint_def) (simp add: boards_of_def)
    qed
  qed
qed

lemma chain_exec_vote:
  assumes ok: "chain_ok ch"
  shows "boards_of (chain_exec (VoteOp tid i b) ch) = boards_exec (VoteOp tid i b) (boards_of ch)
    \<and> chain_ok (chain_exec (VoteOp tid i b) ch)"
proof (cases "bc_Vote js_stub tid i b ch")
  case None
  with bc_Vote_boards [OF ok, where tid = tid and i = i and b = b] ok show ?thesis by auto
next
  case (Some r)
  with bc_Vote_boards [OF ok, where tid = tid and i = i and b = b] show ?thesis by (cases r) simp
qed

lemma chain_exec_boards:
  assumes "chain_ok ch"
  shows "boards_of (chain_exec op ch) = boards_exec op (boards_of ch)" and "chain_ok (chain_exec op ch)"
proof -
  have "boards_of (chain_exec op ch) = boards_exec op (boards_of ch) \<and> chain_ok (chain_exec op ch)"
  proof (cases op)
    case (BlockOp t)
    with assms show ?thesis by (simp add: boards_of_def chain_ok_def max_def word_le_nat_alt)
  qed (use chain_exec_start [OF assms] chain_exec_vote [OF assms] in simp_all)
  then show "boards_of (chain_exec op ch) = boards_exec op (boards_of ch)" and "chain_ok (chain_exec op ch)" by simp_all
qed

lemma chain_run_boards:
  assumes "chain_ok ch"
  shows "boards_of (chain_run ops ch) = fold boards_exec ops (boards_of ch)" and "chain_ok (chain_run ops ch)"
proof -
  have "boards_of (chain_run ops ch) = fold boards_exec ops (boards_of ch) \<and> chain_ok (chain_run ops ch)"
    using assms unfolding chain_run_def
    by (induction ops arbitrary: ch) (simp_all add: chain_exec_boards del: chain_exec.simps boards_exec.simps)
  then show "boards_of (chain_run ops ch) = fold boards_exec ops (boards_of ch)" and "chain_ok (chain_run ops ch)"
    by simp_all
qed

text \<open>The answer of the C++ client, in every state the calls can reach.\<close>

lemma decision_answer:
  assumes "chain_ok ch"
  shows "bc_GetVotingDecision js_stub tid ch =
    (if voters (board_for (boards_of ch) tid) = 0 then None
     else Some (Inr (board_decision (clock (boards_of ch)) (board_for (boards_of ch) tid)), ch))"
proof (cases "num_cohorts (deployed ch) tid = 0")
  case True
  then show ?thesis
    by (simp add: bc_GetVotingDecision_js decision_option_def decide_None boards_of_def)
next
  case False
  then have "map_option proto_decision (decision_option (deployed ch) (block_now ch) tid) =
      Some (board_decision (clock (boards_of ch)) (board_for (boards_of ch) tid))"
    using decision_board [of "deployed ch" tid "block_now ch"] assms contract_time_ok [OF assms]
    by (simp add: chain_ok_def boards_of_def)
  with False show ?thesis by (auto simp: bc_GetVotingDecision_js boards_of_def)
qed

subsection \<open>The vote of one transaction during a run\<close>

text \<open>\<open>faithful tid f op\<close>: the operation does not open the vote, and a vote of cohort \<open>i\<close> is \<open>f i\<close>.\<close>

fun faithful :: "string \<Rightarrow> (nat \<Rightarrow> ballot) \<Rightarrow> chain_op \<Rightarrow> bool" where
  "faithful tid f (StartVotingOp tid' timeout n) = (tid' \<noteq> tid)"
| "faithful tid f (VoteOp tid' i b) = (tid' = tid \<longrightarrow> b = f (nat i))"
| "faithful tid f (BlockOp t) = True"

definition ballots_from :: "(nat \<Rightarrow> ballot) \<Rightarrow> board \<Rightarrow> bool" where
  "ballots_from f bd \<longleftrightarrow> (\<forall>i < voters bd. ballot_of bd i = UNKNOWN \<or> ballot_of bd i = cast_of (f i))"

lemma ballots_from_open [simp]: "ballots_from f (open_board n t)"
  by (simp add: ballots_from_def)

lemma boards_exec_evolves:
  assumes "faithful tid f op" and "ballots_from f (board_for B tid)"
  shows "evolves (clock B) (board_for B tid) (clock (boards_exec op B)) (board_for (boards_exec op B) tid)"
    and "ballots_from f (board_for (boards_exec op B) tid)"
proof -
  have "evolves (clock B) (board_for B tid) (clock (boards_exec op B)) (board_for (boards_exec op B) tid) \<and>
    ballots_from f (board_for (boards_exec op B) tid)"
  proof (cases op)
    case (StartVotingOp tid' timeout n)
    with assms show ?thesis by (simp add: Let_def)
  next
    case (VoteOp tid' i b)
    show ?thesis
    proof (cases "tid' = tid \<and> 0 \<le> i \<and> cast_ballot (clock B) (nat i) (cast_of b) (board_for B tid) \<noteq> None")
      case False
      with VoteOp assms(2) show ?thesis by (auto split: option.splits)
    next
      case True
      then obtain bd where bd: "cast_ballot (clock B) (nat i) (cast_of b) (board_for B tid) = Some bd" by auto
      then have i: "nat i < voters (board_for B tid)" and
        bd': "bd = (board_for B tid)\<lparr>ballot_of := (ballot_of (board_for B tid))(nat i := cast_of b)\<rparr>"
        by (auto simp: cast_ballot_def split: if_splits)
      have f: "b = f (nat i)" using assms(1) VoteOp True by simp
      have "evolves (clock B) (board_for B tid) (clock B) bd"
        using assms(2) i f by (intro evolves_cast [OF bd]) (auto simp: ballots_from_def)
      moreover have "ballots_from f bd" using assms(2) f by (auto simp: ballots_from_def bd')
      ultimately show ?thesis using VoteOp True bd by simp
    qed
  qed (use assms(2) in \<open>simp add: evolves_time\<close>)
  then show "evolves (clock B) (board_for B tid) (clock (boards_exec op B)) (board_for (boards_exec op B) tid)"
    and "ballots_from f (board_for (boards_exec op B) tid)" by simp_all
qed

lemma boards_run_evolves:
  assumes "list_all (faithful tid f) ops" and "ballots_from f (board_for B tid)"
  shows "evolves (clock B) (board_for B tid) (clock (fold boards_exec ops B)) (board_for (fold boards_exec ops B) tid)"
  using assms
proof (induction ops arbitrary: B)
  case Nil
  then show ?case by simp
next
  case (Cons op ops)
  from Cons.prems have "faithful tid f op" "list_all (faithful tid f) ops" by simp_all
  note step = boards_exec_evolves [OF this(1) Cons.prems(2)] and rest = this(2)
  have "evolves (clock (boards_exec op B)) (board_for (boards_exec op B) tid)
      (clock (fold boards_exec ops (boards_exec op B))) (board_for (fold boards_exec ops (boards_exec op B)) tid)"
    by (rule Cons.IH [OF rest step(2)])
  from evolves_trans [OF step(1) this] show ?case by simp
qed

text \<open>After the deadline no vote is accepted, so only opening the vote again could change the board.\<close>

fun opens :: "string \<Rightarrow> chain_op \<Rightarrow> bool" where
  "opens tid (StartVotingOp tid' timeout n) = (tid' = tid)"
| "opens tid op = False"

lemma boards_run_closed:
  assumes "deadline (board_for B tid) \<le> clock B" and "list_all (\<lambda>op. \<not> opens tid op) ops"
  shows "board_for (fold boards_exec ops B) tid = board_for B tid \<and> clock B \<le> clock (fold boards_exec ops B)"
  using assms
proof (induction ops arbitrary: B)
  case Nil
  then show ?case by simp
next
  case (Cons op ops)
  have "board_for (boards_exec op B) tid = board_for B tid \<and> clock B \<le> clock (boards_exec op B)"
    using Cons.prems by (cases op) (auto simp: Let_def cast_ballot_def split: option.splits)
  with Cons.IH [of "boards_exec op B"] Cons.prems show ?case by (auto simp del: boards_exec.simps)
qed

text \<open>The voting service of one transaction, as its clients rely on it.\<close>

locale voting_service =
  fixes ask :: "'s \<Rightarrow> (voting_decision \<times> 's) option"
    and cast :: "nat \<Rightarrow> ballot \<Rightarrow> 's \<Rightarrow> 's option"
    and board :: "'s \<Rightarrow> board" and now :: "'s \<Rightarrow> nat" and ok :: "'s \<Rightarrow> bool"
  assumes ask_answers: "ok s \<Longrightarrow> 0 < voters (board s) \<Longrightarrow> ask s = Some (board_decision (now s) (board s), s)"
    and ask_unopened: "ok s \<Longrightarrow> voters (board s) = 0 \<Longrightarrow> ask s = None"
    and cast_refused: "ok s \<Longrightarrow> cast i b s = None \<longleftrightarrow> cast_ballot (now s) i (cast_of b) (board s) = None"
    and cast_accepted: "ok s \<Longrightarrow> cast i b s = Some s' \<Longrightarrow>
      cast_ballot (now s) i (cast_of b) (board s) = Some (board s') \<and> now s' = now s \<and> ok s'"
begin

lemma cast_evolves:
  assumes "ok s" and "cast i b s = Some s'" and "ballot_of (board s) i = UNKNOWN \<or> ballot_of (board s) i = cast_of b"
  shows "evolves (now s) (board s) (now s') (board s')"
  using cast_accepted [OF assms(1,2)] evolves_cast [OF _ assms(3)] by simp

lemma late_cast: "ok s \<Longrightarrow> deadline (board s) \<le> now s \<Longrightarrow> cast i b s = None"
  by (simp add: cast_refused cast_ballot_def)

lemma late_answer:
  assumes "ok s" and "0 < voters (board s)" and "deadline (board s) \<le> now s"
  shows "\<exists>d. ask s = Some (d, s) \<and> definite d"
  using ask_answers [OF assms(1,2)] decision_after_deadline [OF assms(3)] by auto

lemma answer_stays:
  assumes "ok s" "ok s'" and "ask s = Some (d, s)" and "definite d"
    and "evolves (now s) (board s) (now s') (board s')"
  shows "ask s' = Some (d, s')"
proof -
  have v: "0 < voters (board s)" using assms(1,3) ask_unopened by (cases "voters (board s)") auto
  then have "0 < voters (board s')" using assms(5) by (simp add: evolves_def)
  then show ?thesis
    using ask_answers [OF assms(1) v] ask_answers [OF assms(2)] evolves_decision [OF assms(5)] assms(3,4) by auto
qed

end

text \<open>The C++ client on the chain provides it.\<close>

definition ask_chain :: "string \<Rightarrow> chain \<Rightarrow> (voting_decision \<times> chain) option" where
  "ask_chain tid ch =
     (case bc_GetVotingDecision js_stub tid ch of
        None \<Rightarrow> None | Some (r, ch') \<Rightarrow> (case r of Inl st \<Rightarrow> None | Inr d \<Rightarrow> Some (d, ch')))"

definition vote_chain :: "string \<Rightarrow> nat \<Rightarrow> ballot \<Rightarrow> chain \<Rightarrow> chain option" where
  "vote_chain tid i b ch = map_option snd (bc_Vote js_stub tid (int i) b ch)"

lemma vote_chain_boards:
  assumes "chain_ok ch"
  shows "vote_chain tid i b ch = None \<longleftrightarrow>
      cast_ballot (clock (boards_of ch)) i (cast_of b) (board_for (boards_of ch) tid) = None"
    and "vote_chain tid i b ch = Some ch' \<Longrightarrow>
      cast_ballot (clock (boards_of ch)) i (cast_of b) (board_for (boards_of ch) tid) =
        Some (board_for (boards_of ch') tid) \<and> clock (boards_of ch') = clock (boards_of ch) \<and> chain_ok ch'"
proof -
  note v = bc_Vote_boards [OF assms, where tid = tid and i = "int i" and b = b]
  show "vote_chain tid i b ch = None \<longleftrightarrow>
      cast_ballot (clock (boards_of ch)) i (cast_of b) (board_for (boards_of ch) tid) = None"
    using v by (cases "bc_Vote js_stub tid (int i) b ch") (auto simp: vote_chain_def)
  show "cast_ballot (clock (boards_of ch)) i (cast_of b) (board_for (boards_of ch) tid) =
      Some (board_for (boards_of ch') tid) \<and> clock (boards_of ch') = clock (boards_of ch) \<and> chain_ok ch'"
    if vc: "vote_chain tid i b ch = Some ch'"
  proof -
    obtain st where "bc_Vote js_stub tid (int i) b ch = Some (st, ch')" using vc by (auto simp: vote_chain_def)
    with v have "cast_ballot (clock (boards_of ch)) i (cast_of b) (board_for (boards_of ch) tid) =
        Some (board_for (boards_of ch') tid)" "chain_ok ch'" and
      upd: "boards_of ch' = (boards_of ch)\<lparr>board_for := (board_for (boards_of ch))(tid := board_for (boards_of ch') tid)\<rparr>"
      by simp_all
    moreover have "clock (boards_of ch') = clock (boards_of ch)" by (subst upd) simp
    ultimately show ?thesis by blast
  qed
qed

interpretation chain_vote: voting_service "ask_chain tid" "vote_chain tid"
  "\<lambda>ch. board_for (boards_of ch) tid" "\<lambda>ch. clock (boards_of ch)" chain_ok
  for tid
  by unfold_locales (simp_all add: ask_chain_def decision_answer vote_chain_boards)

end
