(* ===== verification/Db_Adapter.thy ===== *)
theory Db_Adapter
  imports Messages Status_Utils
begin

text \<open>
  The interface \<open>db::DatabaseTransactionAdapter\<close> (\<open>src/db/database_transaction_adapter.h\<close>) as a
  record of operations on an adapter object of type \<open>'d\<close> and a world of type \<open>'w\<close>, and its contract
  as a locale. \<open>Get\<close>'s output argument is written on success only: its result is
  \<open>absl_status + int64\<close>. An operation that blocks for ever or throws has the result
  \<^term>\<open>None\<close>.
\<close>

record ('d, 'w) db_adapter =
  SupportsConcurrentWrites :: "'d \<Rightarrow> bool"
  Begin :: "'d \<Rightarrow> 'w \<Rightarrow> (absl_status \<times> 'd \<times> 'w) option"
  BeginReadOnly :: "'d \<Rightarrow> 'w \<Rightarrow> (absl_status \<times> 'd \<times> 'w) option"
  Commit :: "'d \<Rightarrow> 'w \<Rightarrow> (absl_status \<times> 'd \<times> 'w) option"
  Abort :: "'d \<Rightarrow> 'w \<Rightarrow> (absl_status \<times> 'd \<times> 'w) option"
  Get :: "'d \<Rightarrow> string \<Rightarrow> 'w \<Rightarrow> ((absl_status + int64) \<times> 'd \<times> 'w) option"
  Put :: "'d \<Rightarrow> string \<Rightarrow> int64 \<Rightarrow> 'w \<Rightarrow> (absl_status \<times> 'd \<times> 'w) option"

type_synonym kv = "string \<rightharpoonup> int64"

text \<open>What a client sees of an adapter: the transaction it has open, with the data it reads.\<close>

datatype db_txn = NoTxn | ReadTxn kv | WriteTxn kv

fun txn_data :: "db_txn \<Rightarrow> kv option" where
  "txn_data NoTxn = None"
| "txn_data (ReadTxn m) = Some m"
| "txn_data (WriteTxn m) = Some m"

text \<open>
  The contract. \<open>stored\<close> is the committed data, \<open>txn_of\<close> the open transaction, \<open>good\<close> says that the
  adapter is connected and that the caller keeps its obligation (no other write transaction while
  this adapter has none of its own open), \<open>missing\<close> is the status of a \<open>Get\<close> for an absent key, and
  \<open>valid_key\<close> says which keys the database takes.
\<close>

locale db_contract =
  fixes A :: "('d, 'w) db_adapter"
    and stored :: "'w \<Rightarrow> kv"
    and txn_of :: "'d \<Rightarrow> 'w \<Rightarrow> db_txn"
    and good :: "'d \<Rightarrow> 'w \<Rightarrow> bool"
    and missing :: absl_status
    and valid_key :: "string \<Rightarrow> bool"
  assumes missing_error: "\<not> absl_ok missing"
    and begin_write: "good d w \<Longrightarrow> txn_of d w = NoTxn \<Longrightarrow> \<exists>d' w'. Begin A d w = Some (OkStatus, d', w') \<and>
      good d' w' \<and> stored w' = stored w \<and> txn_of d' w' = WriteTxn (stored w)"
    and begin_read: "good d w \<Longrightarrow> txn_of d w = NoTxn \<Longrightarrow>
      \<exists>d' w'. BeginReadOnly A d w = Some (OkStatus, d', w') \<and>
        good d' w' \<and> stored w' = stored w \<and> txn_of d' w' = ReadTxn (stored w)"
    and get_present: "good d w \<Longrightarrow> txn_data (txn_of d w) = Some m \<Longrightarrow> valid_key k \<Longrightarrow> m k = Some v \<Longrightarrow>
      Get A d k w = Some (Inr v, d, w)"
    and get_absent: "good d w \<Longrightarrow> txn_data (txn_of d w) = Some m \<Longrightarrow> valid_key k \<Longrightarrow> m k = None \<Longrightarrow>
      Get A d k w = Some (Inl missing, d, w)"
    and put_write: "good d w \<Longrightarrow> txn_of d w = WriteTxn m \<Longrightarrow> valid_key k \<Longrightarrow>
      \<exists>d' w'. Put A d k v w = Some (OkStatus, d', w') \<and>
      good d' w' \<and> stored w' = stored w \<and> txn_of d' w' = WriteTxn (m(k \<mapsto> v))"
    and commit_write: "good d w \<Longrightarrow> txn_of d w = WriteTxn m \<Longrightarrow>
      \<exists>d' w'. Commit A d w = Some (OkStatus, d', w') \<and> good d' w' \<and> stored w' = m \<and> txn_of d' w' = NoTxn"
    and commit_read: "good d w \<Longrightarrow> txn_of d w = ReadTxn m \<Longrightarrow>
      \<exists>d' w'. Commit A d w = Some (OkStatus, d', w') \<and> good d' w' \<and> stored w' = stored w \<and> txn_of d' w' = NoTxn"
    and abort_open: "good d w \<Longrightarrow> txn_of d w \<noteq> NoTxn \<Longrightarrow>
      \<exists>d' w'. Abort A d w = Some (OkStatus, d', w') \<and> good d' w' \<and> stored w' = stored w \<and> txn_of d' w' = NoTxn"
    and abort_none: "good d w \<Longrightarrow> txn_of d w = NoTxn \<Longrightarrow>
      \<exists>st. Abort A d w = Some (st, d, w) \<and> raw_code st = kFailedPrecondition"
    and commit_none: "good d w \<Longrightarrow> txn_of d w = NoTxn \<Longrightarrow>
      \<exists>st. Commit A d w = Some (st, d, w) \<and> raw_code st = kFailedPrecondition"
    and get_none: "good d w \<Longrightarrow> txn_of d w = NoTxn \<Longrightarrow>
      \<exists>st. Get A d k w = Some (Inl st, d, w) \<and> raw_code st = kFailedPrecondition"
    and put_none: "good d w \<Longrightarrow> txn_of d w = NoTxn \<Longrightarrow>
      \<exists>st. Put A d k v w = Some (st, d, w) \<and> raw_code st = kFailedPrecondition"
begin

text \<open>A write followed by a read of the same key in one transaction, and after its commit.\<close>

lemma put_then_get:
  assumes "good d w" and "txn_of d w = WriteTxn m" and "valid_key k"
  shows "\<exists>d' w'. Put A d k v w = Some (OkStatus, d', w') \<and> Get A d' k w' = Some (Inr v, d', w')"
  using put_write [OF assms, of v] get_present assms(3) by fastforce

lemma put_commit_visible:
  assumes "good d w" and "txn_of d w = WriteTxn m" and "valid_key k"
  shows "\<exists>d1 w1 d2 w2. Put A d k v w = Some (OkStatus, d1, w1) \<and>
    Commit A d1 w1 = Some (OkStatus, d2, w2) \<and> stored w2 = m(k \<mapsto> v)"
  using put_write [OF assms, of v] commit_write by metis

lemma put_abort_invisible:
  assumes "good d w" and "txn_of d w = WriteTxn m" and "valid_key k"
  shows "\<exists>d1 w1 d2 w2. Put A d k v w = Some (OkStatus, d1, w1) \<and>
    Abort A d1 w1 = Some (OkStatus, d2, w2) \<and> stored w2 = stored w"
  using put_write [OF assms, of v] abort_open by (metis db_txn.distinct(3))

end

end
