(* ===== verification/Cohort_Model.thy ===== *)
theory Cohort_Model
  imports Blockchain_Client Db_Adapter
begin

text \<open>
  \<open>cohort::CohortServer\<close> (\<open>src/cohort/cohort_server.{h,cc}\<close>), operation by operation.

  What the server calls and does not define is a record \<open>cohort_env\<close> over a world \<open>'w\<close>: the
  mutex operations of \<open>absl::Mutex\<close>, the iteration order of \<open>absl::flat_hash_set\<close>, the database
  adapter and its factory, the stub of the blockchain client, files, the clock and sleeping. A mutex
  is known by its address; \<open>whole_db_mutex_\<close> is address 0 and \<open>GetLock\<close> allocates the others. The
  world may change between two calls in any way its operations describe, so it also stands for the
  other threads. \<open>uninit_abort_reason\<close> is what an uninitialised local variable of
  type \<open>AbortReason\<close> happens to hold.
\<close>

datatype file_content = ResponseFile committed_response | RequestFile prepare_request

record ('d, 'w) cohort_env =
  ReaderLockWhenWithDeadline :: "nat \<Rightarrow> time \<Rightarrow> 'w \<Rightarrow> (bool \<times> 'w) option"
  WriterLockWhenWithDeadline :: "nat \<Rightarrow> time \<Rightarrow> 'w \<Rightarrow> (bool \<times> 'w) option"
  ReaderUnlock :: "nat \<Rightarrow> 'w \<Rightarrow> 'w"
  WriterUnlock :: "nat \<Rightarrow> 'w \<Rightarrow> 'w"
  iter_keys :: "string list \<Rightarrow> string list"
  db_ops :: "('d, 'w) db_adapter"
  db_transaction_adapter_creator :: "'w \<Rightarrow> ('d \<times> 'w) option"
  blockchain_stub :: "'w adapter_stub"
  file_write :: "string \<Rightarrow> file_content \<Rightarrow> 'w \<Rightarrow> bool \<times> 'w"
  Now :: "'w \<Rightarrow> time"
  sleep_for_us :: "int \<Rightarrow> 'w \<Rightarrow> 'w"
  sleep_until :: "time \<Rightarrow> 'w \<Rightarrow> 'w"
  uninit_abort_reason :: "'w \<Rightarrow> abort_reason"
  db_txn_response_dir :: string

record 'd txn_metadata =
  md_response :: cohort_result
  md_db :: "'d option"
  has_whole_db_read_lock :: bool
  has_whole_db_write_lock :: bool
  read_lock_keys :: "string list"
  write_lock_keys :: "string list"

text \<open>The value a map's \<open>operator[]\<close> constructs: value-initialised, so the flags are false.\<close>

definition fresh_metadata :: "'d txn_metadata" where
  "fresh_metadata = \<lparr>md_response = CohortStatusNotSet, md_db = None,
     has_whole_db_read_lock = False, has_whole_db_write_lock = False,
     read_lock_keys = [], write_lock_keys = []\<rparr>"

record 'd cohort_server =
  metadata_by_transaction_id :: "string \<rightharpoonup> 'd txn_metadata"
  final_response_by_transaction_id :: "string \<rightharpoonup> cohort_result"
  locks_by_key :: "string \<rightharpoonup> nat"
  next_mutex :: nat
  thread_pool_tasks :: "prepare_request list"

definition new_cohort_server :: "'d cohort_server" where
  "new_cohort_server = \<lparr>metadata_by_transaction_id = Map.empty,
     final_response_by_transaction_id = Map.empty, locks_by_key = Map.empty, next_mutex = 1,
     thread_pool_tasks = []\<rparr>"

abbreviation (input) whole_db_mutex :: nat where "whole_db_mutex \<equiv> 0"

definition metadata_of :: "'d cohort_server \<Rightarrow> string \<Rightarrow> 'd txn_metadata" where
  "metadata_of s tid = index_default fresh_metadata (metadata_by_transaction_id s) tid"

definition set_metadata :: "string \<Rightarrow> 'd txn_metadata \<Rightarrow> 'd cohort_server \<Rightarrow> 'd cohort_server" where
  "set_metadata tid m s =
     s\<lparr>metadata_by_transaction_id := (metadata_by_transaction_id s)(tid \<mapsto> m)\<rparr>"

subsection \<open>Locks\<close>

definition GetLock :: "string \<Rightarrow> 'd cohort_server \<Rightarrow> nat \<times> 'd cohort_server" where
  "GetLock key s =
     (case locks_by_key s key of
        Some lock \<Rightarrow> (lock, s)
      | None \<Rightarrow> (next_mutex s,
          s\<lparr>locks_by_key := (locks_by_key s)(key \<mapsto> next_mutex s), next_mutex := Suc (next_mutex s)\<rparr>))"

text \<open>The scan of the operations for a put and a get, which stops once it has seen both.\<close>

fun scan_ops :: "transaction \<Rightarrow> bool \<Rightarrow> bool \<Rightarrow> bool \<times> bool" where
  "scan_ops [] has_put_op has_get_op = (has_put_op, has_get_op)"
| "scan_ops (op # ops) has_put_op has_get_op =
     (let has_put_op = (if has_put op then True else has_put_op);
          has_get_op = (if has_get op then True else has_get_op)
      in if has_put_op \<and> has_get_op then (has_put_op, has_get_op)
         else scan_ops ops has_put_op has_get_op)"

definition DeadlineExceededError :: "string \<Rightarrow> absl_status" where
  "DeadlineExceededError msg = mk_absl_status kDeadlineExceeded msg"

definition AcquireWholeDbLock ::
  "('d, 'w) cohort_env \<Rightarrow> transaction \<Rightarrow> time \<Rightarrow> 'd txn_metadata \<Rightarrow> 'w \<Rightarrow>
   (absl_status \<times> 'd txn_metadata \<times> 'w) option" where
  "AcquireWholeDbLock E transaction presumed_abort_time m w =
     (let (has_put_op, has_get_op) = scan_ops transaction False False in
      if has_put_op then do {
        (got, w) \<leftarrow> WriterLockWhenWithDeadline E whole_db_mutex presumed_abort_time w;
        (if \<not> got
         then Some (DeadlineExceededError
           ''Could not acquire write lock for the DB before the abort deadline'', m, w)
         else Some (OkStatus, m\<lparr>has_whole_db_write_lock := True\<rparr>, w))
      }
      else if has_get_op then do {
        (got, w) \<leftarrow> ReaderLockWhenWithDeadline E whole_db_mutex presumed_abort_time w;
        (if \<not> got
         then Some (DeadlineExceededError
           ''Could not acquire read lock for the DB before the abort deadline'', m, w)
         else Some (OkStatus, m\<lparr>has_whole_db_read_lock := True\<rparr>, w))
      }
      else Some (OkStatus, m, w))"

text \<open>
  The loop that sorts the keys of a transaction into those to lock for writing and those only read.
\<close>

fun split_keys :: "transaction \<Rightarrow> string list \<Rightarrow> string list \<Rightarrow> string list \<times> string list" where
  "split_keys [] write_and_readwrite_keys readonly_keys = (write_and_readwrite_keys, readonly_keys)"
| "split_keys (op # ops) write_and_readwrite_keys readonly_keys =
     (let (wk, rk) =
        (if has_put op
         then (hs_emplace (put_key (the_put op)) write_and_readwrite_keys,
               hs_erase (put_key (the_put op)) readonly_keys)
         else (write_and_readwrite_keys, readonly_keys));
          rk = (if has_get op \<and> \<not> hs_contains wk (get_key (the_get op))
                then hs_emplace (get_key (the_get op)) rk else rk)
      in split_keys ops wk rk)"

fun lock_for_read ::
  "('d, 'w) cohort_env \<Rightarrow> time \<Rightarrow> string list \<Rightarrow> 'd txn_metadata \<times> 'd cohort_server \<times> 'w \<Rightarrow>
   (absl_status \<times> 'd txn_metadata \<times> 'd cohort_server \<times> 'w) option" where
  "lock_for_read E deadline [] (m, s, w) = Some (OkStatus, m, s, w)"
| "lock_for_read E deadline (read_key # keys) (m, s, w) =
     (let (mutex, s) = GetLock read_key s in do {
        (got, w) \<leftarrow> ReaderLockWhenWithDeadline E mutex deadline w;
        (if \<not> got
         then Some (DeadlineExceededError (StrCat (StrCat ''Could not acquire read lock for '' read_key)
           '' before the abort deadline''), m, s, w)
         else lock_for_read E deadline keys
           (m\<lparr>read_lock_keys := read_lock_keys m @ [read_key]\<rparr>, s, w))
      })"

fun lock_for_write ::
  "('d, 'w) cohort_env \<Rightarrow> time \<Rightarrow> string list \<Rightarrow> 'd txn_metadata \<times> 'd cohort_server \<times> 'w \<Rightarrow>
   (absl_status \<times> 'd txn_metadata \<times> 'd cohort_server \<times> 'w) option" where
  "lock_for_write E deadline [] (m, s, w) = Some (OkStatus, m, s, w)"
| "lock_for_write E deadline (write_key # keys) (m, s, w) =
     (let (mutex, s) = GetLock write_key s in do {
        (got, w) \<leftarrow> WriterLockWhenWithDeadline E mutex deadline w;
        (if \<not> got
         then Some (DeadlineExceededError (StrCat (StrCat ''Could not acquire write lock for '' write_key)
           '' before the abort deadline''), m, s, w)
         else lock_for_write E deadline keys
           (m\<lparr>write_lock_keys := write_lock_keys m @ [write_key]\<rparr>, s, w))
      })"

definition AcquireDbLocks ::
  "('d, 'w) cohort_env \<Rightarrow> transaction \<Rightarrow> time \<Rightarrow> 'd txn_metadata \<Rightarrow> 'd cohort_server \<Rightarrow> 'w \<Rightarrow>
   (absl_status \<times> 'd txn_metadata \<times> 'd cohort_server \<times> 'w) option" where
  "AcquireDbLocks E transaction presumed_abort_time m s w =
     do {
       d \<leftarrow> md_db m;
       (if \<not> SupportsConcurrentWrites (db_ops E) d
        then do {
          (st, m, w) \<leftarrow> AcquireWholeDbLock E transaction presumed_abort_time m w;
          Some (st, m, s, w)
        }
        else let (write_and_readwrite_keys, readonly_keys) = split_keys transaction [] [] in
          return_if_error (lock_for_read E presumed_abort_time (iter_keys E readonly_keys) (m, s, w))
            (\<lambda>(m, s, w). lock_for_write E presumed_abort_time
               (iter_keys E write_and_readwrite_keys) (m, s, w)))
     }"

subsection \<open>Operations in the database\<close>

text \<open>A call of an operation on \<open>txn_metadata.db\<close>; a null pointer has no defined behaviour.\<close>

definition with_db ::
  "('d \<Rightarrow> 'w \<Rightarrow> ('r \<times> 'd \<times> 'w) option) \<Rightarrow> 'd txn_metadata \<Rightarrow> 'w \<Rightarrow> ('r \<times> 'd txn_metadata \<times> 'w) option" where
  "with_db call m w = do { d \<leftarrow> md_db m; (r, d, w) \<leftarrow> call d w; Some (r, m\<lparr>md_db := Some d\<rparr>, w) }"

definition add_get_response :: "get_response \<Rightarrow> 'd txn_metadata \<Rightarrow> 'd txn_metadata" where
  "add_get_response r m = m\<lparr>md_response := CohortCommitted (committed_of (mutable_committed (md_response m)) @ [r])\<rparr>"

definition ProcessOperationInDb ::
  "('d, 'w) cohort_env \<Rightarrow> operation \<Rightarrow> 'd txn_metadata \<Rightarrow> 'w \<Rightarrow>
   (absl_status \<times> 'd txn_metadata \<times> 'w) option" where
  "ProcessOperationInDb E op m w =
     (if has_get op then do {
        (got, m, w) \<leftarrow> with_db (\<lambda>d. Get (db_ops E) d (get_key (the_get op))) m w;
        (case got of
           Inl st \<Rightarrow> Some (st, m, w)
         | Inr v \<Rightarrow> Some (OkStatus, add_get_response
             \<lparr>gr_namespace = op_namespace op, gr_get = the_get op, gr_value = v\<rparr> m, w))
      }
      else if has_put op then
        (case put_val (the_put op) of
           Constant c \<Rightarrow> with_db (\<lambda>d. Put (db_ops E) d (put_key (the_put op)) (const_int64 c)) m w
         | pv \<Rightarrow> do {
             (got, m, w) \<leftarrow> with_db (\<lambda>d. Get (db_ops E) d (put_key (the_put op))) m w;
             (case (case got of
                      Inl get_status \<Rightarrow>
                        if absl_code get_status = kNotFound \<and> default_part (the_relative pv) \<noteq> None
                        then Inr (num_int64 (default_part (the_relative pv)))
                        else Inl get_status
                    | Inr v \<Rightarrow> Inr v) of
                Inl get_status \<Rightarrow> Some (get_status, m, w)
              | Inr v \<Rightarrow> with_db (\<lambda>d. Put (db_ops E) d (put_key (the_put op))
                   (v + num_int64 (relative_part (the_relative pv)))) m w)
           })
      else Some (OkStatus, m, w))"

fun process_ops ::
  "('d, 'w) cohort_env \<Rightarrow> transaction \<Rightarrow> 'd txn_metadata \<times> 'w \<Rightarrow>
   (absl_status \<times> 'd txn_metadata \<times> 'w) option" where
  "process_ops E [] (m, w) = Some (OkStatus, m, w)"
| "process_ops E (op # ops) (m, w) =
     return_if_error (ProcessOperationInDb E op m w) (process_ops E ops)"

definition ProcessTransactionInDb ::
  "('d, 'w) cohort_env \<Rightarrow> transaction \<Rightarrow> time \<Rightarrow> 'd txn_metadata \<Rightarrow> 'd cohort_server \<Rightarrow> 'w \<Rightarrow>
   (absl_status \<times> 'd txn_metadata \<times> 'd cohort_server \<times> 'w) option" where
  "ProcessTransactionInDb E transaction presumed_abort_time m s w =
     return_if_error (AcquireDbLocks E transaction presumed_abort_time m s w)
       (\<lambda>(m, s, w). do {
          (st, m, w) \<leftarrow> return_if_error
            (if write_lock_keys m = [] \<and> \<not> has_whole_db_write_lock m
             then with_db (BeginReadOnly (db_ops E)) m w
             else with_db (Begin (db_ops E)) m w)
            (process_ops E transaction);
          Some (st, m, s, w)
        })"

subsection \<open>Ending a transaction\<close>

text \<open>
  The loop asks for the decision, and sleeps while there is none: first until the presumed abort
  time, then each time as long as has passed since then.
\<close>

partial_function (option) WaitForBlockchainDecision ::
  "('d, 'w) cohort_env \<Rightarrow> string \<Rightarrow> time \<Rightarrow> bool \<Rightarrow> 'w \<Rightarrow> (voting_decision \<times> 'w) option" where
  "WaitForBlockchainDecision E transaction_id presumed_abort_time waited_until_presumed_abort_time w =
     do {
       (decision_or_status, w) \<leftarrow> bc_GetVotingDecision (blockchain_stub E) transaction_id w;
       (let decision = (case decision_or_status of Inl _ \<Rightarrow> VOTING_DECISION_PENDING | Inr d \<Rightarrow> d) in
        if decision \<noteq> VOTING_DECISION_PENDING \<and> decision \<noteq> VOTING_DECISION_UNKNOWN
        then Some (decision, w)
        else WaitForBlockchainDecision E transaction_id presumed_abort_time True
          (if waited_until_presumed_abort_time
           then sleep_for_us E (ToChronoMicroseconds (Now E w - presumed_abort_time)) w
           else sleep_until E presumed_abort_time w))
     }"

definition unlock_keys ::
  "(nat \<Rightarrow> 'w \<Rightarrow> 'w) \<Rightarrow> string list \<Rightarrow> 'd cohort_server \<times> 'w \<Rightarrow> 'd cohort_server \<times> 'w" where
  "unlock_keys unlock keys sw =
     fold (\<lambda>key (s, w). let (mutex, s) = GetLock key s in (s, unlock mutex w)) keys sw"

definition ReleaseLocksAndDeleteMetadata ::
  "('d, 'w) cohort_env \<Rightarrow> string \<Rightarrow> 'd cohort_server \<Rightarrow> 'w \<Rightarrow> 'd cohort_server \<times> 'w" where
  "ReleaseLocksAndDeleteMetadata E transaction_id s w =
     (let m = metadata_of s transaction_id;
          (s, w) = unlock_keys (WriterUnlock E) (write_lock_keys m) (s, w);
          (s, w) = unlock_keys (ReaderUnlock E) (read_lock_keys m) (s, w);
          w = (if has_whole_db_write_lock m then WriterUnlock E whole_db_mutex w else w);
          w = (if has_whole_db_read_lock m then ReaderUnlock E whole_db_mutex w else w)
      in (s\<lparr>final_response_by_transaction_id :=
              (final_response_by_transaction_id s)(transaction_id \<mapsto> md_response m),
            metadata_by_transaction_id := (metadata_by_transaction_id s)(transaction_id := None)\<rparr>, w))"

definition abort_reason_for :: "absl_status \<Rightarrow> abort_reason" where
  "abort_reason_for st =
     (if absl_code st = kDeadlineExceeded then ABORT_REASON_PRESUMED_ABORT_TIMESTAMP_REACHED
      else if absl_code st = kNotFound then ABORT_REASON_OPERATION_FOR_NON_EXISTENT_VALUE
      else ABORT_REASON_UNSPECIFIED)"

definition AbortTransaction ::
  "('d, 'w) cohort_env \<Rightarrow> string \<Rightarrow> int \<Rightarrow> absl_status option \<Rightarrow> 'd cohort_server \<Rightarrow> 'w \<Rightarrow>
   ('d cohort_server \<times> 'w) option" where
  "AbortTransaction E transaction_id index abort_status s w =
     do {
       (reason, w) \<leftarrow> (case abort_status of
          None \<Rightarrow> Some (uninit_abort_reason E w, w)
        | Some st \<Rightarrow> do {
            (ignored, w) \<leftarrow> bc_Vote (blockchain_stub E) transaction_id index BALLOT_ABORT w;
            Some (abort_reason_for st, w)
          });
       let m = (metadata_of s transaction_id)\<lparr>md_response := CohortAborted reason\<rparr>;
       (ignored, m, w) \<leftarrow> with_db (Abort (db_ops E)) m w;
       Some (ReleaseLocksAndDeleteMetadata E transaction_id (set_metadata transaction_id m s) w)
     }"

text \<open>The retry loop around the commit of the database.\<close>

partial_function (option) commit_until_ok ::
  "('d, 'w) cohort_env \<Rightarrow> 'd txn_metadata \<Rightarrow> 'w \<Rightarrow> ('d txn_metadata \<times> 'w) option" where
  "commit_until_ok E m w =
     do {
       (commit_status, m, w) \<leftarrow> with_db (Commit (db_ops E)) m w;
       (if absl_ok commit_status then Some (m, w) else commit_until_ok E m w)
     }"

definition CommitTransaction ::
  "('d, 'w) cohort_env \<Rightarrow> string \<Rightarrow> 'd cohort_server \<Rightarrow> 'w \<Rightarrow> ('d cohort_server \<times> 'w) option" where
  "CommitTransaction E transaction_id s w =
     do {
       (m, w) \<leftarrow> commit_until_ok E (metadata_of s transaction_id) w;
       let m = m\<lparr>md_response := mutable_committed (md_response m)\<rparr>;
       Some (ReleaseLocksAndDeleteMetadata E transaction_id (set_metadata transaction_id m s) w)
     }"

definition WriteToFile :: "('d, 'w) cohort_env \<Rightarrow> file_content \<Rightarrow> string \<Rightarrow> 'w \<Rightarrow> bool \<times> 'w" where
  "WriteToFile E message path w = file_write E path message w"

definition internal_error :: "string \<Rightarrow> absl_status" where
  "internal_error msg = mk_absl_status kInternal msg"

definition PersistTransaction ::
  "('d, 'w) cohort_env \<Rightarrow> prepare_request \<Rightarrow> 'd cohort_server \<Rightarrow> 'w \<Rightarrow> absl_status \<times> 'w" where
  "PersistTransaction E request s w =
     (let response_path = db_txn_response_dir E @ ''/response_'' @ req_transaction_id request @ ''.binarypb'';
          (written, w) = WriteToFile E
            (ResponseFile (committed_of (md_response (metadata_of s (req_transaction_id request)))))
            response_path w
      in if \<not> written then (internal_error ''Failed to write transaction responses to disk.'', w)
         else let request_path = db_txn_response_dir E @ ''/request_'' @ req_transaction_id request @ ''.binarypb'';
                  (written, w) = WriteToFile E (RequestFile request) request_path w
              in if \<not> written then (internal_error ''Failed to write transaction request to disk.'', w)
                 else (OkStatus, w))"

subsection \<open>A transaction from start to end\<close>

definition ProcessTransaction ::
  "('d, 'w) cohort_env \<Rightarrow> prepare_request \<Rightarrow> 'd cohort_server \<Rightarrow> 'w \<Rightarrow> ('d cohort_server \<times> 'w) option" where
  "ProcessTransaction E request s w =
     do {
       let tid = req_transaction_id request;
       let m = (metadata_of s tid)\<lparr>md_response := CohortPending\<rparr>;
       (d, w) \<leftarrow> db_transaction_adapter_creator E w;
       let m = m\<lparr>md_db := Some d\<rparr>;
       let presumed_abort_time = time_of_timestamp (config_time (req_config request));
       (db_status, m, s, w) \<leftarrow> ProcessTransactionInDb E (req_transaction request) presumed_abort_time m s w;
       let s = set_metadata tid m s;
       if \<not> absl_ok db_status
       then AbortTransaction E tid (int (cohort_index request)) (Some db_status) s w
       else if only_cohort request then CommitTransaction E tid s w
       else let (persist_status, w) = PersistTransaction E request s w in
         if \<not> absl_ok persist_status
         then AbortTransaction E tid (int (cohort_index request)) (Some persist_status) s w
         else do {
           (ignored, w) \<leftarrow> bc_Vote (blockchain_stub E) tid (int (cohort_index request)) BALLOT_COMMIT w;
           (decision, w) \<leftarrow> WaitForBlockchainDecision E tid presumed_abort_time False w;
           if decision = VOTING_DECISION_COMMIT then CommitTransaction E tid s w
           else AbortTransaction E tid (int (cohort_index request)) None s w
         }
     }"

subsection \<open>The two RPCs and the thread pool\<close>

definition PrepareTransaction :: "prepare_request \<Rightarrow> 'd cohort_server \<Rightarrow> grpc_status \<times> 'd cohort_server" where
  "PrepareTransaction request s = (grpc_OK, s\<lparr>thread_pool_tasks := thread_pool_tasks s @ [request]\<rparr>)"

definition GetTransactionResult :: "string \<Rightarrow> 'd cohort_server \<Rightarrow> grpc_status \<times> cohort_result" where
  "GetTransactionResult tid s =
     (grpc_OK, case final_response_by_transaction_id s tid of
        Some response \<Rightarrow> response
      | None \<Rightarrow> CohortPending)"

text \<open>A free thread of the pool takes the first task and runs it.\<close>

definition run_next_task :: "('d, 'w) cohort_env \<Rightarrow> 'd cohort_server \<Rightarrow> 'w \<Rightarrow> ('d cohort_server \<times> 'w) option" where
  "run_next_task E s w =
     (case thread_pool_tasks s of
        [] \<Rightarrow> Some (s, w)
      | request # rest \<Rightarrow> ProcessTransaction E request (s\<lparr>thread_pool_tasks := rest\<rparr>) w)"

end
