(* ===== verification/Cohort_Locking.thy ===== *)
theory Cohort_Locking
  imports Cohort_Model
begin

text \<open>
  The lock table of the cohort and the choice of the locks of a transaction: keys and mutexes
  correspond one to one, a transaction locks each key it touches exactly once, for writing when
  it puts the key and for reading when it only gets it.
\<close>

subsection \<open>The lock table\<close>

text \<open>Every allocated mutex belongs to one key and is not the mutex of the whole database.\<close>

definition lock_table_ok :: "'d cohort_server \<Rightarrow> bool" where
  "lock_table_ok s \<longleftrightarrow> 0 < next_mutex s \<and>
     (\<forall>k m. locks_by_key s k = Some m \<longrightarrow> 0 < m \<and> m < next_mutex s) \<and>
     (\<forall>k k' m. locks_by_key s k = Some m \<longrightarrow> locks_by_key s k' = Some m \<longrightarrow> k = k')"

lemma lock_table_ok_new [simp]: "lock_table_ok new_cohort_server"
  by (simp add: lock_table_ok_def new_cohort_server_def)

lemma GetLock_ok:
  assumes "lock_table_ok s"
  shows "lock_table_ok (snd (GetLock k s))"
  using assms unfolding lock_table_ok_def GetLock_def
  by (auto split: option.splits) (metis less_irrefl less_SucI)+

lemma GetLock_maps [simp]: "locks_by_key (snd (GetLock k s)) k = Some (fst (GetLock k s))"
  by (simp add: GetLock_def split: option.splits)

lemma GetLock_keeps: "locks_by_key s k' = Some m \<Longrightarrow> locks_by_key (snd (GetLock k s)) k' = Some m"
  by (auto simp: GetLock_def split: option.splits)

lemma GetLock_known: "locks_by_key s k = Some m \<Longrightarrow> GetLock k s = (m, s)"
  by (simp add: GetLock_def)

lemma GetLock_frame [simp]:
  "metadata_by_transaction_id (snd (GetLock k s)) = metadata_by_transaction_id s"
  "final_response_by_transaction_id (snd (GetLock k s)) = final_response_by_transaction_id s"
  "thread_pool_tasks (snd (GetLock k s)) = thread_pool_tasks s"
  by (simp_all add: GetLock_def split: option.splits)

lemma GetLock_same_key:
  assumes "lock_table_ok s"
  shows "fst (GetLock k (snd (GetLock k' s))) = fst (GetLock k' s) \<longleftrightarrow> k = k'"
proof
  have ok: "lock_table_ok (snd (GetLock k (snd (GetLock k' s))))"
    by (intro GetLock_ok assms)
  assume "fst (GetLock k (snd (GetLock k' s))) = fst (GetLock k' s)"
  then have "locks_by_key (snd (GetLock k (snd (GetLock k' s)))) k = Some (fst (GetLock k' s))"
    by (metis GetLock_maps)
  moreover have "locks_by_key (snd (GetLock k (snd (GetLock k' s)))) k' = Some (fst (GetLock k' s))"
    by (rule GetLock_keeps) simp
  ultimately show "k = k'" using ok unfolding lock_table_ok_def by blast
qed (metis GetLock_known GetLock_maps fst_conv)

lemma GetLock_not_whole_db: "lock_table_ok s \<Longrightarrow> fst (GetLock k s) \<noteq> whole_db_mutex"
  by (auto simp: lock_table_ok_def GetLock_def split: option.splits)

subsection \<open>Which locks a transaction needs\<close>

definition put_keys :: "transaction \<Rightarrow> string set" where
  "put_keys ops = {put_key (the_put op) | op. op \<in> set ops \<and> has_put op}"

definition get_keys :: "transaction \<Rightarrow> string set" where
  "get_keys ops = {get_key (the_get op) | op. op \<in> set ops \<and> has_get op}"

lemma put_keys_simps [simp]:
  "put_keys [] = {}"
  "put_keys (op # ops) = (if has_put op then insert (put_key (the_put op)) (put_keys ops) else put_keys ops)"
  by (auto simp: put_keys_def)

lemma get_keys_simps [simp]:
  "get_keys [] = {}"
  "get_keys (op # ops) = (if has_get op then insert (get_key (the_get op)) (get_keys ops) else get_keys ops)"
  by (auto simp: get_keys_def)

lemma not_get_and_put: "has_put op \<Longrightarrow> \<not> has_get op"
  by (cases "op_type op") auto

lemma scan_ops_eq:
  "scan_ops ops p g = (p \<or> (\<exists>op \<in> set ops. has_put op), g \<or> (\<exists>op \<in> set ops. has_get op))"
  by (induction ops arbitrary: p g) (auto simp: Let_def simp del: has_put.simps has_get.simps)

text \<open>
  The loop invariant: the write set and the read-only set are duplicate-free and disjoint, the
  write set grows by the keys put, and a key read earlier leaves the read-only set when it is put.
\<close>

lemma split_keys_step:
  assumes "distinct wk" "distinct rk" "set wk \<inter> set rk = {}"
    and "split_keys ops wk rk = (wk', rk')"
  shows "distinct wk' \<and> distinct rk' \<and> set wk' = set wk \<union> put_keys ops \<and>
    set rk' = (set rk \<union> get_keys ops) - (set wk \<union> put_keys ops)"
  using assms
proof (induction ops arbitrary: wk rk)
  case Nil
  then show ?case by auto
next
  case (Cons op ops)
  let ?wk = "if has_put op then hs_emplace (put_key (the_put op)) wk else wk"
  let ?rk1 = "if has_put op then hs_erase (put_key (the_put op)) rk else rk"
  let ?rk = "if has_get op \<and> get_key (the_get op) \<notin> set ?wk
    then hs_emplace (get_key (the_get op)) ?rk1 else ?rk1"
  have step: "split_keys ops ?wk ?rk = (wk', rk')"
    using Cons.prems(4) by (auto simp: Let_def simp del: has_put.simps has_get.simps split: if_splits)
  have "distinct ?wk" "distinct ?rk" "set ?wk \<inter> set ?rk = {}"
    using Cons.prems(1-3) by auto
  from Cons.IH [OF this step] show ?case
    using Cons.prems(3) not_get_and_put [of op]
    by (auto simp del: has_put.simps has_get.simps the_put.simps the_get.simps)
qed

lemma split_keys_spec:
  assumes "split_keys ops [] [] = (wk, rk)"
  shows "distinct wk" "distinct rk" "set wk = put_keys ops" "set rk = get_keys ops - put_keys ops"
  using split_keys_step [OF _ _ _ assms] by auto

subsection \<open>Acquiring them\<close>

text \<open>The state that an acquisition leaves unchanged, and the lock table only grows.\<close>

definition grows :: "'d cohort_server \<Rightarrow> 'd cohort_server \<Rightarrow> bool" where
  "grows s s' \<longleftrightarrow> metadata_by_transaction_id s' = metadata_by_transaction_id s \<and>
     final_response_by_transaction_id s' = final_response_by_transaction_id s \<and>
     thread_pool_tasks s' = thread_pool_tasks s \<and>
     (\<forall>k m. locks_by_key s k = Some m \<longrightarrow> locks_by_key s' k = Some m) \<and>
     (lock_table_ok s \<longrightarrow> lock_table_ok s')"

lemma grows_refl [simp]: "grows s s"
  by (simp add: grows_def)

lemma grows_trans: "grows s s' \<Longrightarrow> grows s' s'' \<Longrightarrow> grows s s''"
  by (auto simp: grows_def)

lemma grows_GetLock [simp]: "grows s (snd (GetLock k s))"
  by (simp add: grows_def GetLock_keeps GetLock_ok)

lemma growsD: "grows s s' \<Longrightarrow> locks_by_key s k = Some m \<Longrightarrow> locks_by_key s' k = Some m"
  by (simp add: grows_def)

lemma lock_for_read_result:
  assumes "lock_for_read E dl keys (m, s, w) = Some (st, m', s', w')"
  shows "grows s s' \<and> (\<exists>got. m' = m\<lparr>read_lock_keys := read_lock_keys m @ got\<rparr> \<and>
    (\<exists>rest. keys = got @ rest \<and> (absl_ok st \<longleftrightarrow> rest = [])))"
  using assms
proof (induction keys arbitrary: m s w)
  case Nil
  then show ?case by simp
next
  case (Cons k keys)
  obtain mx s1 where g: "GetLock k s = (mx, s1)" by fastforce
  then have s1: "grows s s1" using grows_GetLock [of s k] by simp
  from Cons.prems g obtain got w1 where l: "ReaderLockWhenWithDeadline E mx dl w = Some (got, w1)"
    by (auto elim!: bind_elims)
  show ?case
  proof (cases got)
    case False
    with Cons.prems g l s1 show ?thesis
      by (auto simp: DeadlineExceededError_def intro: exI [of _ "[]"])
  next
    case True
    with Cons.prems g l
    have "lock_for_read E dl keys (m\<lparr>read_lock_keys := read_lock_keys m @ [k]\<rparr>, s1, w1) = Some (st, m', s', w')"
      by simp
    from Cons.IH [OF this] obtain more rest where "grows s1 s'"
      "m' = m\<lparr>read_lock_keys := read_lock_keys m @ k # more\<rparr>" "keys = more @ rest"
      "absl_ok st \<longleftrightarrow> rest = []" by auto
    moreover from this have "grows s s'" and "k # keys = (k # more) @ rest"
      using grows_trans [OF s1] by simp_all
    ultimately show ?thesis by blast
  qed
qed

lemma lock_for_write_result:
  assumes "lock_for_write E dl keys (m, s, w) = Some (st, m', s', w')"
  shows "grows s s' \<and> (\<exists>got. m' = m\<lparr>write_lock_keys := write_lock_keys m @ got\<rparr> \<and>
    (\<exists>rest. keys = got @ rest \<and> (absl_ok st \<longleftrightarrow> rest = [])))"
  using assms
proof (induction keys arbitrary: m s w)
  case Nil
  then show ?case by simp
next
  case (Cons k keys)
  obtain mx s1 where g: "GetLock k s = (mx, s1)" by fastforce
  then have s1: "grows s s1" using grows_GetLock [of s k] by simp
  from Cons.prems g obtain got w1 where l: "WriterLockWhenWithDeadline E mx dl w = Some (got, w1)"
    by (auto elim!: bind_elims)
  show ?case
  proof (cases got)
    case False
    with Cons.prems g l s1 show ?thesis
      by (auto simp: DeadlineExceededError_def intro: exI [of _ "[]"])
  next
    case True
    with Cons.prems g l
    have "lock_for_write E dl keys (m\<lparr>write_lock_keys := write_lock_keys m @ [k]\<rparr>, s1, w1) = Some (st, m', s', w')"
      by simp
    from Cons.IH [OF this] obtain more rest where "grows s1 s'"
      "m' = m\<lparr>write_lock_keys := write_lock_keys m @ k # more\<rparr>" "keys = more @ rest"
      "absl_ok st \<longleftrightarrow> rest = []" by auto
    moreover from this have "grows s s'" and "k # keys = (k # more) @ rest"
      using grows_trans [OF s1] by simp_all
    ultimately show ?thesis by blast
  qed
qed


text \<open>
  A successful acquisition from no locks holds exactly the locks the transaction needs: the keys it
  puts, the keys it only gets, or one lock on the whole database when the adapter cannot run write
  transactions side by side.
\<close>

definition locks_needed :: "('d, 'w) cohort_env \<Rightarrow> transaction \<Rightarrow> 'd txn_metadata \<Rightarrow> bool" where
  "locks_needed E ops m \<longleftrightarrow>
     (case md_db m of None \<Rightarrow> False | Some d \<Rightarrow>
        if SupportsConcurrentWrites (db_ops E) d
        then distinct (write_lock_keys m) \<and> set (write_lock_keys m) = put_keys ops \<and>
             distinct (read_lock_keys m) \<and> set (read_lock_keys m) = get_keys ops - put_keys ops \<and>
             \<not> has_whole_db_write_lock m \<and> \<not> has_whole_db_read_lock m
        else write_lock_keys m = [] \<and> read_lock_keys m = [] \<and>
             (has_whole_db_write_lock m \<longleftrightarrow> (\<exists>op \<in> set ops. has_put op)) \<and>
             (has_whole_db_read_lock m \<longleftrightarrow> \<not> has_whole_db_write_lock m \<and> (\<exists>op \<in> set ops. has_get op)))"

definition no_locks :: "'d txn_metadata \<Rightarrow> bool" where
  "no_locks m \<longleftrightarrow> read_lock_keys m = [] \<and> write_lock_keys m = [] \<and>
     \<not> has_whole_db_write_lock m \<and> \<not> has_whole_db_read_lock m"

lemma AcquireWholeDbLock_result:
  assumes "AcquireWholeDbLock E ops dl m w = Some (st, m', w')"
  shows "absl_ok st \<Longrightarrow> m' =
      (if \<exists>op \<in> set ops. has_put op then m\<lparr>has_whole_db_write_lock := True\<rparr>
       else if \<exists>op \<in> set ops. has_get op then m\<lparr>has_whole_db_read_lock := True\<rparr> else m)"
    and "\<not> absl_ok st \<Longrightarrow> m' = m"
  using assms
  by (auto simp: AcquireWholeDbLock_def scan_ops_eq DeadlineExceededError_def
      simp del: has_put.simps has_get.simps elim!: bind_elims split: if_splits)

lemma AcquireDbLocks_grows:
  assumes "AcquireDbLocks E ops dl m s w = Some (st, m', s', w')"
  shows "grows s s'"
  using assms unfolding AcquireDbLocks_def
  by (auto elim!: bind_elims dest!: lock_for_read_result lock_for_write_result
      intro: grows_trans split: if_splits prod.splits)

lemma AcquireDbLocks_db:
  assumes "AcquireDbLocks E ops dl m s w = Some (st, m', s', w')"
  shows "md_db m' = md_db m"
  using assms unfolding AcquireDbLocks_def AcquireWholeDbLock_def
  by (auto elim!: bind_elims dest!: lock_for_read_result lock_for_write_result split: if_splits prod.splits)

lemma AcquireDbLocks_needed:
  assumes acq: "AcquireDbLocks E ops dl m s w = Some (st, m', s', w')" and ok: "absl_ok st"
    and none: "no_locks m" and iter: "perm_order (iter_keys E)"
  shows "locks_needed E ops m'"
proof -
  obtain d where d: "md_db m = Some d" using acq by (auto simp: AcquireDbLocks_def elim!: bind_elims)
  obtain wk rk where sk: "split_keys ops [] [] = (wk, rk)" by fastforce
  show ?thesis
  proof (cases "SupportsConcurrentWrites (db_ops E) d")
    case False
    with acq d obtain w1 where "AcquireWholeDbLock E ops dl m w = Some (st, m', w1)"
      by (auto simp: AcquireDbLocks_def elim!: bind_elims)
    from AcquireWholeDbLock_result(1) [OF this ok] False d none show ?thesis
      by (auto simp: locks_needed_def no_locks_def simp del: has_put.simps has_get.simps)
  next
    case True
    with acq d sk ok obtain st1 m1 s1 w1 where
      r: "lock_for_read E dl (iter_keys E rk) (m, s, w) = Some (st1, m1, s1, w1)" "absl_ok st1" and
      wr: "lock_for_write E dl (iter_keys E wk) (m1, s1, w1) = Some (st, m', s', w')"
      by (auto simp: AcquireDbLocks_def elim!: bind_elims)
    have "m1 = m\<lparr>read_lock_keys := read_lock_keys m @ iter_keys E rk\<rparr>"
      using lock_for_read_result [OF r(1)] r(2) by auto
    moreover have "m' = m1\<lparr>write_lock_keys := write_lock_keys m1 @ iter_keys E wk\<rparr>"
      using lock_for_write_result [OF wr] ok by auto
    ultimately show ?thesis
      using True d none split_keys_spec [OF sk] iter
      by (simp add: locks_needed_def no_locks_def perm_order_set perm_order_distinct)
  qed
qed

end
