(* ===== verification/Cohort_Loops.thy ===== *)
theory Cohort_Loops
  imports Cohort_Model Retry_Loop
begin

text \<open>
  The two loops of the cohort that may run for ever: waiting for the decision and committing to
  the database. For each, an induction rule over the iterations of a run that returned, the
  equation of one iteration, and termination: the loop returns as soon as one iteration succeeds.
\<close>

subsection \<open>Waiting for the decision\<close>

definition poll_decision :: "absl_status + voting_decision \<Rightarrow> voting_decision" where
  "poll_decision p = (case p of Inl _ \<Rightarrow> VOTING_DECISION_PENDING | Inr d \<Rightarrow> d)"

lemma poll_decision_simps [simp]:
  "poll_decision (Inl st) = VOTING_DECISION_PENDING" "poll_decision (Inr d) = d"
  by (simp_all add: poll_decision_def)

text \<open>The sleep between two polls.\<close>

definition nap :: "('d, 'w) cohort_env \<Rightarrow> time \<Rightarrow> bool \<Rightarrow> 'w \<Rightarrow> 'w" where
  "nap E t waited w =
     (if waited then sleep_for_us E (ToChronoMicroseconds (Now E w - t)) w else sleep_until E t w)"

lemma Wait_unfold:
  "WaitForBlockchainDecision E tid t waited w =
     do {
       (p, w1) \<leftarrow> bc_GetVotingDecision (blockchain_stub E) tid w;
       if definite (poll_decision p) then Some (poll_decision p, w1)
       else WaitForBlockchainDecision E tid t True (nap E t waited w1)
     }"
  by (subst WaitForBlockchainDecision.simps, cases "bc_GetVotingDecision (blockchain_stub E) tid w")
     (auto simp: poll_decision_def definite_def nap_def Let_def)

lemma Wait_induct [consumes 1, case_names decided again]:
  assumes ret: "WaitForBlockchainDecision E tid t waited w = Some r"
    and decided: "\<And>waited w p w1. bc_GetVotingDecision (blockchain_stub E) tid w = Some (p, w1) \<Longrightarrow>
      definite (poll_decision p) \<Longrightarrow> P waited w (poll_decision p, w1)"
    and again: "\<And>waited w p w1 r. bc_GetVotingDecision (blockchain_stub E) tid w = Some (p, w1) \<Longrightarrow>
      \<not> definite (poll_decision p) \<Longrightarrow> P True (nap E t waited w1) r \<Longrightarrow> P waited w r"
  shows "P waited w r"
proof -
  have "E' = E \<longrightarrow> tid' = tid \<longrightarrow> t' = t \<longrightarrow> P waited' w' r'"
    if "WaitForBlockchainDecision E' tid' t' waited' w' = Some r'" for E' tid' t' waited' w' r'
  proof (rule WaitForBlockchainDecision.raw_induct [OF _ that, where
        P = "\<lambda>E' tid' t' waited' w' r'. E' = E \<longrightarrow> tid' = tid \<longrightarrow> t' = t \<longrightarrow> P waited' w' r'"],
      intro impI)
    fix f E' tid' t' waited' w' r'
    assume IH: "\<And>E' tid' t' waited' w' r'. f E' tid' t' waited' w' = Some r' \<Longrightarrow>
        E' = E \<longrightarrow> tid' = tid \<longrightarrow> t' = t \<longrightarrow> P waited' w' r'"
      and body: "bc_GetVotingDecision (blockchain_stub E') tid' w' \<bind> (\<lambda>(decision_or_status, w).
        let decision = case decision_or_status of Inl x \<Rightarrow> VOTING_DECISION_PENDING | Inr d \<Rightarrow> d
        in if decision \<noteq> VOTING_DECISION_PENDING \<and> decision \<noteq> VOTING_DECISION_UNKNOWN
           then Some (decision, w)
           else f E' tid' t' True (if waited' then sleep_for_us E' (ToChronoMicroseconds (Now E' w - t')) w
                                   else sleep_until E' t' w)) = Some r'"
      and eqs: "E' = E" "tid' = tid" "t' = t"
    from body obtain p w1 where p: "bc_GetVotingDecision (blockchain_stub E) tid w' = Some (p, w1)"
      and rest: "(if definite (poll_decision p) then Some (poll_decision p, w1)
        else f E tid t True (nap E t waited' w1)) = Some r'"
      unfolding eqs by (auto elim!: bind_elims simp: Let_def poll_decision_def nap_def definite_def)
    show "P waited' w' r'"
    proof (cases "definite (poll_decision p)")
      case True
      with rest decided [OF p] show ?thesis by simp
    next
      case False
      with rest have "f E tid t True (nap E t waited' w1) = Some r'" by simp
      then show ?thesis using IH again [OF p False] by simp
    qed
  qed
  with ret show ?thesis by blast
qed

text \<open>A run that returns has a definite decision.\<close>

lemma Wait_definite:
  assumes "WaitForBlockchainDecision E tid t waited w = Some (d, w')"
  shows "definite d"
proof -
  have "definite (fst r)" if "WaitForBlockchainDecision E tid t waited w = Some r" for r
    using that by (induction rule: Wait_induct) simp_all
  from this [OF assms] show ?thesis by simp
qed

text \<open>
  \<open>decides n\<close>: the first \<open>n\<close> polls are answered and leave the decision open, the next one is
  answered with a definite decision.
\<close>

fun decides :: "('d, 'w) cohort_env \<Rightarrow> string \<Rightarrow> time \<Rightarrow> nat \<Rightarrow> bool \<Rightarrow> 'w \<Rightarrow> (voting_decision \<times> 'w) option" where
  "decides E tid t 0 waited w =
     (case bc_GetVotingDecision (blockchain_stub E) tid w of
        None \<Rightarrow> None
      | Some (p, w1) \<Rightarrow> if definite (poll_decision p) then Some (poll_decision p, w1) else None)"
| "decides E tid t (Suc n) waited w =
     (case bc_GetVotingDecision (blockchain_stub E) tid w of
        None \<Rightarrow> None
      | Some (p, w1) \<Rightarrow> if definite (poll_decision p) then None
                       else decides E tid t n True (nap E t waited w1))"

definition decision_attempt ::
  "('d, 'w) cohort_env \<Rightarrow> string \<Rightarrow> time \<Rightarrow> bool \<times> 'w \<Rightarrow> ((voting_decision \<times> 'w) + bool \<times> 'w) option" where
  "decision_attempt E tid t = (\<lambda>(waited, w). map_option (\<lambda>(p, w1).
     if definite (poll_decision p) then Inl (poll_decision p, w1) else Inr (True, nap E t waited w1))
     (bc_GetVotingDecision (blockchain_stub E) tid w))"

lemma decision_attempt_simps [simp]:
  "decision_attempt E tid t (waited, w) = map_option (\<lambda>(p, w1).
     if definite (poll_decision p) then Inl (poll_decision p, w1) else Inr (True, nap E t waited w1))
     (bc_GetVotingDecision (blockchain_stub E) tid w)"
  by (simp add: decision_attempt_def)

interpretation waiting: retry_loop "\<lambda>(waited, w). WaitForBlockchainDecision E tid t waited w" "decision_attempt E tid t"
  for E :: "('d, 'w) cohort_env" and tid t
proof
  fix x :: "bool \<times> 'w" and r and P :: "bool \<times> 'w \<Rightarrow> voting_decision \<times> 'w \<Rightarrow> bool"
  show "(case x of (waited, w) \<Rightarrow> WaitForBlockchainDecision E tid t waited w) =
      (case decision_attempt E tid t x of None \<Rightarrow> None | Some (Inl r) \<Rightarrow> Some r
       | Some (Inr x') \<Rightarrow> (case x' of (waited, w) \<Rightarrow> WaitForBlockchainDecision E tid t waited w))"
    by (cases x) (subst (1) Wait_unfold, auto split: option.split)
  assume ret: "(case x of (waited, w) \<Rightarrow> WaitForBlockchainDecision E tid t waited w) = Some r"
    and good: "\<And>x r. decision_attempt E tid t x = Some (Inl r) \<Longrightarrow> P x r"
    and retry: "\<And>x x' r. decision_attempt E tid t x = Some (Inr x') \<Longrightarrow> P x' r \<Longrightarrow> P x r"
  have run: "P (waited, w) r" if "WaitForBlockchainDecision E tid t waited w = Some r" for waited w r
    using that
  proof (induction rule: Wait_induct)
    case (decided waited w p w1)
    then show ?case by (intro good) simp
  next
    case (again waited w p w1 r)
    show ?case by (rule retry [where x' = "(True, nap E t waited w1)"]) (use again in simp_all)
  qed
  obtain a b where x: "x = (a, b)" by (rule prod.exhaust)
  show "P x r" unfolding x by (rule run, rule ret [unfolded x prod.case])
qed

lemma decides_eq: "decides E tid t n waited w = retry_loop.succeeds_after (decision_attempt E tid t) n (waited, w)"
  by (induction n arbitrary: waited w)
    (auto simp: waiting.succeeds_after.simps split: option.split)

lemma Wait_returns_iff:
  "WaitForBlockchainDecision E tid t waited w = Some r \<longleftrightarrow> (\<exists>n. decides E tid t n waited w = Some r)"
  using waiting.returns_after_iff [of E tid t "(waited, w)" r] by (simp add: decides_eq)

subsection \<open>Committing to the database\<close>

lemma commit_until_ok_induct [consumes 1, case_names committed again]:
  assumes ret: "commit_until_ok E m w = Some r"
    and committed: "\<And>m w st m1 w1. with_db (Commit (db_ops E)) m w = Some (st, m1, w1) \<Longrightarrow>
      absl_ok st \<Longrightarrow> P m w (m1, w1)"
    and again: "\<And>m w st m1 w1 r. with_db (Commit (db_ops E)) m w = Some (st, m1, w1) \<Longrightarrow>
      \<not> absl_ok st \<Longrightarrow> P m1 w1 r \<Longrightarrow> P m w r"
  shows "P m w r"
proof -
  have "E' = E \<longrightarrow> P m' w' r'" if "commit_until_ok E' m' w' = Some r'" for E' m' w' r'
  proof (rule commit_until_ok.raw_induct [OF _ that, where P = "\<lambda>E' m' w' r'. E' = E \<longrightarrow> P m' w' r'"],
      intro impI)
    fix f E' m' w' r'
    assume IH: "\<And>E' m' w' r'. f E' m' w' = Some r' \<Longrightarrow> E' = E \<longrightarrow> P m' w' r'"
      and body: "with_db (Commit (db_ops E')) m' w' \<bind>
        (\<lambda>(commit_status, m, w). if absl_ok commit_status then Some (m, w) else f E' m w) = Some r'"
      and E': "E' = E"
    from body obtain st m1 w1 where c: "with_db (Commit (db_ops E)) m' w' = Some (st, m1, w1)"
      and rest: "(if absl_ok st then Some (m1, w1) else f E m1 w1) = Some r'"
      unfolding E' by (auto elim!: bind_elims)
    show "P m' w' r'"
      using rest committed [OF c] again [OF c] IH by (cases "absl_ok st") auto
  qed
  with ret show ?thesis by blast
qed

lemma commit_until_ok_first:
  "with_db (Commit (db_ops E)) m w = Some (st, m1, w1) \<Longrightarrow> absl_ok st \<Longrightarrow>
   commit_until_ok E m w = Some (m1, w1)"
  by (subst commit_until_ok.simps) simp

text \<open>The commit loop returns if and only if some commit succeeds, after finitely many that fail.\<close>

definition commit_attempt ::
  "('d, 'w) cohort_env \<Rightarrow> 'd txn_metadata \<times> 'w \<Rightarrow> (('d txn_metadata \<times> 'w) + 'd txn_metadata \<times> 'w) option" where
  "commit_attempt E = (\<lambda>(m, w). map_option (\<lambda>(st, m1, w1). if absl_ok st then Inl (m1, w1) else Inr (m1, w1))
     (with_db (Commit (db_ops E)) m w))"

lemma commit_attempt_simps [simp]:
  "commit_attempt E (m, w) = map_option (\<lambda>(st, m1, w1). if absl_ok st then Inl (m1, w1) else Inr (m1, w1))
     (with_db (Commit (db_ops E)) m w)"
  by (simp add: commit_attempt_def)

interpretation committing: retry_loop "\<lambda>(m, w). commit_until_ok E m w" "commit_attempt E"
  for E :: "('d, 'w) cohort_env"
proof
  fix x :: "'d txn_metadata \<times> 'w" and r and P :: "'d txn_metadata \<times> 'w \<Rightarrow> 'd txn_metadata \<times> 'w \<Rightarrow> bool"
  show "(case x of (m, w) \<Rightarrow> commit_until_ok E m w) = (case commit_attempt E x of None \<Rightarrow> None | Some (Inl r) \<Rightarrow> Some r
      | Some (Inr x') \<Rightarrow> (case x' of (m, w) \<Rightarrow> commit_until_ok E m w))"
    by (cases x) (subst (1) commit_until_ok.simps, auto split: option.split)
  assume ret: "(case x of (m, w) \<Rightarrow> commit_until_ok E m w) = Some r"
    and good: "\<And>x r. commit_attempt E x = Some (Inl r) \<Longrightarrow> P x r"
    and retry: "\<And>x x' r. commit_attempt E x = Some (Inr x') \<Longrightarrow> P x' r \<Longrightarrow> P x r"
  have run: "P (m, w) r" if "commit_until_ok E m w = Some r" for m w r
    using that
  proof (induction rule: commit_until_ok_induct)
    case (committed m w st m1 w1)
    then show ?case by (intro good) simp
  next
    case (again m w st m1 w1 r)
    show ?case by (rule retry [where x' = "(m1, w1)"]) (use again in simp_all)
  qed
  obtain a b where x: "x = (a, b)" by (rule prod.exhaust)
  show "P x r" unfolding x by (rule run, rule ret [unfolded x prod.case])
qed

end
