(* ===== verification/Cohort_Trace.thy ===== *)
theory Cohort_Trace
  imports Cohort_Locking Cohort_Loops
begin

text \<open>
  What one run of \<open>ProcessTransaction\<close> does to the outside, in order. \<open>traced E\<close> is the environment
  \<open>E\<close> whose world also records an event for every call that matters: locks, database, votes,
  polls of the decision and files. The theorems here hold for every environment: a run that returns
  leaves a final result, has released exactly the locks it took, all of them after the database
  ended the transaction, and voted according to the commit protocol.
\<close>

datatype event =
    LockedRead nat | LockedWrite nat | UnlockedRead nat | UnlockedWrite nat
  | DbBegan | DbGot | DbPut | DbCommitted absl_status | DbAborted absl_status
  | Voted string int ballot | Polled string "absl_status + voting_decision" | Wrote string bool

type_synonym 'w traced_world = "'w \<times> event list"

definition trace_db ::
  "('r \<Rightarrow> event) \<Rightarrow> ('d \<Rightarrow> 'w \<Rightarrow> ('r \<times> 'd \<times> 'w) option) \<Rightarrow>
   'd \<Rightarrow> 'w traced_world \<Rightarrow> ('r \<times> 'd \<times> 'w traced_world) option" where
  "trace_db ev call d x = (case x of (w, tr) \<Rightarrow>
     do { (r, d, w) \<leftarrow> call d w; Some (r, d, (w, tr @ [ev r])) })"

definition traced_db :: "('d, 'w) db_adapter \<Rightarrow> ('d, 'w traced_world) db_adapter" where
  "traced_db A = \<lparr>
     SupportsConcurrentWrites = SupportsConcurrentWrites A,
     Begin = trace_db (\<lambda>_. DbBegan) (Begin A),
     BeginReadOnly = trace_db (\<lambda>_. DbBegan) (BeginReadOnly A),
     Commit = trace_db DbCommitted (Commit A),
     Abort = trace_db DbAborted (Abort A),
     Get = (\<lambda>d k. trace_db (\<lambda>_. DbGot) (\<lambda>d w. Get A d k w) d),
     Put = (\<lambda>d k v. trace_db (\<lambda>_. DbPut) (\<lambda>d w. Put A d k v w) d)\<rparr>"

definition traced_stub :: "'w adapter_stub \<Rightarrow> 'w traced_world adapter_stub" where
  "traced_stub stub = \<lparr>
     stub_StartVoting = (\<lambda>req (w, tr). map_option (\<lambda>(st, w). (st, w, tr)) (stub_StartVoting stub req w)),
     stub_Vote = (\<lambda>req (w, tr). map_option (\<lambda>(st, w). (st, w, tr @ [Voted (vr_transaction_id req) (vr_cohort_id req) (vr_ballot req)])) (stub_Vote stub req w)),
     stub_GetVotingDecision = (\<lambda>req (w, tr). map_option
        (\<lambda>(st, r, w). (st, r, w, tr @ [Polled (dr_transaction_id req) (if \<not> grpc_ok st then Inl (FromGrpcStatus st ''Failed to vote'')
                                               else Inr (dr_decision r))]))
        (stub_GetVotingDecision stub req w)),
     stub_GetHeartBeat = (\<lambda>(w, tr). map_option (\<lambda>(st, r, w). (st, r, w, tr)) (stub_GetHeartBeat stub w))\<rparr>"

definition traced :: "('d, 'w) cohort_env \<Rightarrow> ('d, 'w traced_world) cohort_env" where
  "traced E = \<lparr>
     ReaderLockWhenWithDeadline = (\<lambda>mx dl (w, tr). map_option
        (\<lambda>(got, w). (got, w, if got then tr @ [LockedRead mx] else tr)) (ReaderLockWhenWithDeadline E mx dl w)),
     WriterLockWhenWithDeadline = (\<lambda>mx dl (w, tr). map_option
        (\<lambda>(got, w). (got, w, if got then tr @ [LockedWrite mx] else tr)) (WriterLockWhenWithDeadline E mx dl w)),
     ReaderUnlock = (\<lambda>mx (w, tr). (ReaderUnlock E mx w, tr @ [UnlockedRead mx])),
     WriterUnlock = (\<lambda>mx (w, tr). (WriterUnlock E mx w, tr @ [UnlockedWrite mx])),
     iter_keys = iter_keys E,
     db_ops = traced_db (db_ops E),
     db_transaction_adapter_creator = (\<lambda>(w, tr). map_option (\<lambda>(d, w). (d, w, tr)) (db_transaction_adapter_creator E w)),
     blockchain_stub = traced_stub (blockchain_stub E),
     file_write = (\<lambda>p c (w, tr). case file_write E p c w of (b, w) \<Rightarrow> (b, w, tr @ [Wrote p b])),
     Now = (\<lambda>(w, tr). Now E w),
     sleep_for_us = (\<lambda>us (w, tr). (sleep_for_us E us w, tr)),
     sleep_until = (\<lambda>t (w, tr). (sleep_until E t w, tr)),
     uninit_abort_reason = (\<lambda>(w, tr). uninit_abort_reason E w),
     db_txn_response_dir = db_txn_response_dir E\<rparr>"

lemma traced_db_simps [simp]:
  "SupportsConcurrentWrites (traced_db A) = SupportsConcurrentWrites A"
  "Begin (traced_db A) = trace_db (\<lambda>_. DbBegan) (Begin A)"
  "BeginReadOnly (traced_db A) = trace_db (\<lambda>_. DbBegan) (BeginReadOnly A)"
  "Commit (traced_db A) = trace_db DbCommitted (Commit A)"
  "Abort (traced_db A) = trace_db DbAborted (Abort A)"
  "Get (traced_db A) d k = trace_db (\<lambda>_. DbGot) (\<lambda>d w. Get A d k w) d"
  "Put (traced_db A) d k v = trace_db (\<lambda>_. DbPut) (\<lambda>d w. Put A d k v w) d"
  by (simp_all add: traced_db_def)

lemma traced_simps [simp]:
  "db_ops (traced E) = traced_db (db_ops E)"
  "blockchain_stub (traced E) = traced_stub (blockchain_stub E)"
  "iter_keys (traced E) = iter_keys E"
  "db_txn_response_dir (traced E) = db_txn_response_dir E"
  "ReaderUnlock (traced E) mx (w, tr) = (ReaderUnlock E mx w, tr @ [UnlockedRead mx])"
  "WriterUnlock (traced E) mx (w, tr) = (WriterUnlock E mx w, tr @ [UnlockedWrite mx])"
  "sleep_for_us (traced E) us (w, tr) = (sleep_for_us E us w, tr)"
  "sleep_until (traced E) t (w, tr) = (sleep_until E t w, tr)"
  "Now (traced E) (w, tr) = Now E w"
  "uninit_abort_reason (traced E) (w, tr) = uninit_abort_reason E w"
  by (simp_all add: traced_def)

lemma traced_read_lock [bind_elims]:
  "ReaderLockWhenWithDeadline (traced E) mx dl (w, tr) = Some (got, x) \<Longrightarrow>
   (\<And>w'. x = (w', if got then tr @ [LockedRead mx] else tr) \<Longrightarrow> P) \<Longrightarrow> P"
  by (auto simp: traced_def)

lemma traced_write_lock [bind_elims]:
  "WriterLockWhenWithDeadline (traced E) mx dl (w, tr) = Some (got, x) \<Longrightarrow>
   (\<And>w'. x = (w', if got then tr @ [LockedWrite mx] else tr) \<Longrightarrow> P) \<Longrightarrow> P"
  by (auto simp: traced_def)

lemma traced_creator [bind_elims]:
  "db_transaction_adapter_creator (traced E) (w, tr) = Some (d, x) \<Longrightarrow>
   (\<And>w'. x = (w', tr) \<Longrightarrow> P) \<Longrightarrow> P"
  by (auto simp: traced_def)

lemma traced_vote [bind_elims]:
  "bc_Vote (traced_stub stub) tid i b (w, tr) = Some (st, x) \<Longrightarrow>
   (\<And>w'. x = (w', tr @ [Voted tid i b]) \<Longrightarrow> P) \<Longrightarrow> P"
  by (auto simp: bc_Vote_def traced_stub_def Let_def elim!: bind_elims)

lemma traced_decision [bind_elims]:
  "bc_GetVotingDecision (traced_stub stub) tid (w, tr) = Some (r, x) \<Longrightarrow>
   (\<And>w'. x = (w', tr @ [Polled tid r]) \<Longrightarrow> P) \<Longrightarrow> P"
  by (auto simp: bc_GetVotingDecision_def traced_stub_def elim!: bind_elims)

lemma trace_db_returns [bind_elims]:
  "trace_db ev call d (w, tr) = Some (r, d', x) \<Longrightarrow> (\<And>w'. x = (w', tr @ [ev r]) \<Longrightarrow> P) \<Longrightarrow> P"
  by (auto simp: trace_db_def elim!: bind_elims)

text \<open>Calls on the database change nothing of the metadata but the adapter object.\<close>

definition same_locks :: "'d txn_metadata \<Rightarrow> 'd txn_metadata \<Rightarrow> bool" where
  "same_locks m m' \<longleftrightarrow> read_lock_keys m' = read_lock_keys m \<and> write_lock_keys m' = write_lock_keys m \<and>
     has_whole_db_read_lock m' = has_whole_db_read_lock m \<and>
     has_whole_db_write_lock m' = has_whole_db_write_lock m"

lemma same_locks_refl [simp]: "same_locks m m"
  by (simp add: same_locks_def)

lemma same_locks_trans: "same_locks m m' \<Longrightarrow> same_locks m' m'' \<Longrightarrow> same_locks m m''"
  by (simp add: same_locks_def)

lemma same_locks_upd [simp]:
  "same_locks m (m'\<lparr>md_db := d\<rparr>) = same_locks m m'"
  "same_locks m (m'\<lparr>md_response := r\<rparr>) = same_locks m m'"
  "same_locks m (add_get_response g m') = same_locks m m'"
  by (simp_all add: same_locks_def add_get_response_def)

lemma with_db_traced [bind_elims]:
  "with_db (\<lambda>d. trace_db ev call d) m (w, tr) = Some (r, m', x) \<Longrightarrow>
   (\<And>w' d. x = (w', tr @ [ev r]) \<Longrightarrow> m' = m\<lparr>md_db := Some d\<rparr> \<Longrightarrow> P) \<Longrightarrow> P"
  by (auto simp: with_db_def elim!: bind_elims)

lemma with_db_traced' [bind_elims]:
  "with_db (trace_db ev call) m (w, tr) = Some (r, m', x) \<Longrightarrow>
   (\<And>w' d. x = (w', tr @ [ev r]) \<Longrightarrow> m' = m\<lparr>md_db := Some d\<rparr> \<Longrightarrow> P) \<Longrightarrow> P"
  by (auto simp: with_db_def elim!: bind_elims)

subsection \<open>Kinds of events\<close>

fun is_lock :: "event \<Rightarrow> bool" where
  "is_lock (LockedRead _) = True" | "is_lock (LockedWrite _) = True" | "is_lock _ = False"

fun is_unlock :: "event \<Rightarrow> bool" where
  "is_unlock (UnlockedRead _) = True" | "is_unlock (UnlockedWrite _) = True" | "is_unlock _ = False"

fun unlock_of :: "event \<Rightarrow> event" where
  "unlock_of (LockedRead m) = UnlockedRead m" | "unlock_of (LockedWrite m) = UnlockedWrite m" | "unlock_of e = e"

text \<open>Database work before the end of a transaction: neither locks nor protocol.\<close>

fun is_work :: "event \<Rightarrow> bool" where
  "is_work DbBegan = True" | "is_work DbGot = True" | "is_work DbPut = True" | "is_work (Wrote _ _) = True"
| "is_work _ = False"

definition extends :: "(event \<Rightarrow> bool) \<Rightarrow> event list \<Rightarrow> event list \<Rightarrow> bool" where
  "extends K tr tr' \<longleftrightarrow> (\<exists>es. tr' = tr @ es \<and> (\<forall>e \<in> set es. K e))"

lemma extends_refl [simp]: "extends K tr tr"
  by (simp add: extends_def)

lemma extends_snoc [simp]: "K e \<Longrightarrow> extends K tr (tr @ [e])"
  by (simp add: extends_def)

lemma extends_snoc2 [simp]: "K e \<Longrightarrow> K e' \<Longrightarrow> extends K tr (tr @ [e, e'])"
  by (simp add: extends_def)

lemma extends_trans: "extends K tr tr' \<Longrightarrow> extends K tr' tr'' \<Longrightarrow> extends K tr tr''"
  by (auto simp: extends_def)

lemma ProcessOperationInDb_traced:
  assumes "ProcessOperationInDb (traced E) op m (w, tr) = Some (st, m', w', tr')"
  shows "extends is_work tr tr' \<and> same_locks m m'"
  using assms unfolding ProcessOperationInDb_def
  by (auto elim!: bind_elims split: put_value.splits sum.splits if_splits
      simp del: has_get.simps has_put.simps the_get.simps the_put.simps)

lemma process_ops_traced:
  assumes "process_ops (traced E) ops (m, w, tr) = Some (st, m', w', tr')"
  shows "extends is_work tr tr' \<and> same_locks m m'"
  using assms
proof (induction ops arbitrary: m w tr)
  case Nil
  then show ?case by simp
next
  case (Cons op ops)
  from Cons.prems show ?case
    by (auto elim!: bind_elims dest!: ProcessOperationInDb_traced Cons.IH
        intro: extends_trans same_locks_trans)
qed

subsection \<open>The locks a transaction holds\<close>

text \<open>The lock events that the metadata stands for, through the lock table.\<close>

definition mutex_of :: "'d cohort_server \<Rightarrow> string \<Rightarrow> nat" where
  "mutex_of s k = the (locks_by_key s k)"

definition held :: "'d txn_metadata \<Rightarrow> 'd cohort_server \<Rightarrow> event multiset" where
  "held m s =
     mset (map (LockedRead \<circ> mutex_of s) (read_lock_keys m)) +
     mset (map (LockedWrite \<circ> mutex_of s) (write_lock_keys m)) +
     (if has_whole_db_read_lock m then {#LockedRead whole_db_mutex#} else {#}) +
     (if has_whole_db_write_lock m then {#LockedWrite whole_db_mutex#} else {#})"

definition keys_known :: "'d txn_metadata \<Rightarrow> 'd cohort_server \<Rightarrow> bool" where
  "keys_known m s \<longleftrightarrow> (\<forall>k \<in> set (read_lock_keys m) \<union> set (write_lock_keys m). locks_by_key s k \<noteq> None)"

definition holds :: "'d txn_metadata \<Rightarrow> 'd cohort_server \<Rightarrow> event list \<Rightarrow> bool" where
  "holds m s tr \<longleftrightarrow> keys_known m s \<and> (\<forall>e \<in> set tr. is_lock e \<or> is_work e) \<and>
     filter_mset is_lock (mset tr) = held m s"

lemma mutex_of_grows:
  "grows s s' \<Longrightarrow> locks_by_key s k \<noteq> None \<Longrightarrow> mutex_of s' k = mutex_of s k"
  by (auto simp: mutex_of_def dest: growsD)

lemma known_grows: "grows s s' \<Longrightarrow> locks_by_key s k \<noteq> None \<Longrightarrow> locks_by_key s' k \<noteq> None"
  by (auto dest: growsD)

lemma held_grows: "grows s s' \<Longrightarrow> keys_known m s \<Longrightarrow> held m s' = held m s"
proof -
  assume "grows s s'" "keys_known m s"
  then have "map (f \<circ> mutex_of s') (read_lock_keys m) = map (f \<circ> mutex_of s) (read_lock_keys m)"
    and "map (f \<circ> mutex_of s') (write_lock_keys m) = map (f \<circ> mutex_of s) (write_lock_keys m)"
    for f :: "nat \<Rightarrow> event"
    by (auto simp: keys_known_def mutex_of_grows)
  then show ?thesis by (simp only: held_def)
qed

lemma keys_known_grows: "grows s s' \<Longrightarrow> keys_known m s \<Longrightarrow> keys_known m s'"
  unfolding keys_known_def by (metis known_grows)

lemma held_same_locks: "same_locks m m' \<Longrightarrow> held m' s = held m s"
  by (simp add: same_locks_def held_def)

lemma holds_work:
  "holds m s tr \<Longrightarrow> extends is_work tr tr' \<Longrightarrow> same_locks m m' \<Longrightarrow> holds m' s tr'"
proof -
  assume h: "holds m s tr" and "extends is_work tr tr'" and same: "same_locks m m'"
  then obtain es where es: "tr' = tr @ es" "\<forall>e \<in> set es. is_work e" by (auto simp: extends_def)
  have "\<not> is_lock e" if "is_work e" for e using that by (cases e) auto
  then have "filter_mset is_lock (mset es) = {#}" using es(2) by auto
  then show ?thesis using h es same held_same_locks [OF same]
    by (auto simp: holds_def keys_known_def same_locks_def)
qed

lemma holds_read_lock:
  assumes "holds m s tr"
  shows "holds (m\<lparr>read_lock_keys := read_lock_keys m @ [k]\<rparr>) (snd (GetLock k s))
    (tr @ [LockedRead (fst (GetLock k s))])"
  using assms held_grows [of s "snd (GetLock k s)" m] keys_known_grows [of s "snd (GetLock k s)" m]
  by (auto simp: holds_def held_def keys_known_def mutex_of_def)

lemma holds_write_lock:
  assumes "holds m s tr"
  shows "holds (m\<lparr>write_lock_keys := write_lock_keys m @ [k]\<rparr>) (snd (GetLock k s))
    (tr @ [LockedWrite (fst (GetLock k s))])"
  using assms held_grows [of s "snd (GetLock k s)" m] keys_known_grows [of s "snd (GetLock k s)" m]
  by (auto simp: holds_def held_def keys_known_def mutex_of_def)

lemma holds_GetLock: "holds m s tr \<Longrightarrow> holds m (snd (GetLock k s)) tr"
  using held_grows [of s "snd (GetLock k s)" m] keys_known_grows [of s "snd (GetLock k s)" m]
  by (auto simp: holds_def)

lemma lock_for_read_holds:
  assumes "lock_for_read (traced E) dl keys (m, s, w, tr) = Some (st, m', s', w', tr')"
    and "holds m s tr"
  shows "holds m' s' tr'"
  using assms
proof (induction keys arbitrary: m s w tr)
  case Nil
  then show ?case by simp
next
  case (Cons k keys)
  obtain mx s1 where g: "GetLock k s = (mx, s1)" by fastforce
  note steps = holds_read_lock [OF Cons.prems(2), of k] holds_GetLock [OF Cons.prems(2), of k]
  from Cons.prems(1) g steps show ?case
    by (auto elim!: bind_elims intro: Cons.IH split: if_splits)
qed

lemma lock_for_write_holds:
  assumes "lock_for_write (traced E) dl keys (m, s, w, tr) = Some (st, m', s', w', tr')"
    and "holds m s tr"
  shows "holds m' s' tr'"
  using assms
proof (induction keys arbitrary: m s w tr)
  case Nil
  then show ?case by simp
next
  case (Cons k keys)
  obtain mx s1 where g: "GetLock k s = (mx, s1)" by fastforce
  note steps = holds_write_lock [OF Cons.prems(2), of k] holds_GetLock [OF Cons.prems(2), of k]
  from Cons.prems(1) g steps show ?case
    by (auto elim!: bind_elims intro: Cons.IH split: if_splits)
qed

lemma AcquireWholeDbLock_holds:
  assumes "AcquireWholeDbLock (traced E) ops dl m (w, tr) = Some (st, m', w', tr')"
    and "holds m s tr" and "\<not> has_whole_db_read_lock m" and "\<not> has_whole_db_write_lock m"
  shows "holds m' s tr'"
  using assms unfolding AcquireWholeDbLock_def
  by (auto elim!: bind_elims simp: holds_def held_def keys_known_def split: prod.splits if_splits)

lemma AcquireDbLocks_holds:
  assumes acq: "AcquireDbLocks (traced E) ops dl m s (w, tr) = Some (st, m', s', w', tr')"
    and h: "holds m s tr" and "\<not> has_whole_db_read_lock m" and "\<not> has_whole_db_write_lock m"
  shows "holds m' s' tr'"
proof -
  obtain d where d: "md_db m = Some d" using acq by (auto simp: AcquireDbLocks_def elim!: bind_elims)
  obtain wk rk where sk: "split_keys ops [] [] = (wk, rk)" by fastforce
  show ?thesis
  proof (cases "SupportsConcurrentWrites (db_ops E) d")
    case False
    with acq d have "AcquireWholeDbLock (traced E) ops dl m (w, tr) = Some (st, m', w', tr')" "s' = s"
      by (auto simp: AcquireDbLocks_def elim!: bind_elims)
    then show ?thesis using AcquireWholeDbLock_holds [OF _ assms(2-4)] by simp
  next
    case True
    with acq d sk have "return_if_error (lock_for_read (traced E) dl (iter_keys E rk) (m, s, w, tr))
        (lock_for_write (traced E) dl (iter_keys E wk)) = Some (st, m', s', w', tr')"
      by (auto simp: AcquireDbLocks_def)
    then show ?thesis
      by (auto elim!: bind_elims dest!: lock_for_read_holds [OF _ h] lock_for_write_holds)
  qed
qed

lemma ProcessTransactionInDb_holds:
  assumes "ProcessTransactionInDb (traced E) ops dl m s (w, tr) = Some (st, m', s', w', tr')"
    and "holds m s tr" and "\<not> has_whole_db_read_lock m" and "\<not> has_whole_db_write_lock m"
  shows "holds m' s' tr' \<and> grows s s'"
proof -
  from assms(1) obtain st1 m1 s1 w1 tr1 where
    acq: "AcquireDbLocks (traced E) ops dl m s (w, tr) = Some (st1, m1, s1, w1, tr1)"
    by (auto simp: ProcessTransactionInDb_def elim!: bind_elims)
  then have h: "holds m1 s1 tr1" and g: "grows s s1"
    using assms(2-4) by (auto dest: AcquireDbLocks_holds AcquireDbLocks_grows)
  have began: "extends is_work tr1 tr2 \<and> same_locks m1 m2"
    if "extends is_work (tr1 @ [DbBegan]) tr2" "same_locks (m1\<lparr>md_db := d\<rparr>) m2" for tr2 m2 d
    using that extends_trans [of is_work tr1 "tr1 @ [DbBegan]" tr2] by (simp add: same_locks_def)
  show ?thesis using assms(1) acq g h holds_work [OF h] began
    by (auto simp: ProcessTransactionInDb_def elim!: bind_elims dest!: process_ops_traced
        split: if_splits)
qed

subsection \<open>How a transaction ends\<close>

text \<open>
  Failed commits of the database before the one that succeeds; polls of the decision that leave it
  open: an error of the call, a pending or an unknown decision.
\<close>

fun commit_tries :: "event list \<Rightarrow> bool" where
  "commit_tries (DbCommitted st # es) = (if absl_ok st then es = [] else commit_tries es)"
| "commit_tries _ = False"

fun undecided :: "string \<Rightarrow> event \<Rightarrow> bool" where
  "undecided tid (Polled tid' p) = (tid' = tid \<and> \<not> definite (poll_decision p))"
| "undecided tid _ = False"

lemma commit_until_ok_traced:
  assumes "commit_until_ok (traced E) m (w, tr) = Some (m', w', tr')"
  shows "\<exists>es d. tr' = tr @ es \<and> commit_tries es \<and> m' = m\<lparr>md_db := d\<rparr>"
proof -
  have "\<exists>es d. snd (snd r) = snd x @ es \<and> commit_tries es \<and> fst r = m\<lparr>md_db := d\<rparr>"
    if "commit_until_ok (traced E) m x = Some r" for x r
    using that
  proof (induction rule: commit_until_ok_induct)
    case (committed m x st m1 x1)
    then show ?case
      by (cases x) (auto elim!: bind_elims intro!: exI [of _ "[DbCommitted st]"])
  next
    case (again m x st m1 x1 r)
    from again.IH obtain es d where "snd (snd r) = snd x1 @ es" "commit_tries es" "fst r = m1\<lparr>md_db := d\<rparr>"
      by blast
    with again.hyps show ?case
      by (cases x) (auto elim!: bind_elims intro!: exI [of _ "DbCommitted st # es"])
  qed
  from this [OF assms] show ?thesis by simp
qed

lemma nap_traced [simp]: "snd (nap (traced E) t waited (w, tr)) = tr"
  by (simp add: nap_def)

lemma Wait_traced:
  assumes "WaitForBlockchainDecision (traced E) tid t waited (w, tr) = Some (dec, w', tr')"
  shows "\<exists>ps. tr' = tr @ ps @ [Polled tid (Inr dec)] \<and> (\<forall>e \<in> set ps. undecided tid e) \<and> definite dec"
proof -
  have "\<exists>ps. snd (snd r) = snd x @ ps @ [Polled tid (Inr (fst r))] \<and> (\<forall>e \<in> set ps. undecided tid e)"
    if "WaitForBlockchainDecision (traced E) tid t waited x = Some r" for x r
    using that
  proof (induction rule: Wait_induct)
    case (decided waited x p x1)
    then show ?case by (cases x; cases p) (auto elim!: bind_elims)
  next
    case (again waited x p x1 r)
    from again.IH obtain ps where ps: "snd (snd r) = snd (nap (traced E) t waited x1) @ ps @ [Polled tid (Inr (fst r))]"
      "\<forall>e \<in> set ps. undecided tid e" by blast
    have "undecided tid (Polled tid p)" using again.hyps(2) by simp
    with again.hyps(1) ps show ?case
      by (cases x) (auto elim!: bind_elims intro!: exI [of _ "Polled tid p # ps"])
  qed
  from this [OF assms] Wait_definite [OF assms] show ?thesis by simp
qed

text \<open>Releasing emits the unlock of every lock held and deletes the metadata.\<close>

lemma unlock_keys_traced:
  assumes "\<forall>k \<in> set ks. locks_by_key s k \<noteq> None"
    and "\<And>mx w tr. unlock mx (w, tr) = (u mx w, tr @ [ev mx])"
  shows "\<exists>w'. unlock_keys unlock ks (s, w, tr) = (s, w', tr @ map (ev \<circ> mutex_of s) ks)"
  using assms(1)
proof (induction ks arbitrary: w tr)
  case Nil
  then show ?case by (simp add: unlock_keys_def)
next
  case (Cons k ks)
  then obtain mx where "locks_by_key s k = Some mx" by auto
  moreover obtain w' where "unlock_keys unlock ks (s, u mx w, tr @ [ev mx]) =
      (s, w', (tr @ [ev mx]) @ map (ev \<circ> mutex_of s) ks)"
    using Cons.IH Cons.prems by (metis list.set_intros(2))
  ultimately show ?case
    by (simp add: unlock_keys_def GetLock_known assms(2) mutex_of_def)
qed

definition released :: "string \<Rightarrow> 'd txn_metadata \<Rightarrow> 'd cohort_server \<Rightarrow> 'd cohort_server" where
  "released tid m s = s\<lparr>final_response_by_transaction_id :=
       (final_response_by_transaction_id s)(tid \<mapsto> md_response m),
     metadata_by_transaction_id := (metadata_by_transaction_id s)(tid := None)\<rparr>"

lemma Release_traced:
  assumes "keys_known (metadata_of s tid) s"
    and "ReleaseLocksAndDeleteMetadata (traced E) tid s (w, tr) = (s', w', tr')"
  shows "s' = released tid (metadata_of s tid) s \<and>
    (\<exists>us. tr' = tr @ us \<and> (\<forall>e \<in> set us. is_unlock e) \<and>
      mset us = image_mset unlock_of (held (metadata_of s tid) s))"
proof -
  let ?m = "metadata_of s tid"
  have *: "\<forall>k \<in> set (write_lock_keys ?m). locks_by_key s k \<noteq> None"
    "\<forall>k \<in> set (read_lock_keys ?m). locks_by_key s k \<noteq> None"
    using assms(1) by (auto simp: keys_known_def)
  obtain w1 where u1: "unlock_keys (WriterUnlock (traced E)) (write_lock_keys ?m) (s, w, tr) =
      (s, w1, tr @ map (UnlockedWrite \<circ> mutex_of s) (write_lock_keys ?m))" (is "_ = (s, w1, ?tr1)")
    using unlock_keys_traced [OF *(1), where unlock = "WriterUnlock (traced E)" and u = "WriterUnlock E"
      and ev = UnlockedWrite and w = w and tr = tr] by auto
  obtain w2 where u2: "unlock_keys (ReaderUnlock (traced E)) (read_lock_keys ?m) (s, w1, ?tr1) =
      (s, w2, ?tr1 @ map (UnlockedRead \<circ> mutex_of s) (read_lock_keys ?m))"
    using unlock_keys_traced [OF *(2), where unlock = "ReaderUnlock (traced E)" and u = "ReaderUnlock E"
      and ev = UnlockedRead and w = w1 and tr = ?tr1] by auto
  have o: "unlock_of \<circ> (LockedWrite \<circ> f) = UnlockedWrite \<circ> f" "unlock_of \<circ> (LockedRead \<circ> f) = UnlockedRead \<circ> f"
    for f :: "string \<Rightarrow> nat" by auto
  show ?thesis
    using assms(2) u1 u2
    by (auto simp: ReleaseLocksAndDeleteMetadata_def Let_def released_def held_def
        image_mset.compositionality o split: if_splits)
qed

subsection \<open>The commit protocol of one cohort\<close>

text \<open>
  The ways a transaction can end, as the events from the first vote (or the commit of a
  transaction with one participant) to the end of the database transaction. The last argument says
  whether the cohort committed.
\<close>

abbreviation own_vote :: "prepare_request \<Rightarrow> ballot \<Rightarrow> event" where
  "own_vote req b \<equiv> Voted (req_transaction_id req) (int (cohort_index req)) b"

abbreviation own_poll :: "prepare_request \<Rightarrow> voting_decision \<Rightarrow> event" where
  "own_poll req d \<equiv> Polled (req_transaction_id req) (Inr d)"

inductive cohort_run :: "prepare_request \<Rightarrow> event list \<Rightarrow> bool \<Rightarrow> bool" for req where
  not_prepared: "cohort_run req [own_vote req BALLOT_ABORT, DbAborted st] False"
| sole_participant: "only_cohort req \<Longrightarrow> commit_tries es \<Longrightarrow> cohort_run req es True"
| decided_commit: "\<not> only_cohort req \<Longrightarrow> \<forall>e \<in> set ps. undecided (req_transaction_id req) e \<Longrightarrow> commit_tries es \<Longrightarrow>
    cohort_run req (own_vote req BALLOT_COMMIT # ps @ [own_poll req VOTING_DECISION_COMMIT] @ es) True"
| decided_abort: "\<not> only_cohort req \<Longrightarrow> \<forall>e \<in> set ps. undecided (req_transaction_id req) e \<Longrightarrow>
    cohort_run req (own_vote req BALLOT_COMMIT # ps @ [own_poll req VOTING_DECISION_ABORT, DbAborted st]) False"

definition unlocks :: "event list \<Rightarrow> event multiset \<Rightarrow> bool" where
  "unlocks us ls \<longleftrightarrow> (\<forall>e \<in> set us. is_unlock e) \<and> mset us = image_mset unlock_of ls"

text \<open>The server after a transaction with identifier \<open>tid\<close> ended with result \<open>r\<close>.\<close>

definition ended :: "string \<Rightarrow> cohort_result \<Rightarrow> 'd cohort_server \<Rightarrow> 'd cohort_server \<Rightarrow> bool" where
  "ended tid r s s' \<longleftrightarrow>
     final_response_by_transaction_id s' = (final_response_by_transaction_id s)(tid \<mapsto> r) \<and>
     metadata_by_transaction_id s' = (metadata_by_transaction_id s)(tid := None)"

lemma metadata_of_set [simp]: "metadata_of (set_metadata tid m s) tid = m"
  by (simp add: metadata_of_def set_metadata_def)

lemma set_metadata_simps [simp]:
  "locks_by_key (set_metadata tid m s) = locks_by_key s"
  "final_response_by_transaction_id (set_metadata tid m s) = final_response_by_transaction_id s"
  "metadata_by_transaction_id (set_metadata tid m s) = (metadata_by_transaction_id s)(tid \<mapsto> m)"
  by (simp_all add: set_metadata_def)

lemma mutex_of_set_metadata [simp]: "mutex_of (set_metadata tid m s) = mutex_of s"
  by (simp add: mutex_of_def fun_eq_iff)

lemma held_set_metadata [simp]: "held m' (set_metadata tid m s) = held m' s"
  by (simp add: held_def)

lemma keys_known_set_metadata [simp]: "keys_known m' (set_metadata tid m s) = keys_known m' s"
  by (simp add: keys_known_def)

lemma end_traced:
  assumes "keys_known m s" and "same_locks m m'"
    and "ReleaseLocksAndDeleteMetadata (traced E) tid (set_metadata tid m' s) (w, tr) = (s', w', tr')"
  shows "ended tid (md_response m') s s' \<and> (\<exists>us. tr' = tr @ us \<and> unlocks us (held m s))"
proof -
  have "keys_known (metadata_of (set_metadata tid m' s) tid) (set_metadata tid m' s)"
    using assms(1,2) by (auto simp: keys_known_def same_locks_def)
  from Release_traced [OF this assms(3)] show ?thesis
    using held_same_locks [OF assms(2), of s]
    by (auto simp: ended_def released_def unlocks_def)
qed

lemma AbortTransaction_traced:
  assumes ret: "AbortTransaction (traced E) tid i ast s (w, tr) = Some (s', w', tr')"
    and "keys_known (metadata_of s tid) s"
  shows "\<exists>st us reason. tr' = tr @ (if ast = None then [] else [Voted tid i BALLOT_ABORT]) @ DbAborted st # us \<and>
    unlocks us (held (metadata_of s tid) s) \<and> ended tid (CohortAborted reason) s s' \<and>
    (\<forall>st. ast = Some st \<longrightarrow> reason = abort_reason_for st)"
proof -
  let ?votes = "if ast = None then [] else [Voted tid i BALLOT_ABORT]"
  let ?m = "metadata_of s tid"
  from ret obtain reason w1 st d w2 where
    reason: "\<forall>st. ast = Some st \<longrightarrow> reason = abort_reason_for st" and
    rel: "ReleaseLocksAndDeleteMetadata (traced E) tid
      (set_metadata tid (?m\<lparr>md_response := CohortAborted reason, md_db := Some d\<rparr>) s)
      (w2, (tr @ ?votes) @ [DbAborted st]) = (s', w', tr')"
    unfolding AbortTransaction_def by (cases ast) (auto elim!: bind_elims)
  have "same_locks ?m (?m\<lparr>md_response := CohortAborted reason, md_db := Some d\<rparr>)" by simp
  from end_traced [OF assms(2) this rel] reason show ?thesis by auto
qed

lemma CommitTransaction_traced:
  assumes ret: "CommitTransaction (traced E) tid s (w, tr) = Some (s', w', tr')"
    and "keys_known (metadata_of s tid) s"
  shows "\<exists>es us. tr' = tr @ es @ us \<and> commit_tries es \<and> unlocks us (held (metadata_of s tid) s) \<and>
    ended tid (mutable_committed (md_response (metadata_of s tid))) s s'"
proof -
  let ?m = "metadata_of s tid"
  from ret obtain m1 w1 tr1 where
    c: "commit_until_ok (traced E) ?m (w, tr) = Some (m1, w1, tr1)" and
    rel: "ReleaseLocksAndDeleteMetadata (traced E) tid
      (set_metadata tid (m1\<lparr>md_response := mutable_committed (md_response m1)\<rparr>) s) (w1, tr1) = (s', w', tr')"
    unfolding CommitTransaction_def by (auto elim!: bind_elims)
  obtain es d where es: "tr1 = tr @ es" "commit_tries es" "m1 = ?m\<lparr>md_db := d\<rparr>"
    using commit_until_ok_traced [OF c] by blast
  have "same_locks ?m (m1\<lparr>md_response := mutable_committed (md_response m1)\<rparr>)"
    using es(3) by simp
  from end_traced [OF assms(2) this rel] es show ?thesis by auto
qed

lemma PersistTransaction_traced:
  assumes "PersistTransaction (traced E) req s (w, tr) = (st, w', tr')"
  shows "extends is_work tr tr'"
  using assms
  by (auto simp: PersistTransaction_def WriteToFile_def traced_def Let_def split: prod.splits if_splits)

text \<open>The answers and the request have been written to their files, and nothing has happened since.\<close>

definition persisted :: "prepare_request \<Rightarrow> event list \<Rightarrow> bool" where
  "persisted req tr \<longleftrightarrow> (\<exists>dir tr0. tr = tr0 @
     [Wrote (dir @ ''/response_'' @ req_transaction_id req @ ''.binarypb'') True,
      Wrote (dir @ ''/request_'' @ req_transaction_id req @ ''.binarypb'') True])"

lemma PersistTransaction_persists:
  assumes "PersistTransaction (traced E) req s (w, tr) = (st, w', tr')" and "absl_ok st"
  shows "persisted req tr'"
  using assms
  by (auto simp: PersistTransaction_def WriteToFile_def traced_def Let_def internal_error_def persisted_def
      intro!: exI [of _ "db_txn_response_dir E"] split: prod.splits if_splits)

text \<open>The second half of \<open>ProcessTransaction\<close>, after the work in the database.\<close>

definition finish :: "('d, 'w) cohort_env \<Rightarrow> prepare_request \<Rightarrow> absl_status \<Rightarrow> 'd cohort_server \<Rightarrow> 'w \<Rightarrow>
    ('d cohort_server \<times> 'w) option" where
  "finish E req db_status s w =
     (if \<not> absl_ok db_status
      then AbortTransaction E (req_transaction_id req) (int (cohort_index req)) (Some db_status) s w
      else if only_cohort req then CommitTransaction E (req_transaction_id req) s w
      else let (persist_status, w) = PersistTransaction E req s w in
        if \<not> absl_ok persist_status
        then AbortTransaction E (req_transaction_id req) (int (cohort_index req)) (Some persist_status) s w
        else do {
          (ignored, w) \<leftarrow> bc_Vote (blockchain_stub E) (req_transaction_id req)
            (int (cohort_index req)) BALLOT_COMMIT w;
          (decision, w) \<leftarrow> WaitForBlockchainDecision E (req_transaction_id req)
            (time_of_timestamp (config_time (req_config req))) False w;
          if decision = VOTING_DECISION_COMMIT then CommitTransaction E (req_transaction_id req) s w
          else AbortTransaction E (req_transaction_id req) (int (cohort_index req)) None s w
        })"

lemma ProcessTransaction_finish:
  "ProcessTransaction E req s w =
     do {
       (d, w) \<leftarrow> db_transaction_adapter_creator E w;
       (st, m, s, w) \<leftarrow> ProcessTransactionInDb E (req_transaction req)
         (time_of_timestamp (config_time (req_config req)))
         ((metadata_of s (req_transaction_id req))\<lparr>md_response := CohortPending, md_db := Some d\<rparr>) s w;
       finish E req st (set_metadata (req_transaction_id req) m s) w
     }"
  by (simp add: ProcessTransaction_def finish_def Let_def)

lemma ProcessTransaction_prepares:
  assumes ret: "ProcessTransaction (traced E) req s (w, []) = Some (s', w', tr')"
    and fresh: "metadata_by_transaction_id s (req_transaction_id req) = None"
  obtains m s1 st w1 tr1 where "holds m s1 tr1" "grows s s1"
    "finish (traced E) req st (set_metadata (req_transaction_id req) m s1) (w1, tr1) = Some (s', w', tr')"
proof -
  let ?m0 = "\<lambda>d. fresh_metadata\<lparr>md_response := CohortPending, md_db := Some d\<rparr>"
  have m0: "metadata_of s (req_transaction_id req) = fresh_metadata"
    using fresh by (simp add: metadata_of_def index_default_def)
  from ret obtain d w0 st m s1 w1 tr1 where
    p: "ProcessTransactionInDb (traced E) (req_transaction req)
      (time_of_timestamp (config_time (req_config req))) (?m0 d) s (w0, []) = Some (st, m, s1, w1, tr1)"
    and rest: "finish (traced E) req st (set_metadata (req_transaction_id req) m s1) (w1, tr1) = Some (s', w', tr')"
    unfolding ProcessTransaction_finish m0 by (auto elim!: bind_elims)
  have "holds (?m0 d) s []" by (simp add: holds_def keys_known_def held_def fresh_metadata_def)
  then have "holds m s1 tr1 \<and> grows s s1"
    using ProcessTransactionInDb_holds [OF p] by (simp add: fresh_metadata_def)
  with rest that show ?thesis by blast
qed

text \<open>
  The complete account of a run: the prepared part, the protocol part, the unlocking, and the result.
\<close>

definition run_outcome ::
  "prepare_request \<Rightarrow> 'd txn_metadata \<Rightarrow> 'd cohort_server \<Rightarrow> 'd cohort_server \<Rightarrow> event list \<Rightarrow> bool" where
  "run_outcome req m s s' tr \<longleftrightarrow> (\<exists>prep fin us committed r.
     tr = prep @ fin @ us \<and> holds m s prep \<and> cohort_run req fin committed \<and>
     (own_vote req BALLOT_COMMIT \<in> set fin \<longrightarrow> persisted req prep) \<and> unlocks us (held m s) \<and>
     final_response_by_transaction_id s' = (final_response_by_transaction_id s)(req_transaction_id req \<mapsto> r) \<and>
     metadata_by_transaction_id s' = (metadata_by_transaction_id s)(req_transaction_id req := None) \<and>
     (if committed then r = mutable_committed (md_response m) else \<exists>a. r = CohortAborted a))"

lemma run_outcomeI:
  assumes "tr = prep @ fin @ us" "holds m s prep" "cohort_run req fin committed"
    "unlocks us (held m s)" "ended (req_transaction_id req) r (set_metadata (req_transaction_id req) m s) s'"
    "if committed then r = mutable_committed (md_response m) else \<exists>a. r = CohortAborted a"
    "own_vote req BALLOT_COMMIT \<in> set fin \<Longrightarrow> persisted req prep"
  shows "run_outcome req m s s' tr"
  unfolding run_outcome_def using assms
  by (intro exI [of _ prep] exI [of _ fin] exI [of _ us] exI [of _ committed] exI [of _ r])
     (simp add: ended_def)

lemma abort_outcome:
  assumes ret: "AbortTransaction (traced E) (req_transaction_id req) (int (cohort_index req)) ast
      (set_metadata (req_transaction_id req) m s) (w, prep @ pre) = Some (s', w', tr')"
    and h: "holds m s prep"
    and run: "\<And>st. cohort_run req
      (pre @ (if ast = None then [] else [own_vote req BALLOT_ABORT]) @ [DbAborted st]) False"
    and saved: "own_vote req BALLOT_COMMIT \<in> set pre \<Longrightarrow> persisted req prep"
  shows "run_outcome req m s s' tr'"
proof -
  let ?s = "set_metadata (req_transaction_id req) m s"
  have known: "keys_known (metadata_of ?s (req_transaction_id req)) ?s" using h by (simp add: holds_def)
  obtain st us reason where
    "tr' = prep @ (pre @ (if ast = None then [] else [own_vote req BALLOT_ABORT]) @ [DbAborted st]) @ us"
    "unlocks us (held m s)" "ended (req_transaction_id req) (CohortAborted reason) ?s s'"
    using AbortTransaction_traced [OF ret known] by auto
  then show ?thesis by (rule run_outcomeI [OF _ h run]) (use saved in \<open>auto split: if_splits\<close>)
qed

lemma commit_tries_no_vote: "commit_tries es \<Longrightarrow> Voted tid k b \<notin> set es"
  by (induction es rule: commit_tries.induct) (auto split: if_splits)

lemma commit_outcome:
  assumes ret: "CommitTransaction (traced E) (req_transaction_id req)
      (set_metadata (req_transaction_id req) m s) (w, prep @ pre) = Some (s', w', tr')"
    and h: "holds m s prep"
    and run: "\<And>es. commit_tries es \<Longrightarrow> cohort_run req (pre @ es) True"
    and saved: "own_vote req BALLOT_COMMIT \<in> set pre \<Longrightarrow> persisted req prep"
  shows "run_outcome req m s s' tr'"
proof -
  let ?s = "set_metadata (req_transaction_id req) m s"
  have known: "keys_known (metadata_of ?s (req_transaction_id req)) ?s" using h by (simp add: holds_def)
  obtain es us where "tr' = prep @ (pre @ es) @ us" and es: "commit_tries es"
    and "unlocks us (held m s)" "ended (req_transaction_id req) (mutable_committed (md_response m)) ?s s'"
    using CommitTransaction_traced [OF ret known] by auto
  from this(1,3,4) show ?thesis
    by (rule run_outcomeI [OF _ h run [OF es]]) (use saved commit_tries_no_vote [OF es] in auto)
qed

lemma decision_outcome:
  assumes wait: "WaitForBlockchainDecision (traced E) (req_transaction_id req) t False
      (w, prep @ [own_vote req BALLOT_COMMIT]) = Some (dec, w1, tr1)"
    and fin: "(if dec = VOTING_DECISION_COMMIT
      then CommitTransaction (traced E) (req_transaction_id req) (set_metadata (req_transaction_id req) m s) (w1, tr1)
      else AbortTransaction (traced E) (req_transaction_id req) (int (cohort_index req)) None
        (set_metadata (req_transaction_id req) m s) (w1, tr1)) = Some (s', w', tr')"
    and h: "holds m s prep" and many: "\<not> only_cohort req" and saved: "persisted req prep"
  shows "run_outcome req m s s' tr'"
proof -
  obtain ps where ps: "tr1 = prep @ own_vote req BALLOT_COMMIT # ps @ [own_poll req dec]"
    "\<forall>e \<in> set ps. undecided (req_transaction_id req) e" "definite dec"
    using Wait_traced [OF wait] by auto
  from definite_cases [OF ps(3)] show ?thesis
  proof
    assume dec: "dec = VOTING_DECISION_COMMIT"
    show ?thesis
      using fin ps dec decided_commit [OF many ps(2)]
      by (intro commit_outcome [OF _ h, where pre = "own_vote req BALLOT_COMMIT # ps @ [own_poll req dec]"]) (use saved in auto)
  next
    assume dec: "dec = VOTING_DECISION_ABORT"
    show ?thesis
      using fin ps dec decided_abort [OF many ps(2)]
      by (intro abort_outcome [OF _ h, where pre = "own_vote req BALLOT_COMMIT # ps @ [own_poll req dec]"]) (use saved in auto)
  qed
qed

lemma finish_traced:
  assumes ret: "finish (traced E) req st (set_metadata (req_transaction_id req) m s) (w, tr) = Some (s', w', tr')"
    and h: "holds m s tr"
  shows "run_outcome req m s s' tr'"
proof -
  let ?s = "set_metadata (req_transaction_id req) m s"
  have abort_now: "run_outcome req m s s' tr'"
    if "AbortTransaction (traced E) (req_transaction_id req) (int (cohort_index req)) (Some st') ?s (w2, tr2) = Some (s', w', tr')"
      and "holds m s tr2" for st' w2 tr2
    using that by (intro abort_outcome [where pre = "[]"]) (auto intro: not_prepared)
  obtain pst w2 tr2 where persist: "PersistTransaction (traced E) req ?s (w, tr) = (pst, w2, tr2)"
    by (metis prod_cases3)
  have h2: "holds m s tr2" using holds_work [OF h PersistTransaction_traced [OF persist]] by simp
  consider (failed) "\<not> absl_ok st" | (sole) "absl_ok st" "only_cohort req"
    | (unsaved) "absl_ok st" "\<not> only_cohort req" "\<not> absl_ok pst"
    | (voting) "absl_ok st" "\<not> only_cohort req" "absl_ok pst" by blast
  then show ?thesis
  proof cases
    case failed
    then show ?thesis using ret abort_now [OF _ h] by (simp add: finish_def)
  next
    case sole
    then show ?thesis using ret
      by (intro commit_outcome [OF _ h, where pre = "[]"]) (auto simp: finish_def intro: sole_participant)
  next
    case unsaved
    then show ?thesis using ret persist abort_now [OF _ h2] by (simp add: finish_def)
  next
    case voting
    with ret persist show ?thesis
      by (auto simp: finish_def elim!: bind_elims
          intro: decision_outcome [OF _ _ h2 _ PersistTransaction_persists [OF persist]])
  qed
qed

theorem ProcessTransaction_traced:
  assumes "ProcessTransaction (traced E) req s (w, []) = Some (s', w', tr')"
    and "metadata_by_transaction_id s (req_transaction_id req) = None"
  shows "\<exists>m s1. grows s s1 \<and> run_outcome req m s1 s' tr'"
  using assms by (rule ProcessTransaction_prepares) (auto dest: finish_traced)

end
