(* ===== verification/Commit_Protocol.thy ===== *)
theory Commit_Protocol
  imports Chain_Runs Cohort_Trace "HOL-Library.Sublist"
begin

text \<open>
  One transaction over several cohorts: the cohorts, each on its own machine, the chain and the
  coordinator that asks for the decision, all interleaved. A cohort performs the events of a run of
  \<open>ProcessTransaction\<close>, one at a time; it may be slow or stop for ever after any of them. Its answers from
  the blockchain are those of the contract at that moment. A vote is in flight from the moment the cohort
  is about to cast it: the call may fail or its answer get lost, and the vote may be mined never,
  at once or later, even twice. Other transactions and new blocks change the chain at any time.
\<close>

record system =
  the_chain :: chain
  performed :: "nat \<Rightarrow> event list"
  decisions_read :: "voting_decision list"

text \<open>The events that cohort \<open>i\<close> has performed or is performing.\<close>

definition begun :: "(nat \<Rightarrow> event list) \<Rightarrow> system \<Rightarrow> nat \<Rightarrow> event set" where
  "begun plan \<sigma> i = set (take (Suc (length (performed \<sigma> i))) (plan i))"

fun concerns :: "string \<Rightarrow> chain_op \<Rightarrow> bool" where
  "concerns tid (StartVotingOp tid' timeout n) = (tid' = tid)"
| "concerns tid (VoteOp tid' i b) = (tid' = tid)"
| "concerns tid (BlockOp t) = False"

definition perform :: "nat \<Rightarrow> event \<Rightarrow> system \<Rightarrow> system" where
  "perform i e \<sigma> = \<sigma>\<lparr>performed := (performed \<sigma>)(i := performed \<sigma> i @ [e])\<rparr>"

inductive protocol_step :: "string \<Rightarrow> (nat \<Rightarrow> event list) \<Rightarrow> system \<Rightarrow> system \<Rightarrow> bool" for tid plan where
  performs: "plan i = performed \<sigma> i @ e # rest \<Longrightarrow> \<forall>d. e \<noteq> Polled tid (Inr d) \<Longrightarrow>
    protocol_step tid plan \<sigma> (perform i e \<sigma>)"
| polls: "plan i = performed \<sigma> i @ Polled tid (Inr d) # rest \<Longrightarrow>
    bc_GetVotingDecision js_stub tid (the_chain \<sigma>) = Some (Inr d, the_chain \<sigma>) \<Longrightarrow>
    protocol_step tid plan \<sigma> (perform i (Polled tid (Inr d)) \<sigma>)"
| mines: "Voted tid k b \<in> begun plan \<sigma> i \<Longrightarrow>
    protocol_step tid plan \<sigma> (\<sigma>\<lparr>the_chain := chain_exec (VoteOp tid k b) (the_chain \<sigma>)\<rparr>)"
| reads: "bc_GetVotingDecision js_stub tid (the_chain \<sigma>) = Some (Inr d, the_chain \<sigma>) \<Longrightarrow>
    protocol_step tid plan \<sigma> (\<sigma>\<lparr>decisions_read := d # decisions_read \<sigma>\<rparr>)"
| others: "\<not> concerns tid op \<Longrightarrow> protocol_step tid plan \<sigma> (\<sigma>\<lparr>the_chain := chain_exec op (the_chain \<sigma>)\<rparr>)"

text \<open>
  The cohorts: cohort \<open>i\<close> runs \<open>ProcessTransaction\<close> for its prepare request in an environment of its
  own, with the events \<open>plan i\<close> and the result \<open>res i\<close>.
\<close>

definition participants ::
  "nat \<Rightarrow> string \<Rightarrow> (nat \<Rightarrow> ('d, 'w) cohort_env) \<Rightarrow> (nat \<Rightarrow> prepare_request) \<Rightarrow> (nat \<Rightarrow> event list) \<Rightarrow>
   (nat \<Rightarrow> cohort_result) \<Rightarrow> bool" where
  "participants n tid E req plan res \<longleftrightarrow>
     (\<forall>i < n. req_transaction_id (req i) = tid \<and> participant (req i) = CohortIndex i \<and>
        (\<exists>s w s' w'. metadata_by_transaction_id s tid = None \<and>
           ProcessTransaction (traced (E i)) (req i) s (w, []) = Some (s', w', plan i) \<and>
           final_response_by_transaction_id s' tid = Some (res i))) \<and>
     (\<forall>i \<ge> n. plan i = [])"

text \<open>The coordinator has opened the vote for \<open>n\<close> cohorts, and nothing else has happened.\<close>

definition vote_opened :: "string \<Rightarrow> nat \<Rightarrow> system \<Rightarrow> bool" where
  "vote_opened tid n \<sigma> \<longleftrightarrow> performed \<sigma> = (\<lambda>_. []) \<and> decisions_read \<sigma> = [] \<and> n < 2 ^ 32 \<and>
     (\<exists>ch timeout st. chain_ok ch \<and> bc_StartVoting js_stub tid timeout (int n) ch = Some (st, the_chain \<sigma>))"

subsection \<open>What a run of a cohort looks like\<close>

lemma prefix_past:
  assumes "prefix p (A @ B)" and "e \<in> set p" and "e \<notin> set A"
  shows "set A \<subseteq> set p"
  using assms by (auto simp: prefix_append dest: set_mono_prefix)

text \<open>\<open>after P e tr\<close>: whenever \<open>e\<close> has happened in \<open>tr\<close>, an event of \<open>P\<close> happened before.\<close>

definition after :: "event set \<Rightarrow> event \<Rightarrow> event list \<Rightarrow> bool" where
  "after P e tr \<longleftrightarrow> (\<forall>p. prefix p tr \<longrightarrow> e \<in> set p \<longrightarrow> P \<inter> set p \<noteq> {})"

lemma afterI:
  assumes "tr = A @ B" and "e \<notin> set A" and "x \<in> set A" and "x \<in> P"
  shows "after P e tr"
  unfolding after_def using prefix_past [of _ A B e] assms by blast

lemma after_never: "e \<notin> set tr \<Longrightarrow> after P e tr"
  by (auto simp: after_def dest: set_mono_prefix)

definition own_events :: "prepare_request \<Rightarrow> ballot \<Rightarrow> event list \<Rightarrow> bool" where
  "own_events req b tr \<longleftrightarrow> (\<forall>t k b'. Voted t k b' \<in> set tr \<longrightarrow> Voted t k b' = own_vote req b)"

definition account :: "prepare_request \<Rightarrow> event list \<Rightarrow> cohort_result \<Rightarrow> bool" where
  "account req tr r \<longleftrightarrow>
     (\<exists>b. b \<noteq> BALLOT_UNSPECIFIED \<and> own_events req b tr) \<and>
     (\<forall>st. after {own_poll req VOTING_DECISION_COMMIT} (DbCommitted st) tr) \<and>
     (\<forall>st. after {own_poll req VOTING_DECISION_ABORT, own_vote req BALLOT_ABORT} (DbAborted st) tr) \<and>
     ((\<exists>gs. r = CohortCommitted gs) \<and> own_poll req VOTING_DECISION_COMMIT \<in> set tr \<or>
      (\<exists>a. r = CohortAborted a) \<and> (own_poll req VOTING_DECISION_ABORT \<in> set tr \<or> own_vote req BALLOT_ABORT \<in> set tr))"

lemma quiet_events:
  assumes "holds m s prep" and "unlocks us ls" and "\<forall>e \<in> set ps. undecided tid e" and "commit_tries es"
  shows "Voted t k b \<notin> set prep" "DbCommitted st \<notin> set prep" "DbAborted st \<notin> set prep"
    "Voted t k b \<notin> set us" "DbCommitted st \<notin> set us" "DbAborted st \<notin> set us"
    "Voted t k b \<notin> set ps" "DbCommitted st \<notin> set ps" "DbAborted st \<notin> set ps"
    "Voted t k b \<notin> set es" "DbAborted st \<notin> set es"
proof -
  have es: "\<exists>st. e = DbCommitted st" if "commit_tries es" "e \<in> set es" for es e
    using that by (induction es rule: commit_tries.induct) (auto split: if_splits)
  show "Voted t k b \<notin> set prep" "DbCommitted st \<notin> set prep" "DbAborted st \<notin> set prep"
    using assms(1) by (auto simp: holds_def)
  show "Voted t k b \<notin> set us" "DbCommitted st \<notin> set us" "DbAborted st \<notin> set us"
    using assms(2) by (auto simp: unlocks_def)
  show "Voted t k b \<notin> set ps" "DbCommitted st \<notin> set ps" "DbAborted st \<notin> set ps"
    using assms(3) by auto
  show "Voted t k b \<notin> set es" "DbAborted st \<notin> set es"
    using es [OF assms(4)] by auto
qed

lemma commit_tries_one [simp]: "commit_tries [DbCommitted OkStatus]"
  by (simp add: absl_ok_def OkStatus_def)

lemma run_account:
  assumes "run_outcome req m s s' tr" and many: "\<not> only_cohort req"
    and res: "final_response_by_transaction_id s' (req_transaction_id req) = Some r"
  shows "account req tr r"
proof -
  from assms(1) obtain prep fin us committed where tr: "tr = prep @ fin @ us" and h: "holds m s prep"
    and run: "cohort_run req fin committed" and u: "unlocks us (held m s)"
    and r: "if committed then r = mutable_committed (md_response m) else \<exists>a. r = CohortAborted a"
    using res by (auto simp: run_outcome_def)
  note quiet = quiet_events [OF h u]
  from run show ?thesis
  proof cases
    case (not_prepared st)
    note q = quiet [where ps = "[]" and es = "[DbCommitted OkStatus]", simplified]
    have "own_events req BALLOT_ABORT tr" using q by (auto simp: own_events_def tr not_prepared)
    moreover have "after {own_poll req VOTING_DECISION_COMMIT} (DbCommitted st') tr" for st'
      using q by (intro after_never) (auto simp: tr not_prepared)
    moreover have "after {own_poll req VOTING_DECISION_ABORT, own_vote req BALLOT_ABORT} (DbAborted st') tr" for st'
      using q by (intro afterI [where A = "prep @ [own_vote req BALLOT_ABORT]" and B = "DbAborted st # us"
        and x = "own_vote req BALLOT_ABORT"]) (auto simp: tr not_prepared)
    ultimately show ?thesis using r not_prepared by (auto simp: account_def tr)
  next
    case sole_participant
    with many show ?thesis by simp
  next
    case (decided_commit ps es)
    note q = quiet [OF decided_commit(4,5)]
    let ?A = "prep @ own_vote req BALLOT_COMMIT # ps @ [own_poll req VOTING_DECISION_COMMIT]"
    have "own_events req BALLOT_COMMIT tr" using q by (auto simp: own_events_def tr decided_commit(1))
    moreover have "after {own_poll req VOTING_DECISION_COMMIT} (DbCommitted st') tr" for st'
      using q by (intro afterI [where A = ?A and B = "es @ us"
        and x = "own_poll req VOTING_DECISION_COMMIT"]) (auto simp: tr decided_commit(1))
    moreover have "after {own_poll req VOTING_DECISION_ABORT, own_vote req BALLOT_ABORT} (DbAborted st') tr" for st'
      using q by (intro after_never) (auto simp: tr decided_commit(1))
    ultimately show ?thesis using r decided_commit(1,2) by (auto simp: account_def tr mutable_committed_eq)
  next
    case (decided_abort ps st)
    note q = quiet [OF decided_abort(4) commit_tries_one]
    let ?A = "prep @ own_vote req BALLOT_COMMIT # ps @ [own_poll req VOTING_DECISION_ABORT]"
    have "own_events req BALLOT_COMMIT tr" using q by (auto simp: own_events_def tr decided_abort(1))
    moreover have "after {own_poll req VOTING_DECISION_COMMIT} (DbCommitted st') tr" for st'
      using q by (intro after_never) (auto simp: tr decided_abort(1))
    moreover have "after {own_poll req VOTING_DECISION_ABORT, own_vote req BALLOT_ABORT} (DbAborted st') tr" for st'
      using q by (intro afterI [where A = ?A and B = "DbAborted st # us"
        and x = "own_poll req VOTING_DECISION_ABORT"]) (auto simp: tr decided_abort(1))
    ultimately show ?thesis using r decided_abort(1,2) by (auto simp: account_def tr)
  qed
qed

lemma participants_account:
  assumes "participants n tid E req plan res" and "i < n"
  shows "account (req i) (plan i) (res i)" and "req_transaction_id (req i) = tid" and "cohort_index (req i) = i"
proof -
  from assms obtain s w s' w' where i: "req_transaction_id (req i) = tid" "participant (req i) = CohortIndex i"
    and none: "metadata_by_transaction_id s tid = None"
    and run: "ProcessTransaction (traced (E i)) (req i) s (w, []) = Some (s', w', plan i)"
    and res: "final_response_by_transaction_id s' tid = Some (res i)"
    by (auto simp: participants_def)
  have "\<exists>m s1. grows s s1 \<and> run_outcome (req i) m s1 s' (plan i)"
    by (rule ProcessTransaction_traced [OF run]) (use i none in simp)
  then obtain m s1 where "run_outcome (req i) m s1 s' (plan i)" by blast
  then show "account (req i) (plan i) (res i)"
    by (rule run_account) (use i res in \<open>simp_all add: only_cohort.simps\<close>)
  show "req_transaction_id (req i) = tid" "cohort_index (req i) = i" using i by (simp_all add: cohort_index.simps)
qed

subsection \<open>The invariant\<close>

text \<open>The ballot that each cohort may cast in its run.\<close>

definition fate :: "(nat \<Rightarrow> event list) \<Rightarrow> nat \<Rightarrow> ballot" where
  "fate plan i = (if \<exists>t k. Voted t k BALLOT_ABORT \<in> set (plan i) then BALLOT_ABORT else BALLOT_COMMIT)"

text \<open>What the proof needs to know of the events of the cohorts.\<close>

definition votes_own :: "nat \<Rightarrow> string \<Rightarrow> (nat \<Rightarrow> event list) \<Rightarrow> bool" where
  "votes_own n tid plan \<longleftrightarrow>
     (\<forall>i t k b. Voted t k b \<in> set (plan i) \<longrightarrow> i < n \<and> t = tid \<and> k = int i \<and> b = fate plan i)"

lemma participants_votes_own:
  assumes p: "participants n tid E req plan res"
  shows "votes_own n tid plan"
  unfolding votes_own_def
proof (intro allI impI)
  fix i t k b
  assume v: "Voted t k b \<in> set (plan i)"
  have i: "i < n" using p v by (cases "i < n") (auto simp: participants_def)
  from participants_account(1) [OF p i] obtain b0 where b0: "b0 \<noteq> BALLOT_UNSPECIFIED" and "own_events (req i) b0 (plan i)" by (auto simp: account_def)
  from this(2) participants_account(2,3) [OF p i]
  have own: "\<And>t k b. Voted t k b \<in> set (plan i) \<Longrightarrow> t = tid \<and> k = int i \<and> b = b0" by (auto simp: own_events_def)
  have "Voted t k b0 \<in> set (plan i)" using own [OF v] v by simp
  with b0 have "b0 = fate plan i" unfolding fate_def by (cases b0) (auto dest: own)
  then show "i < n \<and> t = tid \<and> k = int i \<and> b = fate plan i" using own v i by blast
qed

definition protocol_inv :: "nat \<Rightarrow> string \<Rightarrow> (nat \<Rightarrow> event list) \<Rightarrow> system \<Rightarrow> bool" where
  "protocol_inv n tid plan \<sigma> \<longleftrightarrow>
     (let B = boards_of (the_chain \<sigma>); bd = board_for B tid in
      chain_ok (the_chain \<sigma>) \<and> voters bd = n \<and> 0 < n \<and> ballots_from (fate plan) bd \<and>
      (\<forall>i < n. ballot_of bd i \<noteq> UNKNOWN \<longrightarrow> Voted tid (int i) (fate plan i) \<in> begun plan \<sigma> i) \<and>
      (\<forall>i. prefix (performed \<sigma> i) (plan i)) \<and>
      (\<forall>i d. Polled tid (Inr d) \<in> set (performed \<sigma> i) \<longrightarrow> definite d \<longrightarrow> board_decision (clock B) bd = d) \<and>
      (\<forall>d \<in> set (decisions_read \<sigma>). definite d \<longrightarrow> board_decision (clock B) bd = d))"

lemma begun_perform: "begun plan \<sigma> j \<subseteq> begun plan (perform i e \<sigma>) j"
  unfolding begun_def by (rule set_take_subset_set_take) (simp add: perform_def)

lemma begun_frame [simp]:
  "begun plan (\<sigma>\<lparr>the_chain := ch\<rparr>) i = begun plan \<sigma> i" "begun plan (\<sigma>\<lparr>decisions_read := ds\<rparr>) i = begun plan \<sigma> i"
  by (simp_all add: begun_def)

lemma begun_in_plan: "e \<in> begun plan \<sigma> i \<Longrightarrow> e \<in> set (plan i)"
  unfolding begun_def by (rule in_set_takeD)

lemma prefix_snoc_step: "xs = ys @ e # rest \<Longrightarrow> prefix (ys @ [e]) xs"
  by simp

text \<open>A change of the chain that opens nothing and casts only what the cohorts may cast.\<close>

lemma inv_chain_exec:
  assumes inv: "protocol_inv n tid plan \<sigma>" and op: "faithful tid (fate plan) op"
    and cast: "\<And>k b. op = VoteOp tid k b \<Longrightarrow> 0 \<le> k \<Longrightarrow> Voted tid k (fate plan (nat k)) \<in> begun plan \<sigma> (nat k)"
  shows "protocol_inv n tid plan (\<sigma>\<lparr>the_chain := chain_exec op (the_chain \<sigma>)\<rparr>)"
proof -
  let ?B = "boards_of (the_chain \<sigma>)" and ?ch = "chain_exec op (the_chain \<sigma>)"
  have ok: "chain_ok (the_chain \<sigma>)" and bf: "ballots_from (fate plan) (board_for ?B tid)"
    using inv by (simp_all add: protocol_inv_def Let_def)
  have B': "boards_of ?ch = boards_exec op ?B" and ok': "chain_ok ?ch"
    using chain_exec_boards [OF ok] by blast+
  note ev = boards_exec_evolves [OF op bf]
  have "Voted tid (int i) (fate plan i) \<in> begun plan \<sigma> i"
    if "i < n" "ballot_of (board_for (boards_exec op ?B) tid) i \<noteq> UNKNOWN" for i
  proof (cases "ballot_of (board_for ?B tid) i = UNKNOWN")
    case False
    with inv that(1) show ?thesis by (simp add: protocol_inv_def Let_def)
  next
    case True
    with that(2) op have "\<exists>b. op = VoteOp tid (int i) b"
      by (cases op) (auto simp: Let_def cast_ballot_def split: if_splits option.splits)
    then show ?thesis using cast [of "int i"] by auto
  qed
  with inv ev show ?thesis
    using evolves_decision [OF ev(1)] by (auto simp: protocol_inv_def Let_def B' ok' evolves_def)
qed

lemma inv_perform:
  assumes inv: "protocol_inv n tid plan \<sigma>" and plan: "plan i = performed \<sigma> i @ e # rest"
    and poll: "\<And>d. e = Polled tid (Inr d) \<Longrightarrow> definite d \<Longrightarrow>
      board_decision (clock (boards_of (the_chain \<sigma>))) (board_for (boards_of (the_chain \<sigma>)) tid) = d"
  shows "protocol_inv n tid plan (perform i e \<sigma>)"
proof -
  have "prefix (performed \<sigma> i @ [e]) (plan i)" using plan by simp
  moreover have "begun plan \<sigma> j \<subseteq> begun plan (perform i e \<sigma>) j" for j by (rule begun_perform)
  ultimately show ?thesis
    using inv poll by (auto simp: protocol_inv_def Let_def perform_def)
qed

lemma inv_step:
  assumes "protocol_step tid plan \<sigma> \<sigma>'" and inv: "protocol_inv n tid plan \<sigma>" and own: "votes_own n tid plan"
  shows "protocol_inv n tid plan \<sigma>'"
proof -
  have ok: "chain_ok (the_chain \<sigma>)" and v: "0 < voters (board_for (boards_of (the_chain \<sigma>)) tid)"
    using inv by (simp_all add: protocol_inv_def Let_def)
  have read: "board_decision (clock (boards_of (the_chain \<sigma>))) (board_for (boards_of (the_chain \<sigma>)) tid) = d"
    if "bc_GetVotingDecision js_stub tid (the_chain \<sigma>) = Some (Inr d, the_chain \<sigma>)" for d
    using that decision_answer [OF ok, of tid] v by simp
  from assms(1) show ?thesis
  proof cases
    case (performs i e rest)
    then show ?thesis using inv by (auto intro!: inv_perform)
  next
    case (polls i d rest)
    then show ?thesis using inv read by (auto intro!: inv_perform)
  next
    case (mines k b i)
    then have "i < n" "k = int i" "b = fate plan i"
      using own begun_in_plan unfolding votes_own_def by blast+
    with mines(2) have "protocol_inv n tid plan (\<sigma>\<lparr>the_chain := chain_exec (VoteOp tid k b) (the_chain \<sigma>)\<rparr>)"
      by (intro inv_chain_exec [OF inv]) auto
    with mines(1) show ?thesis by simp
  next
    case (reads d)
    then show ?thesis using inv read by (auto simp: protocol_inv_def Let_def)
  next
    case (others op)
    then have "faithful tid (fate plan) op" by (cases op) auto
    with others(2) have "protocol_inv n tid plan (\<sigma>\<lparr>the_chain := chain_exec op (the_chain \<sigma>)\<rparr>)"
      by (intro inv_chain_exec [OF inv]) auto
    with others(1) show ?thesis by simp
  qed
qed

lemma inv_opened:
  assumes "vote_opened tid n \<sigma>"
  shows "protocol_inv n tid plan \<sigma>"
proof -
  obtain ch timeout st where ok: "chain_ok ch" and st: "bc_StartVoting js_stub tid timeout (int n) ch = Some (st, the_chain \<sigma>)"
    and init: "performed \<sigma> = (\<lambda>_. [])" "decisions_read \<sigma> = []" "n < 2 ^ 32"
    using assms by (auto simp: vote_opened_def)
  obtain c' where c': "sol_startVoting (deployed ch) (block_now ch) tid (of_int (int n)) (of_int timeout) = Some c'"
    and ch': "the_chain \<sigma> = ch\<lparr>deployed := c'\<rparr>"
    using st by (auto simp: bc_StartVoting_js client_startVoting_def split: if_splits)
  have n: "unat (of_int (int n) :: uint32) = n"
    using init(3) by (simp add: unat_of_nat take_bit_nat_eq_self)
  have bd: "board_for (boards_of (the_chain \<sigma>)) tid = open_board n (unat (of_int timeout :: uint256))"
    using startVoting_board(1) [OF c'] n by (simp add: boards_of_def ch')
  have "0 < n" using c' startVoting_accepts [of "deployed ch" "block_now ch" tid "of_int (int n)" "of_int timeout"] n by auto
  moreover have "chain_ok (the_chain \<sigma>)"
    using chain_exec_start [OF ok, of tid timeout "int n"] st by simp
  ultimately show ?thesis using init bd by (simp add: protocol_inv_def Let_def)
qed

lemma inv_reachable:
  assumes "(protocol_step tid plan)\<^sup>*\<^sup>* \<sigma>0 \<sigma>" and "vote_opened tid n \<sigma>0" and "votes_own n tid plan"
  shows "protocol_inv n tid plan \<sigma>"
  using assms(1) by (induction rule: rtranclp_induct) (auto intro: inv_opened assms inv_step)

subsection \<open>What the invariant says about the cohorts\<close>

definition verdict :: "string \<Rightarrow> system \<Rightarrow> voting_decision" where
  "verdict tid \<sigma> = board_decision (clock (boards_of (the_chain \<sigma>))) (board_for (boards_of (the_chain \<sigma>)) tid)"

text \<open>A definite verdict stays: each step leaves the board alone or lets it evolve.\<close>

lemma step_evolves:
  assumes step: "protocol_step tid plan \<sigma> \<sigma>'" and inv: "protocol_inv n tid plan \<sigma>" and own: "votes_own n tid plan"
  shows "evolves (clock (boards_of (the_chain \<sigma>))) (board_for (boards_of (the_chain \<sigma>)) tid)
    (clock (boards_of (the_chain \<sigma>'))) (board_for (boards_of (the_chain \<sigma>')) tid)"
proof -
  have ok: "chain_ok (the_chain \<sigma>)" and bf: "ballots_from (fate plan) (board_for (boards_of (the_chain \<sigma>)) tid)"
    using inv by (simp_all add: protocol_inv_def Let_def)
  have "the_chain \<sigma>' = the_chain \<sigma> \<or>
      (\<exists>op. faithful tid (fate plan) op \<and> the_chain \<sigma>' = chain_exec op (the_chain \<sigma>))"
    using step
  proof cases
    case (mines k b i)
    then have "k = int i" "b = fate plan i" using own begun_in_plan unfolding votes_own_def by blast+
    with mines(1) show ?thesis by (intro disjI2 exI [of _ "VoteOp tid k b"]) simp
  next
    case (others op)
    then have "faithful tid (fate plan) op" by (cases op) auto
    with others(1) show ?thesis by auto
  qed (simp_all add: perform_def)
  then show ?thesis using boards_exec_evolves(1) [OF _ bf] chain_exec_boards(1) [OF ok] by auto
qed

lemma verdict_stable:
  assumes "(protocol_step tid plan)\<^sup>*\<^sup>* \<sigma> \<sigma>'" and "protocol_inv n tid plan \<sigma>" and "votes_own n tid plan"
    and "definite (verdict tid \<sigma>)"
  shows "protocol_inv n tid plan \<sigma>' \<and> verdict tid \<sigma>' = verdict tid \<sigma>"
  using assms(1)
proof (induction rule: rtranclp_induct)
  case base
  with assms(2) show ?case by simp
next
  case (step \<tau> \<tau>')
  then have inv: "protocol_inv n tid plan \<tau>" and same: "verdict tid \<tau> = verdict tid \<sigma>" by simp_all
  have "verdict tid \<tau>' = verdict tid \<tau>"
    using evolves_decision [OF step_evolves [OF step.hyps(2) inv assms(3)]] assms(4) same by (simp add: verdict_def)
  with same inv_step [OF step.hyps(2) inv assms(3)] show ?case by simp
qed

lemma verdict_commit:
  assumes "protocol_inv n tid plan \<sigma>" and "verdict tid \<sigma> = VOTING_DECISION_COMMIT" and "i < n"
  shows "fate plan i = BALLOT_COMMIT \<and> Voted tid (int i) BALLOT_COMMIT \<in> begun plan \<sigma> i"
proof -
  let ?bd = "board_for (boards_of (the_chain \<sigma>)) tid"
  have "ballot_of ?bd i = COMMIT"
    using assms by (auto simp: protocol_inv_def Let_def verdict_def board_decision_def split: if_splits)
  moreover from this have "cast_of (fate plan i) = COMMIT"
    using assms by (auto simp: protocol_inv_def Let_def ballots_from_def)
  then have "fate plan i = BALLOT_COMMIT" by (cases "fate plan i") auto
  ultimately show ?thesis using assms by (auto simp: protocol_inv_def Let_def)
qed

lemma polled_verdict:
  "protocol_inv n tid plan \<sigma> \<Longrightarrow> Polled tid (Inr d) \<in> set (performed \<sigma> i) \<Longrightarrow> definite d \<Longrightarrow> verdict tid \<sigma> = d"
  by (auto simp: protocol_inv_def Let_def verdict_def)

lemma read_verdict:
  "protocol_inv n tid plan \<sigma> \<Longrightarrow> d \<in> set (decisions_read \<sigma>) \<Longrightarrow> definite d \<Longrightarrow> verdict tid \<sigma> = d"
  by (auto simp: protocol_inv_def Let_def verdict_def)

lemma performed_prefix: "protocol_inv n tid plan \<sigma> \<Longrightarrow> prefix (performed \<sigma> i) (plan i)"
  by (auto simp: protocol_inv_def Let_def)

lemma committed_verdict:
  assumes "protocol_inv n tid plan \<sigma>" and "participants n tid E req plan res" and "i < n"
    and "DbCommitted st \<in> set (performed \<sigma> i)"
  shows "verdict tid \<sigma> = VOTING_DECISION_COMMIT"
proof -
  note acc = participants_account [OF assms(2,3)]
  have "own_poll (req i) VOTING_DECISION_COMMIT \<in> set (performed \<sigma> i)"
    using acc(1) performed_prefix [OF assms(1)] assms(4) unfolding account_def after_def by blast
  with acc(2) polled_verdict [OF assms(1)] show ?thesis by simp
qed

lemma refused_verdict:
  assumes "protocol_inv n tid plan \<sigma>" and "participants n tid E req plan res" and "i < n"
    and "own_poll (req i) VOTING_DECISION_ABORT \<in> set (performed \<sigma> i) \<or> own_vote (req i) BALLOT_ABORT \<in> set (performed \<sigma> i)"
  shows "verdict tid \<sigma> \<noteq> VOTING_DECISION_COMMIT"
  using assms(4)
proof
  assume "own_poll (req i) VOTING_DECISION_ABORT \<in> set (performed \<sigma> i)"
  with participants_account(2) [OF assms(2,3)] polled_verdict [OF assms(1)] show ?thesis by auto
next
  assume "own_vote (req i) BALLOT_ABORT \<in> set (performed \<sigma> i)"
  then have "fate plan i = BALLOT_ABORT"
    using set_mono_prefix [OF performed_prefix [OF assms(1)]] by (auto simp: fate_def)
  with verdict_commit [OF assms(1) _ assms(3)] show ?thesis by auto
qed

lemma aborted_verdict:
  assumes "protocol_inv n tid plan \<sigma>" and "participants n tid E req plan res" and "i < n"
    and "DbAborted st \<in> set (performed \<sigma> i)"
  shows "verdict tid \<sigma> \<noteq> VOTING_DECISION_COMMIT"
proof (rule refused_verdict [OF assms(1-3)])
  show "own_poll (req i) VOTING_DECISION_ABORT \<in> set (performed \<sigma> i) \<or> own_vote (req i) BALLOT_ABORT \<in> set (performed \<sigma> i)"
    using participants_account(1) [OF assms(2,3)] performed_prefix [OF assms(1)] assms(4)
    unfolding account_def after_def by blast
qed

lemma finished_verdict:
  assumes "protocol_inv n tid plan \<sigma>" and "participants n tid E req plan res" and "i < n"
    and "performed \<sigma> i = plan i"
  shows "(\<exists>gs. res i = CohortCommitted gs) \<longleftrightarrow> verdict tid \<sigma> = VOTING_DECISION_COMMIT"
    and "(\<exists>a. res i = CohortAborted a) \<longleftrightarrow> verdict tid \<sigma> \<noteq> VOTING_DECISION_COMMIT"
proof -
  note acc = participants_account [OF assms(2,3)]
  from acc(1) consider (yes) gs where "res i = CohortCommitted gs" "own_poll (req i) VOTING_DECISION_COMMIT \<in> set (plan i)"
    | (no) a where "res i = CohortAborted a"
        "own_poll (req i) VOTING_DECISION_ABORT \<in> set (plan i) \<or> own_vote (req i) BALLOT_ABORT \<in> set (plan i)"
    unfolding account_def by blast
  then have "(\<exists>gs. res i = CohortCommitted gs) \<and> verdict tid \<sigma> = VOTING_DECISION_COMMIT \<or>
      (\<exists>a. res i = CohortAborted a) \<and> verdict tid \<sigma> \<noteq> VOTING_DECISION_COMMIT"
  proof cases
    case yes
    with acc(2) polled_verdict [OF assms(1), where d = VOTING_DECISION_COMMIT and i = i] assms(4) show ?thesis by auto
  next
    case no
    with refused_verdict [OF assms(1-3)] assms(4) show ?thesis by auto
  qed
  then show "(\<exists>gs. res i = CohortCommitted gs) \<longleftrightarrow> verdict tid \<sigma> = VOTING_DECISION_COMMIT"
    and "(\<exists>a. res i = CohortAborted a) \<longleftrightarrow> verdict tid \<sigma> \<noteq> VOTING_DECISION_COMMIT" by auto
qed

text \<open>Several events of a cohort in a row.\<close>

lemma performs_many:
  assumes "plan i = performed \<sigma> i @ es @ rest" and "\<forall>e \<in> set es. \<forall>d. e \<noteq> Polled tid (Inr d)"
  shows "(protocol_step tid plan)\<^sup>*\<^sup>* \<sigma> (\<sigma>\<lparr>performed := (performed \<sigma>)(i := performed \<sigma> i @ es)\<rparr>)"
  using assms
proof (induction es arbitrary: \<sigma>)
  case Nil
  then show ?case by simp
next
  case (Cons e es)
  then have "protocol_step tid plan \<sigma> (perform i e \<sigma>)" by (intro performs) auto
  moreover have eq: "(perform i e \<sigma>)\<lparr>performed := (performed (perform i e \<sigma>))
      (i := performed (perform i e \<sigma>) i @ es)\<rparr> = \<sigma>\<lparr>performed := (performed \<sigma>)(i := performed \<sigma> i @ e # es)\<rparr>"
    by (intro system.equality) (auto simp: perform_def)
  have "(protocol_step tid plan)\<^sup>*\<^sup>* (perform i e \<sigma>) (\<sigma>\<lparr>performed := (performed \<sigma>)(i := performed \<sigma> i @ e # es)\<rparr>)"
    unfolding eq [symmetric] by (rule Cons.IH) (use Cons.prems in \<open>auto simp: perform_def\<close>)
  ultimately show ?case by (rule converse_rtranclp_into_rtranclp)
qed

end
