(* ===== verification/Atomic_Commit.thy ===== *)
theory Atomic_Commit
  imports Commit_Protocol
begin

text \<open>
  What the protocol promises, as a state machine of its own: each participant binds itself to a ballot, one decision
  is taken for all, and the participants end their transactions. The interleaved system of \<open>Commit_Protocol\<close>
  implements it: the locale \<open>simulation\<close> is interpreted on the two step relations.
\<close>

subsection \<open>Simulations\<close>

locale simulation =
  fixes cstep :: "'c \<Rightarrow> 'c \<Rightarrow> bool" and astep :: "'a \<Rightarrow> 'a \<Rightarrow> bool" and inv :: "'c \<Rightarrow> bool" and abstraction :: "'c \<Rightarrow> 'a"
  assumes inv_kept: "inv c \<Longrightarrow> cstep c c' \<Longrightarrow> inv c'"
    and simulated: "inv c \<Longrightarrow> cstep c c' \<Longrightarrow> astep\<^sup>*\<^sup>* (abstraction c) (abstraction c')"
begin

lemma run_simulated:
  assumes "cstep\<^sup>*\<^sup>* c c'" and "inv c"
  shows "inv c' \<and> astep\<^sup>*\<^sup>* (abstraction c) (abstraction c')"
  using assms by (induction rule: rtranclp_induct) (auto intro: inv_kept rtranclp_trans [OF _ simulated])

lemma run_from:
  assumes "cstep\<^sup>*\<^sup>* c0 c" and "inv c0" and "astep\<^sup>*\<^sup>* a0 (abstraction c0)"
  shows "astep\<^sup>*\<^sup>* a0 (abstraction c)"
  using run_simulated [OF assms(1,2)] assms(3) by (auto intro: rtranclp_trans)

end

subsection \<open>The specification\<close>

datatype outcome = Commit_all | Abort_all

record commitment =
  promised :: "nat \<Rightarrow> ballot option"
  decided :: "outcome option"
  ended :: "nat \<Rightarrow> outcome option"
  told :: "outcome set"

definition no_commitment :: commitment where
  "no_commitment = \<lparr>promised = (\<lambda>_. None), decided = None, ended = (\<lambda>_. None), told = {}\<rparr>"

inductive commitment_step :: "nat \<Rightarrow> commitment \<Rightarrow> commitment \<Rightarrow> bool" for n where
  promises: "i < n \<Longrightarrow> promised c i = None \<Longrightarrow>
    commitment_step n c (c\<lparr>promised := (promised c)(i \<mapsto> b)\<rparr>)"
| decides_commit: "decided c = None \<Longrightarrow> \<forall>i < n. promised c i = Some BALLOT_COMMIT \<Longrightarrow>
    commitment_step n c (c\<lparr>decided := Some Commit_all\<rparr>)"
| decides_abort: "decided c = None \<Longrightarrow> commitment_step n c (c\<lparr>decided := Some Abort_all\<rparr>)"
| ends_committed: "i < n \<Longrightarrow> ended c i = None \<Longrightarrow> decided c = Some Commit_all \<Longrightarrow>
    commitment_step n c (c\<lparr>ended := (ended c)(i \<mapsto> Commit_all)\<rparr>)"
| ends_aborted: "i < n \<Longrightarrow> ended c i = None \<Longrightarrow> decided c = Some Abort_all \<or> promised c i = Some BALLOT_ABORT \<Longrightarrow>
    commitment_step n c (c\<lparr>ended := (ended c)(i \<mapsto> Abort_all)\<rparr>)"
| tells: "decided c = Some d \<Longrightarrow> commitment_step n c (c\<lparr>told := insert d (told c)\<rparr>)"

text \<open>The specification gives what one expects of it: agreement, and no commit without everybody's consent.\<close>

definition commitment_inv :: "nat \<Rightarrow> commitment \<Rightarrow> bool" where
  "commitment_inv n c \<longleftrightarrow>
     (decided c = Some Commit_all \<longrightarrow> (\<forall>i < n. promised c i = Some BALLOT_COMMIT)) \<and>
     (\<forall>i. ended c i = Some Commit_all \<longrightarrow> decided c = Some Commit_all) \<and>
     (\<forall>i. ended c i = Some Abort_all \<longrightarrow> i < n \<and> (decided c = Some Abort_all \<or> promised c i = Some BALLOT_ABORT)) \<and>
     (\<forall>d \<in> told c. decided c = Some d)"

lemma commitment_inv_step: "commitment_step n c c' \<Longrightarrow> commitment_inv n c \<Longrightarrow> commitment_inv n c'"
  by (induction rule: commitment_step.induct) (auto simp: commitment_inv_def)

lemma commitment_inv_reachable: "(commitment_step n)\<^sup>*\<^sup>* no_commitment c \<Longrightarrow> commitment_inv n c"
  by (induction rule: rtranclp_induct) (auto simp: commitment_inv_step, simp add: commitment_inv_def no_commitment_def)

lemma commitment_agreement:
  assumes "(commitment_step n)\<^sup>*\<^sup>* no_commitment c" and "ended c i = Some d" and "ended c j = Some d'"
  shows "d = d'"
  using commitment_inv_reachable [OF assms(1)] assms(2,3)
  by (cases d; cases d') (fastforce simp: commitment_inv_def)+

text \<open>Changes of the promises, one participant after the other.\<close>

lemma promises_many:
  assumes "m \<le> n"
  shows "(commitment_step n)\<^sup>*\<^sup>* (c\<lparr>promised := \<lambda>_. None\<rparr>) (c\<lparr>promised := \<lambda>i. if i < m then p i else None\<rparr>)"
  using assms
proof (induction m)
  case 0
  then show ?case by simp
next
  case (Suc m)
  let ?c = "c\<lparr>promised := \<lambda>i. if i < m then p i else None\<rparr>"
  have "(commitment_step n)\<^sup>*\<^sup>* ?c (c\<lparr>promised := \<lambda>i. if i < Suc m then p i else None\<rparr>)"
  proof (cases "p m")
    case None
    then have "(\<lambda>i. if i < Suc m then p i else None) = (\<lambda>i. if i < m then p i else None)" by (auto simp: less_Suc_eq)
    then show ?thesis by simp
  next
    case (Some b)
    then have "(\<lambda>i. if i < Suc m then p i else None) = (promised ?c)(m \<mapsto> b)" by (auto simp: less_Suc_eq)
    with promises [of m n ?c b] Suc.prems show ?thesis by auto
  qed
  with Suc show ?case by auto
qed

subsection \<open>The system as an implementation\<close>

fun outcome_of :: "voting_decision \<Rightarrow> outcome option" where
  "outcome_of VOTING_DECISION_COMMIT = Some Commit_all"
| "outcome_of VOTING_DECISION_ABORT = Some Abort_all"
| "outcome_of _ = None"

definition promise :: "nat \<Rightarrow> string \<Rightarrow> (nat \<Rightarrow> event list) \<Rightarrow> system \<Rightarrow> nat \<Rightarrow> ballot option" where
  "promise n tid plan \<sigma> i =
     (if i < n \<and> Voted tid (int i) (fate plan i) \<in> begun plan \<sigma> i then Some (fate plan i) else None)"

definition ending :: "event list \<Rightarrow> outcome option" where
  "ending tr = (if \<exists>st. DbCommitted st \<in> set tr then Some Commit_all
     else if \<exists>st. DbAborted st \<in> set tr then Some Abort_all else None)"

definition commitment_of :: "nat \<Rightarrow> string \<Rightarrow> (nat \<Rightarrow> event list) \<Rightarrow> system \<Rightarrow> commitment" where
  "commitment_of n tid plan \<sigma> = \<lparr>promised = promise n tid plan \<sigma>, decided = outcome_of (verdict tid \<sigma>),
     ended = (\<lambda>i. ending (performed \<sigma> i)), told = {d. \<exists>r \<in> set (decisions_read \<sigma>). outcome_of r = Some d}\<rparr>"

lemma outcome_of_iff [simp]:
  "outcome_of d = Some Commit_all \<longleftrightarrow> d = VOTING_DECISION_COMMIT"
  "outcome_of d = Some Abort_all \<longleftrightarrow> d = VOTING_DECISION_ABORT"
  "outcome_of d = None \<longleftrightarrow> \<not> definite d"
  by (cases d; simp)+

lemma performed_begun: "prefix (performed \<sigma> i) (plan i) \<Longrightarrow> set (performed \<sigma> i) \<subseteq> begun plan \<sigma> i"
  unfolding begun_def by (auto simp: prefix_def)

lemma perform_frame [simp]:
  "the_chain (perform i e \<sigma>) = the_chain \<sigma>" "decisions_read (perform i e \<sigma>) = decisions_read \<sigma>"
  "verdict tid (perform i e \<sigma>) = verdict tid \<sigma>"
  "performed (perform i e \<sigma>) = (performed \<sigma>)(i := performed \<sigma> i @ [e])"
  by (simp_all add: perform_def verdict_def)

text \<open>A participant that performs an event may thereby promise, and then may end.\<close>

lemma promise_perform:
  assumes "i < n"
  shows "promise n tid plan (perform i e \<sigma>) = promise n tid plan \<sigma> \<or>
    promise n tid plan \<sigma> i = None \<and> promise n tid plan (perform i e \<sigma>) = (promise n tid plan \<sigma>)(i \<mapsto> fate plan i)"
proof -
  have "promise n tid plan (perform i e \<sigma>) j = promise n tid plan \<sigma> j" if "j \<noteq> i" for j
    using that by (simp add: promise_def begun_def)
  then have same: "promise n tid plan (perform i e \<sigma>) = (promise n tid plan \<sigma>)(i := promise n tid plan (perform i e \<sigma>) i)"
    by auto
  have "promise n tid plan (perform i e \<sigma>) i = promise n tid plan \<sigma> i \<or>
      promise n tid plan \<sigma> i = None \<and> promise n tid plan (perform i e \<sigma>) i = Some (fate plan i)"
    using assms begun_perform [of plan \<sigma> i i e] by (auto simp: promise_def)
  then show ?thesis using same by (metis fun_upd_triv)
qed

lemma abort_founded:
  assumes "protocol_inv n tid plan \<sigma>" and "participants n tid E req plan res" and "i < n"
    and "DbAborted st \<in> set (performed \<sigma> i)"
  shows "verdict tid \<sigma> = VOTING_DECISION_ABORT \<or> promise n tid plan \<sigma> i = Some BALLOT_ABORT"
proof -
  note acc = participants_account [OF assms(2,3)] and pre = performed_prefix [OF assms(1)]
  have "own_poll (req i) VOTING_DECISION_ABORT \<in> set (performed \<sigma> i) \<or> own_vote (req i) BALLOT_ABORT \<in> set (performed \<sigma> i)"
    using acc(1) pre assms(4) unfolding account_def after_def by blast
  then show ?thesis
  proof
    assume "own_poll (req i) VOTING_DECISION_ABORT \<in> set (performed \<sigma> i)"
    with acc(2) polled_verdict [OF assms(1)] show ?thesis by simp
  next
    assume "own_vote (req i) BALLOT_ABORT \<in> set (performed \<sigma> i)"
    then have v: "Voted tid (int i) BALLOT_ABORT \<in> begun plan \<sigma> i"
      using performed_begun [of \<sigma> i plan, OF pre] acc(2,3) by auto
    moreover have "fate plan i = BALLOT_ABORT" using begun_in_plan [OF v] unfolding fate_def by metis
    ultimately show ?thesis using assms(3) by (simp add: promise_def)
  qed
qed

lemma perform_simulated:
  assumes inv: "protocol_inv n tid plan (perform i e \<sigma>)" and p: "participants n tid E req plan res" and i: "i < n"
  shows "(commitment_step n)\<^sup>*\<^sup>* (commitment_of n tid plan \<sigma>) (commitment_of n tid plan (perform i e \<sigma>))"
proof -
  let ?\<sigma> = "perform i e \<sigma>" and ?c = "commitment_of n tid plan \<sigma>"
  let ?c1 = "?c\<lparr>promised := promise n tid plan ?\<sigma>\<rparr>"
  have "(commitment_step n)\<^sup>*\<^sup>* ?c ?c1"
    using promise_perform [OF i, of tid plan e \<sigma>] promises [OF i, of ?c "fate plan i"]
    by (auto simp: commitment_of_def)
  also have "(commitment_step n)\<^sup>*\<^sup>* ?c1 (commitment_of n tid plan ?\<sigma>)"
  proof (cases "ending (performed ?\<sigma> i) = ending (performed \<sigma> i)")
    case True
    then have "(\<lambda>j. ending (performed ?\<sigma> j)) = (\<lambda>j. ending (performed \<sigma> j))" by auto
    then show ?thesis by (simp add: commitment_of_def)
  next
    case False
    have com: "verdict tid \<sigma> = VOTING_DECISION_COMMIT" if "DbCommitted st \<in> set (performed ?\<sigma> i)" for st
      using committed_verdict [OF inv p i that] by simp
    have abo: "verdict tid \<sigma> = VOTING_DECISION_ABORT \<or> promise n tid plan ?\<sigma> i = Some BALLOT_ABORT"
      and nocom: "verdict tid \<sigma> \<noteq> VOTING_DECISION_COMMIT" if "DbAborted st \<in> set (performed ?\<sigma> i)" for st
      using abort_founded [OF inv p i that] aborted_verdict [OF inv p i that] by simp_all
    have none: "ending (performed \<sigma> i) = None" and
      new: "ending (performed ?\<sigma> i) = Some Commit_all \<and> verdict tid \<sigma> = VOTING_DECISION_COMMIT \<or>
        ending (performed ?\<sigma> i) = Some Abort_all \<and>
          (verdict tid \<sigma> = VOTING_DECISION_ABORT \<or> promise n tid plan ?\<sigma> i = Some BALLOT_ABORT)"
      using False com abo nocom by (auto simp: ending_def split: if_splits)
    have "(\<lambda>j. ending (performed ?\<sigma> j)) = (ended ?c1)(i := ending (performed ?\<sigma> i))" by (auto simp: commitment_of_def)
    then have "commitment_of n tid plan ?\<sigma> = ?c1\<lparr>ended := (ended ?c1)(i := ending (performed ?\<sigma> i))\<rparr>"
      by (simp add: commitment_of_def)
    moreover have "commitment_step n ?c1 (?c1\<lparr>ended := (ended ?c1)(i := ending (performed ?\<sigma> i))\<rparr>)"
      using new ends_committed [OF i, of ?c1] ends_aborted [OF i, of ?c1] none by (auto simp: commitment_of_def)
    ultimately show ?thesis by simp
  qed
  finally show ?thesis .
qed

text \<open>A change of the chain may take the decision, nothing else.\<close>

lemma chain_simulated:
  assumes inv: "protocol_inv n tid plan \<sigma>" and own: "votes_own n tid plan"
    and step: "protocol_step tid plan \<sigma> (\<sigma>\<lparr>the_chain := ch\<rparr>)"
  shows "(commitment_step n)\<^sup>*\<^sup>* (commitment_of n tid plan \<sigma>) (commitment_of n tid plan (\<sigma>\<lparr>the_chain := ch\<rparr>))"
proof -
  let ?\<sigma> = "\<sigma>\<lparr>the_chain := ch\<rparr>" and ?c = "commitment_of n tid plan \<sigma>"
  have inv': "protocol_inv n tid plan ?\<sigma>" by (rule inv_step [OF step inv own])
  have same: "promise n tid plan ?\<sigma> = promise n tid plan \<sigma>" by (rule ext) (simp add: promise_def)
  have c': "commitment_of n tid plan ?\<sigma> = ?c\<lparr>decided := outcome_of (verdict tid ?\<sigma>)\<rparr>"
    using same by (simp add: commitment_of_def)
  have all: "\<forall>i < n. promised ?c i = Some BALLOT_COMMIT" if "verdict tid ?\<sigma> = VOTING_DECISION_COMMIT"
    using verdict_commit [OF inv' that] by (auto simp: commitment_of_def promise_def)
  show ?thesis
  proof (cases "outcome_of (verdict tid ?\<sigma>) = outcome_of (verdict tid \<sigma>)")
    case True
    then have "commitment_of n tid plan ?\<sigma> = ?c" unfolding c' by (simp add: commitment_of_def)
    then show ?thesis by simp
  next
    case False
    have "(protocol_step tid plan)\<^sup>*\<^sup>* \<sigma> ?\<sigma>" using step by (rule r_into_rtranclp)
    from verdict_stable [OF this inv own] False have "\<not> definite (verdict tid \<sigma>)" by metis
    then have none: "outcome_of (verdict tid \<sigma>) = None" by simp
    then have open_vote: "decided ?c = None" by (simp add: commitment_of_def)
    have "outcome_of (verdict tid ?\<sigma>) \<noteq> None" using False unfolding none .
    then have "commitment_step n ?c (commitment_of n tid plan ?\<sigma>)"
      unfolding c' using decides_commit [OF open_vote] decides_abort [OF open_vote] all
      by (cases "verdict tid ?\<sigma>") auto
    then show ?thesis by simp
  qed
qed

lemma protocol_step_simulated:
  assumes inv: "protocol_inv n tid plan \<sigma>" and p: "participants n tid E req plan res"
    and step: "protocol_step tid plan \<sigma> \<sigma>'"
  shows "(commitment_step n)\<^sup>*\<^sup>* (commitment_of n tid plan \<sigma>) (commitment_of n tid plan \<sigma>')"
proof -
  note own = participants_votes_own [OF p]
  have inv': "protocol_inv n tid plan \<sigma>'" by (rule inv_step [OF step inv own])
  have i: "i < n" if "plan i = xs @ e # rest" for i xs e rest
    using p that by (cases "i < n") (auto simp: participants_def)
  from step show ?thesis
  proof cases
    case (performs i e rest)
    then show ?thesis using perform_simulated [OF _ p i] inv' by auto
  next
    case (polls i d rest)
    then show ?thesis using perform_simulated [OF _ p i] inv' by auto
  next
    case (mines k b i)
    then show ?thesis using chain_simulated [OF inv own] step by blast
  next
    case (others op)
    then show ?thesis using chain_simulated [OF inv own] step by blast
  next
    case (reads d)
    let ?c = "commitment_of n tid plan \<sigma>"
    have same: "promise n tid plan \<sigma>' = promise n tid plan \<sigma>" by (rule ext) (simp add: promise_def reads)
    have v: "verdict tid \<sigma>' = verdict tid \<sigma>" by (simp add: verdict_def reads)
    have c': "commitment_of n tid plan \<sigma>' = ?c\<lparr>told := told ?c \<union> {x. outcome_of d = Some x}\<rparr>"
      using same v by (auto simp: commitment_of_def reads)
    show ?thesis
    proof (cases "outcome_of d")
      case None
      have "told ?c \<union> {x. outcome_of d = Some x} = told ?c" unfolding None by simp
      then show ?thesis unfolding c' by simp
    next
      case (Some x)
      then have "definite d" by (cases d) auto
      with read_verdict [OF inv', of d] Some v have "decided ?c = Some x" by (simp add: commitment_of_def reads)
      from tells [OF this, of n] have "commitment_step n ?c (commitment_of n tid plan \<sigma>')"
        unfolding c' Some by simp
      then show ?thesis by simp
    qed
  qed
qed

interpretation implemented: simulation "protocol_step tid plan" "commitment_step n"
  "\<lambda>\<sigma>. protocol_inv n tid plan \<sigma> \<and> participants n tid E req plan res" "commitment_of n tid plan"
  by unfold_locales (auto intro: inv_step [OF _ _ participants_votes_own] protocol_step_simulated)

lemma opened_simulated:
  assumes "vote_opened tid n \<sigma>"
  shows "(commitment_step n)\<^sup>*\<^sup>* no_commitment (commitment_of n tid plan \<sigma>)"
proof -
  let ?c = "commitment_of n tid plan \<sigma>" and ?c1 = "no_commitment\<lparr>promised := promise n tid plan \<sigma>\<rparr>"
  have c: "?c = ?c1\<lparr>decided := outcome_of (verdict tid \<sigma>)\<rparr>"
    using assms by (simp add: commitment_of_def no_commitment_def vote_opened_def ending_def)
  have "(\<lambda>i. if i < n then promise n tid plan \<sigma> i else None) = promise n tid plan \<sigma>" by (auto simp: promise_def)
  then have 1: "(commitment_step n)\<^sup>*\<^sup>* no_commitment ?c1"
    using promises_many [of n n no_commitment "promise n tid plan \<sigma>"] by (simp add: no_commitment_def)
  have undecided: "decided ?c1 = None" by (simp add: no_commitment_def)
  have "\<forall>i < n. promised ?c1 i = Some BALLOT_COMMIT" if "verdict tid \<sigma> = VOTING_DECISION_COMMIT"
    using verdict_commit [OF inv_opened [OF assms] that] by (auto simp: promise_def)
  then have "?c = ?c1 \<or> commitment_step n ?c1 ?c"
    using decides_commit [OF undecided] decides_abort [OF undecided] undecided
    unfolding c by (cases "verdict tid \<sigma>") auto
  with 1 show ?thesis by auto
qed

end
