(* ===== verification/Lmdb_Adapter.thy ===== *)
theory Lmdb_Adapter
  imports Db_Adapter
begin

unbundle bit_operations_syntax

text \<open>
  \<open>db::LMDBDatabaseTransactionAdapter\<close> (\<open>src/db/lmdb_database_transaction_adapter.{h,cc}\<close>). The
  LMDB library with its C++ wrapper is a parameter: a record of the calls the adapter makes, over
  environments, transactions and database handles of any type. A call that throws
  \<open>lmdb::error\<close>, or that blocks for ever, has the result \<^term>\<open>None\<close>. A \<open>lmdb::txn\<close> aborts in its
  destructor only when it was neither committed nor aborted, which \<open>ReleaseTransaction\<close> never meets.
\<close>

type_synonym byte = "8 word"

record ('env, 'txn, 'dbi, 'w) lmdb_lib =
  lib_env_create :: "'w \<Rightarrow> ('env \<times> 'w) option"
  lib_set_mapsize :: "'env \<Rightarrow> nat \<Rightarrow> 'w \<Rightarrow> 'w option"
  lib_env_open :: "'env \<Rightarrow> string \<Rightarrow> nat \<Rightarrow> nat \<Rightarrow> 'w \<Rightarrow> 'w option"
  lib_txn_begin :: "'env \<Rightarrow> nat \<Rightarrow> 'w \<Rightarrow> ('txn \<times> 'w) option"
  lib_dbi_open :: "'txn \<Rightarrow> 'w \<Rightarrow> ('dbi \<times> 'w) option"
  lib_txn_commit :: "'txn \<Rightarrow> 'w \<Rightarrow> 'w option"
  lib_txn_abort :: "'txn \<Rightarrow> 'w \<Rightarrow> 'w option"
  lib_dbi_get :: "'dbi \<Rightarrow> 'txn \<Rightarrow> string \<Rightarrow> 'w \<Rightarrow> byte list option option"
  lib_dbi_put :: "'dbi \<Rightarrow> 'txn \<Rightarrow> string \<Rightarrow> byte list \<Rightarrow> 'w \<Rightarrow> (bool \<times> 'w) option"

record ('env, 'txn, 'dbi) lmdb_adapter =
  db_path :: string
  is_readonly :: bool
  env :: "'env option"
  txn :: "'txn option"
  dbi :: "'dbi option"

abbreviation (input) MDB_RDONLY :: nat where "MDB_RDONLY \<equiv> 131072"

definition k1GbMapsize :: nat where
  "k1GbMapsize = 1 * 1024 * 1024 * 1024"

text \<open>\<open>S_IRUSR | S_IWUSR\<close>.\<close>

definition kFileOpenMode :: nat where
  "kFileOpenMode = 256 + 128"

subsection \<open>An int64 as the bytes LMDB stores\<close>

text \<open>\<open>lmdb::val{&value, sizeof(int64_t)}\<close> and \<open>*val.data<int64_t>()\<close> on a little-endian machine.\<close>

definition bytes_of_int64 :: "int64 \<Rightarrow> byte list" where
  "bytes_of_int64 v = map (\<lambda>i. ucast (drop_bit (8 * i) v)) [0 ..< 8]"

fun word_of_bytes :: "byte list \<Rightarrow> int64" where
  "word_of_bytes [] = 0"
| "word_of_bytes (b # bs) = ucast b OR push_bit 8 (word_of_bytes bs)"

text \<open>Reading eight bytes of a shorter value is out of bounds.\<close>

definition int64_of_bytes :: "byte list \<Rightarrow> int64 option" where
  "int64_of_bytes bs = (if length bs < 8 then None else Some (word_of_bytes (take 8 bs)))"

subsection \<open>The operations\<close>

definition lmdb_Connect ::
  "('env, 'txn, 'dbi, 'w) lmdb_lib \<Rightarrow> ('env, 'txn, 'dbi) lmdb_adapter \<Rightarrow> 'w \<Rightarrow>
   (('env, 'txn, 'dbi) lmdb_adapter \<times> 'w) option" where
  "lmdb_Connect lib d w = do {
     (e, w) \<leftarrow> lib_env_create lib w;
     w \<leftarrow> lib_set_mapsize lib e k1GbMapsize w;
     w \<leftarrow> lib_env_open lib e (db_path d) 0 kFileOpenMode w;
     Some (d\<lparr>env := Some e\<rparr>, w)
   }"

definition lmdb_create ::
  "('env, 'txn, 'dbi, 'w) lmdb_lib \<Rightarrow> string \<Rightarrow> 'w \<Rightarrow>
   (('env, 'txn, 'dbi) lmdb_adapter \<times> 'w) option" where
  "lmdb_create lib path w =
     lmdb_Connect lib \<lparr>db_path = path, is_readonly = False, env = None, txn = None, dbi = None\<rparr> w"

definition ReleaseTransaction ::
  "('env, 'txn, 'dbi) lmdb_adapter \<Rightarrow> ('env, 'txn, 'dbi) lmdb_adapter" where
  "ReleaseTransaction d = d\<lparr>txn := None, dbi := None\<rparr>"

definition FailedPreconditionError :: "string \<Rightarrow> absl_status" where
  "FailedPreconditionError msg = mk_absl_status kFailedPrecondition msg"

definition InternalError :: "string \<Rightarrow> absl_status" where
  "InternalError msg = mk_absl_status kInternal msg"

definition lmdb_Begin ::
  "('env, 'txn, 'dbi, 'w) lmdb_lib \<Rightarrow> ('env, 'txn, 'dbi) lmdb_adapter \<Rightarrow> 'w \<Rightarrow>
   (absl_status \<times> ('env, 'txn, 'dbi) lmdb_adapter \<times> 'w) option" where
  "lmdb_Begin lib d w =
     (if txn d \<noteq> None
      then Some (FailedPreconditionError
        ''Cannot open another transaction while a transaction hasn't commited or aborted yet.'', d, w)
      else do {
        e \<leftarrow> env d;
        (t, w) \<leftarrow> lib_txn_begin lib e 0 w;
        (b, w) \<leftarrow> lib_dbi_open lib t w;
        Some (OkStatus, d\<lparr>is_readonly := False, txn := Some t, dbi := Some b\<rparr>, w)
      })"

definition lmdb_BeginReadOnly ::
  "('env, 'txn, 'dbi, 'w) lmdb_lib \<Rightarrow> ('env, 'txn, 'dbi) lmdb_adapter \<Rightarrow> 'w \<Rightarrow>
   (absl_status \<times> ('env, 'txn, 'dbi) lmdb_adapter \<times> 'w) option" where
  "lmdb_BeginReadOnly lib d w =
     (if txn d \<noteq> None
      then Some (FailedPreconditionError
        ''Cannot open another transaction while a transaction hasn't commited or aborted yet.'', d, w)
      else do {
        e \<leftarrow> env d;
        (t, w) \<leftarrow> lib_txn_begin lib e MDB_RDONLY w;
        (b, w) \<leftarrow> lib_dbi_open lib t w;
        Some (OkStatus, d\<lparr>is_readonly := True, txn := Some t, dbi := Some b\<rparr>, w)
      })"

definition lmdb_Commit ::
  "('env, 'txn, 'dbi, 'w) lmdb_lib \<Rightarrow> ('env, 'txn, 'dbi) lmdb_adapter \<Rightarrow> 'w \<Rightarrow>
   (absl_status \<times> ('env, 'txn, 'dbi) lmdb_adapter \<times> 'w) option" where
  "lmdb_Commit lib d w =
     (case txn d of
        None \<Rightarrow> Some (FailedPreconditionError
          ''No valid transaction to Commit. Please Begin() first.'', d, w)
      | Some t \<Rightarrow> do {
          w \<leftarrow> lib_txn_commit lib t w;
          Some (OkStatus, ReleaseTransaction d, w)
        })"

definition lmdb_Abort ::
  "('env, 'txn, 'dbi, 'w) lmdb_lib \<Rightarrow> ('env, 'txn, 'dbi) lmdb_adapter \<Rightarrow> 'w \<Rightarrow>
   (absl_status \<times> ('env, 'txn, 'dbi) lmdb_adapter \<times> 'w) option" where
  "lmdb_Abort lib d w =
     (case txn d of
        None \<Rightarrow> Some (FailedPreconditionError
          ''No valid transaction to Abort. Please Begin() first.'', d, w)
      | Some t \<Rightarrow> do {
          w \<leftarrow> lib_txn_abort lib t w;
          Some (OkStatus, ReleaseTransaction d, w)
        })"

definition lmdb_Get ::
  "('env, 'txn, 'dbi, 'w) lmdb_lib \<Rightarrow> ('env, 'txn, 'dbi) lmdb_adapter \<Rightarrow> string \<Rightarrow> 'w \<Rightarrow>
   ((absl_status + int64) \<times> ('env, 'txn, 'dbi) lmdb_adapter \<times> 'w) option" where
  "lmdb_Get lib d key w =
     (case txn d of
        None \<Rightarrow> Some (Inl (FailedPreconditionError
          ''No valid transaction available. Please Begin() first.''), d, w)
      | Some t \<Rightarrow> do {
          b \<leftarrow> dbi d;
          found \<leftarrow> lib_dbi_get lib b t key w;
          (case found of
             None \<Rightarrow> Some (Inl (InternalError ''Get failed.''), d, w)
           | Some val \<Rightarrow> do {
               output_value \<leftarrow> int64_of_bytes val;
               Some (Inr output_value, d, w)
             })
        })"

definition lmdb_Put ::
  "('env, 'txn, 'dbi, 'w) lmdb_lib \<Rightarrow> ('env, 'txn, 'dbi) lmdb_adapter \<Rightarrow> string \<Rightarrow> int64 \<Rightarrow> 'w \<Rightarrow>
   (absl_status \<times> ('env, 'txn, 'dbi) lmdb_adapter \<times> 'w) option" where
  "lmdb_Put lib d key value w =
     (case txn d of
        None \<Rightarrow> Some (FailedPreconditionError
          ''No valid transaction available. Please Begin() first.'', d, w)
      | Some t \<Rightarrow>
          if is_readonly d
          then Some (FailedPreconditionError (''Cannot call Put with read only transaction. '' @
            ''Please Abort() or Commit() the current transaction and call Begin() instead.''), d, w)
          else do {
            b \<leftarrow> dbi d;
            (stored, w) \<leftarrow> lib_dbi_put lib b t key (bytes_of_int64 value) w;
            Some (if \<not> stored then InternalError ''Put failed.'' else OkStatus, d, w)
          })"

definition lmdb_db :: "('env, 'txn, 'dbi, 'w) lmdb_lib \<Rightarrow>
    (('env, 'txn, 'dbi) lmdb_adapter, 'w) db_adapter" where
  "lmdb_db lib = \<lparr>
     SupportsConcurrentWrites = (\<lambda>_. False),
     Begin = lmdb_Begin lib, BeginReadOnly = lmdb_BeginReadOnly lib,
     Commit = lmdb_Commit lib, Abort = lmdb_Abort lib,
     Get = lmdb_Get lib, Put = lmdb_Put lib\<rparr>"

subsection \<open>Encoding round trip\<close>

lemma length_bytes_of_int64 [simp]: "length (bytes_of_int64 v) = 8"
  by (simp add: bytes_of_int64_def)

lemma low_byte_and_rest: "ucast (ucast x :: byte) OR push_bit 8 (drop_bit 8 x) = (x :: int64)"
proof (rule bit_word_eqI)
  fix n assume "n < LENGTH(64)"
  then show "bit (ucast (ucast x :: byte) OR push_bit 8 (drop_bit 8 x)) n = bit x n"
    by (cases "n < 8") (auto simp: bit_simps)
qed

lemma word_of_bytes_from:
  "k \<le> 8 \<Longrightarrow> word_of_bytes (map (\<lambda>i. ucast (drop_bit (8 * i) v)) [8 - k ..< 8]) = drop_bit (8 * (8 - k)) v"
proof (induction k)
  case 0
  then show ?case by (rule_tac bit_word_eqI) (simp add: bit_simps)
next
  case (Suc k)
  let ?j = "8 - Suc k"
  have "[?j ..< 8] = ?j # [Suc ?j ..< 8]" by (rule upt_conv_Cons) simp
  moreover have "Suc ?j = 8 - k" using Suc.prems by simp
  ultimately have "[?j ..< 8] = ?j # [8 - k ..< 8]" by simp
  then have "word_of_bytes (map (\<lambda>i. ucast (drop_bit (8 * i) v)) [?j ..< 8]) =
      ucast (ucast (drop_bit (8 * ?j) v) :: byte) OR push_bit 8 (drop_bit (8 * (8 - k)) v)"
    using Suc.IH Suc.prems by simp
  moreover have "drop_bit (8 * (8 - k)) v = drop_bit 8 (drop_bit (8 * ?j) v)"
  proof -
    have "8 * (8 - k) = 8 + 8 * ?j" using Suc.prems by simp
    then show ?thesis by (simp add: drop_bit_drop_bit)
  qed
  ultimately show ?case by (simp only: low_byte_and_rest)
qed

lemma word_of_bytes_of_int64: "word_of_bytes (bytes_of_int64 v) = v"
  using word_of_bytes_from [of 8 v] by (simp add: bytes_of_int64_def)

lemma int64_of_bytes_of_int64 [simp]: "int64_of_bytes (bytes_of_int64 v) = Some v"
  by (simp add: int64_of_bytes_def word_of_bytes_of_int64)

subsection \<open>The contract of the adapter, from the documented behaviour of LMDB\<close>

type_synonym raw = "string \<rightharpoonup> byte list"

text \<open>The stored bytes as integers; an adapter only ever stores eight bytes.\<close>

definition decode :: "raw \<Rightarrow> kv" where
  "decode m = (\<lambda>k. Option.bind (m k) int64_of_bytes)"

definition all_int64 :: "raw \<Rightarrow> bool" where
  "all_int64 m \<longleftrightarrow> (\<forall>k bs. m k = Some bs \<longrightarrow> int64_of_bytes bs \<noteq> None)"

text \<open>
  What LMDB documents of the calls above. \<open>committed\<close> is the committed data of the environment,
  \<open>view\<close> a live transaction's kind (read-only or not) and data, \<open>writer_free\<close> says that no write
  transaction is open (a second one blocks in \<open>mdb_txn_begin\<close>), and \<open>opened\<close> that an environment
  handle is open. A read-only transaction reads the snapshot at its begin. Keys have at least one and
  at most 511 bytes; nothing is assumed of the calls with other keys (\<open>lmdb::error\<close> is thrown). The laws
  of \<open>put\<close> and \<open>commit\<close> describe a disk that works and a map that is not full.
\<close>

definition valid_key :: "string \<Rightarrow> bool" where
  "valid_key k \<longleftrightarrow> 0 < length k \<and> length k \<le> 511"

locale lmdb =
  fixes lib :: "('env, 'txn, 'dbi, 'w) lmdb_lib"
    and committed :: "'w \<Rightarrow> raw"
    and view :: "'txn \<Rightarrow> 'w \<Rightarrow> (bool \<times> raw) option"
    and writer_free :: "'w \<Rightarrow> bool"
    and opened :: "'env \<Rightarrow> 'w \<Rightarrow> bool"
  assumes begin_rw: "opened e w \<Longrightarrow> writer_free w \<Longrightarrow>
      \<exists>t w'. lib_txn_begin lib e 0 w = Some (t, w') \<and> view t w' = Some (False, committed w) \<and>
        committed w' = committed w \<and> (\<forall>e'. opened e' w \<longrightarrow> opened e' w')"
    and begin_ro: "opened e w \<Longrightarrow>
      \<exists>t w'. lib_txn_begin lib e MDB_RDONLY w = Some (t, w') \<and> view t w' = Some (True, committed w) \<and>
        committed w' = committed w \<and> writer_free w' = writer_free w \<and> (\<forall>e'. opened e' w \<longrightarrow> opened e' w')"
    and open_dbi: "view t w = Some v \<Longrightarrow> \<exists>b. lib_dbi_open lib t w = Some (b, w)"
    and get: "view t w = Some (ro, m) \<Longrightarrow> valid_key k \<Longrightarrow> lib_dbi_get lib b t k w = Some (m k)"
    and put: "view t w = Some (False, m) \<Longrightarrow> valid_key k \<Longrightarrow>
      \<exists>w'. lib_dbi_put lib b t k bs w = Some (True, w') \<and> view t w' = Some (False, m(k \<mapsto> bs)) \<and>
        committed w' = committed w \<and> (\<forall>e. opened e w \<longrightarrow> opened e w')"
    and commit: "view t w = Some (ro, m) \<Longrightarrow>
      \<exists>w'. lib_txn_commit lib t w = Some w' \<and> committed w' = (if ro then committed w else m) \<and>
        (writer_free w \<or> \<not> ro \<longrightarrow> writer_free w') \<and> (\<forall>e. opened e w \<longrightarrow> opened e w')"
    and abort: "view t w = Some (ro, m) \<Longrightarrow>
      \<exists>w'. lib_txn_abort lib t w = Some w' \<and> committed w' = committed w \<and>
        (writer_free w \<or> \<not> ro \<longrightarrow> writer_free w') \<and> (\<forall>e. opened e w \<longrightarrow> opened e w')"
begin

definition txn_of :: "('env, 'txn, 'dbi) lmdb_adapter \<Rightarrow> 'w \<Rightarrow> db_txn" where
  "txn_of d w = (case txn d of
     None \<Rightarrow> NoTxn
   | Some t \<Rightarrow> (case view t w of
       None \<Rightarrow> NoTxn
     | Some (ro, m) \<Rightarrow> if ro then ReadTxn (decode m) else WriteTxn (decode m)))"

definition good :: "('env, 'txn, 'dbi) lmdb_adapter \<Rightarrow> 'w \<Rightarrow> bool" where
  "good d w \<longleftrightarrow> (\<exists>e. env d = Some e \<and> opened e w) \<and> all_int64 (committed w) \<and>
     (case txn d of
        None \<Rightarrow> writer_free w
      | Some t \<Rightarrow> (\<exists>ro m. view t w = Some (ro, m) \<and> is_readonly d = ro \<and> all_int64 m \<and>
          dbi d \<noteq> None \<and> (ro \<longrightarrow> writer_free w)))"

lemma decode_upd: "decode (m(k \<mapsto> bytes_of_int64 v)) = (decode m)(k \<mapsto> v)"
  by (simp add: decode_def fun_eq_iff)

lemma all_int64_upd [simp]: "all_int64 m \<Longrightarrow> all_int64 (m(k \<mapsto> bytes_of_int64 v))"
  by (simp add: all_int64_def)

lemma good_NoTxn: "good d w \<Longrightarrow> txn_of d w = NoTxn \<longleftrightarrow> txn d = None"
  by (auto simp: good_def txn_of_def split: option.splits prod.splits if_splits)

lemma good_view:
  assumes "good d w" and "txn d = Some t"
  obtains e ro m b where "env d = Some e" "opened e w" "view t w = Some (ro, m)"
    "is_readonly d = ro" "all_int64 m" "dbi d = Some b" "ro \<longrightarrow> writer_free w"
    "all_int64 (committed w)"
  using assms by (auto simp: good_def)

lemma get_decodes:
  assumes "all_int64 m"
  shows "(decode m k = None) = (m k = None)" and "m k = Some bs \<Longrightarrow> int64_of_bytes bs = decode m k"
  using assms by (cases "m k"; auto simp: decode_def all_int64_def)+

end


lemma lmdb_db_simps [simp]:
  "SupportsConcurrentWrites (lmdb_db lib) d = False"
  "Begin (lmdb_db lib) = lmdb_Begin lib" "BeginReadOnly (lmdb_db lib) = lmdb_BeginReadOnly lib"
  "Commit (lmdb_db lib) = lmdb_Commit lib" "Abort (lmdb_db lib) = lmdb_Abort lib"
  "Get (lmdb_db lib) = lmdb_Get lib" "Put (lmdb_db lib) = lmdb_Put lib"
  by (simp_all add: lmdb_db_def)

context lmdb
begin

lemma Begin_contract:
  assumes "good d w" and "txn_of d w = NoTxn"
  shows "\<exists>d' w'. lmdb_Begin lib d w = Some (OkStatus, d', w') \<and> good d' w' \<and>
    decode (committed w') = decode (committed w) \<and> txn_of d' w' = WriteTxn (decode (committed w))"
proof -
  obtain e where e: "env d = Some e" "opened e w" and "txn d = None" "writer_free w" "all_int64 (committed w)"
    using assms good_NoTxn [of d w] by (auto simp: good_def)
  obtain t w' where t: "lib_txn_begin lib e 0 w = Some (t, w')" "view t w' = Some (False, committed w)"
    "committed w' = committed w" "opened e w'"
    using begin_rw [OF e(2) \<open>writer_free w\<close>] e(2) by blast
  obtain b where "lib_dbi_open lib t w' = Some (b, w')" using open_dbi [OF t(2)] by blast
  then show ?thesis
    using e t \<open>txn d = None\<close> \<open>all_int64 (committed w)\<close>
    by (auto simp: lmdb_Begin_def good_def txn_of_def)
qed

lemma BeginReadOnly_contract:
  assumes "good d w" and "txn_of d w = NoTxn"
  shows "\<exists>d' w'. lmdb_BeginReadOnly lib d w = Some (OkStatus, d', w') \<and> good d' w' \<and>
    decode (committed w') = decode (committed w) \<and> txn_of d' w' = ReadTxn (decode (committed w))"
proof -
  obtain e where e: "env d = Some e" "opened e w" and "txn d = None" "writer_free w" "all_int64 (committed w)"
    using assms good_NoTxn [of d w] by (auto simp: good_def)
  obtain t w' where t: "lib_txn_begin lib e MDB_RDONLY w = Some (t, w')"
    "view t w' = Some (True, committed w)" "committed w' = committed w" "opened e w'" "writer_free w'"
    using begin_ro [OF e(2)] e(2) \<open>writer_free w\<close> by blast
  obtain b where "lib_dbi_open lib t w' = Some (b, w')" using open_dbi [OF t(2)] by blast
  then show ?thesis
    using e t \<open>txn d = None\<close> \<open>all_int64 (committed w)\<close>
    by (auto simp: lmdb_BeginReadOnly_def good_def txn_of_def)
qed

lemma open_txn:
  assumes "good d w" and "txn_data (txn_of d w) = Some m"
  obtains t b ro raw e where "txn d = Some t" "dbi d = Some b" "view t w = Some (ro, raw)"
    "m = decode raw" "all_int64 raw" "is_readonly d = ro" "env d = Some e" "opened e w"
    "all_int64 (committed w)" "ro \<longrightarrow> writer_free w" "ro \<longleftrightarrow> txn_of d w = ReadTxn m"
  using assms by (auto simp: good_def txn_of_def split: option.splits prod.splits if_splits)

lemma Get_contract:
  assumes "good d w" and "txn_data (txn_of d w) = Some m" and "valid_key k"
  shows "lmdb_Get lib d k w =
    Some (case m k of None \<Rightarrow> Inl (InternalError ''Get failed.'') | Some v \<Rightarrow> Inr v, d, w)"
proof -
  obtain t b ro raw e where *: "txn d = Some t" "dbi d = Some b" "view t w = Some (ro, raw)"
    "m = decode raw" "all_int64 raw"
    using assms(1,2) by (rule open_txn)
  then show ?thesis
    using get [OF *(3) assms(3), of b] get_decodes [OF *(5), of k]
    by (cases "raw k") (auto simp: lmdb_Get_def)
qed

lemma Put_contract:
  assumes "good d w" and "txn_of d w = WriteTxn m" and "valid_key k"
  shows "\<exists>d' w'. lmdb_Put lib d k v w = Some (OkStatus, d', w') \<and> good d' w' \<and>
    decode (committed w') = decode (committed w) \<and> txn_of d' w' = WriteTxn (m(k \<mapsto> v))"
proof -
  have "txn_data (txn_of d w) = Some m" using assms(2) by simp
  with assms(1) obtain t b ro raw e where *: "txn d = Some t" "dbi d = Some b" "view t w = Some (ro, raw)"
    "m = decode raw" "all_int64 raw" "is_readonly d = ro" "env d = Some e" "opened e w"
    "all_int64 (committed w)" "ro \<longleftrightarrow> txn_of d w = ReadTxn m"
    by (rule open_txn)
  then have "\<not> ro" using assms(2) by simp
  with * obtain w' where w': "lib_dbi_put lib b t k (bytes_of_int64 v) w = Some (True, w')"
    "view t w' = Some (False, raw(k \<mapsto> bytes_of_int64 v))" "committed w' = committed w" "opened e w'"
    using put [OF _ assms(3), of t w raw b "bytes_of_int64 v"] by auto
  then have "lmdb_Put lib d k v w = Some (OkStatus, d, w')" using * \<open>\<not> ro\<close> by (simp add: lmdb_Put_def)
  moreover have "good d w'" using * w' \<open>\<not> ro\<close> by (auto simp: good_def)
  moreover have "txn_of d w' = WriteTxn (m(k \<mapsto> v))" using * w' by (simp add: txn_of_def decode_upd)
  ultimately show ?thesis using w'(3) by auto
qed

lemma Commit_contract:
  assumes "good d w" and "txn_data (txn_of d w) = Some m"
  shows "\<exists>d' w'. lmdb_Commit lib d w = Some (OkStatus, d', w') \<and> good d' w' \<and>
    decode (committed w') = (if txn_of d w = ReadTxn m then decode (committed w) else m) \<and>
    txn_of d' w' = NoTxn"
proof -
  from assms obtain t b ro raw e where *: "txn d = Some t" "dbi d = Some b" "view t w = Some (ro, raw)"
    "m = decode raw" "all_int64 raw" "is_readonly d = ro" "env d = Some e" "opened e w"
    "all_int64 (committed w)" "ro \<longrightarrow> writer_free w" "ro \<longleftrightarrow> txn_of d w = ReadTxn m"
    by (rule open_txn)
  with commit [OF *(3)] obtain w' where "lib_txn_commit lib t w = Some w'"
    "committed w' = (if ro then committed w else raw)" "writer_free w'" "opened e w'" by auto
  with * show ?thesis
    by (auto simp: lmdb_Commit_def ReleaseTransaction_def good_def txn_of_def split: if_splits)
qed

lemma Abort_contract:
  assumes "good d w" and "txn_data (txn_of d w) = Some m"
  shows "\<exists>d' w'. lmdb_Abort lib d w = Some (OkStatus, d', w') \<and> good d' w' \<and>
    decode (committed w') = decode (committed w) \<and> txn_of d' w' = NoTxn"
proof -
  from assms obtain t b ro raw e where *: "txn d = Some t" "dbi d = Some b" "view t w = Some (ro, raw)"
    "m = decode raw" "all_int64 raw" "is_readonly d = ro" "env d = Some e" "opened e w"
    "all_int64 (committed w)" "ro \<longrightarrow> writer_free w" "ro \<longleftrightarrow> txn_of d w = ReadTxn m"
    by (rule open_txn)
  with abort [OF *(3)] obtain w' where "lib_txn_abort lib t w = Some w'"
    "committed w' = committed w" "writer_free w'" "opened e w'" by auto
  with * show ?thesis
    by (auto simp: lmdb_Abort_def ReleaseTransaction_def good_def txn_of_def)
qed

lemma closed_txn: "good d w \<Longrightarrow> txn_of d w = NoTxn \<Longrightarrow> txn d = None"
  by (simp add: good_NoTxn)

lemma txn_data_open: "x \<noteq> NoTxn \<Longrightarrow> \<exists>m. txn_data x = Some m"
  by (cases x) auto

end

sublocale lmdb \<subseteq> adapter: db_contract "lmdb_db lib" "\<lambda>w. decode (committed w)" txn_of good
  "InternalError ''Get failed.''" valid_key
proof unfold_locales
  fix d w k v m
  show "\<not> absl_ok (InternalError ''Get failed.'')" by (simp add: InternalError_def)
  assume g: "good d w"
  show "\<exists>d' w'. Begin (lmdb_db lib) d w = Some (OkStatus, d', w') \<and> good d' w' \<and>
      decode (committed w') = decode (committed w) \<and> txn_of d' w' = WriteTxn (decode (committed w))"
    if "txn_of d w = NoTxn" using Begin_contract [OF g that] by simp
  show "\<exists>d' w'. BeginReadOnly (lmdb_db lib) d w = Some (OkStatus, d', w') \<and> good d' w' \<and>
      decode (committed w') = decode (committed w) \<and> txn_of d' w' = ReadTxn (decode (committed w))"
    if "txn_of d w = NoTxn" using BeginReadOnly_contract [OF g that] by simp
  show "Get (lmdb_db lib) d k w = Some (Inr v, d, w)"
    if "txn_data (txn_of d w) = Some m" "valid_key k" "m k = Some v"
    using Get_contract [OF g that(1,2)] that(3) by simp
  show "Get (lmdb_db lib) d k w = Some (Inl (InternalError ''Get failed.''), d, w)"
    if "txn_data (txn_of d w) = Some m" "valid_key k" "m k = None"
    using Get_contract [OF g that(1,2)] that(3) by simp
  show "\<exists>d' w'. Put (lmdb_db lib) d k v w = Some (OkStatus, d', w') \<and> good d' w' \<and>
      decode (committed w') = decode (committed w) \<and> txn_of d' w' = WriteTxn (m(k \<mapsto> v))"
    if "txn_of d w = WriteTxn m" "valid_key k" using Put_contract [OF g that, of v] by simp
  show "\<exists>d' w'. Commit (lmdb_db lib) d w = Some (OkStatus, d', w') \<and> good d' w' \<and>
      decode (committed w') = m \<and> txn_of d' w' = NoTxn" if "txn_of d w = WriteTxn m"
    using Commit_contract [OF g, of m] that by simp
  show "\<exists>d' w'. Commit (lmdb_db lib) d w = Some (OkStatus, d', w') \<and> good d' w' \<and>
      decode (committed w') = decode (committed w) \<and> txn_of d' w' = NoTxn" if "txn_of d w = ReadTxn m"
    using Commit_contract [OF g, of m] that by simp
  show "\<exists>d' w'. Abort (lmdb_db lib) d w = Some (OkStatus, d', w') \<and> good d' w' \<and>
      decode (committed w') = decode (committed w) \<and> txn_of d' w' = NoTxn" if "txn_of d w \<noteq> NoTxn"
    using Abort_contract [OF g] txn_data_open [OF that] by auto
  assume "txn_of d w = NoTxn"
  with g have "txn d = None" by (rule closed_txn)
  then show "\<exists>st. Abort (lmdb_db lib) d w = Some (st, d, w) \<and> raw_code st = kFailedPrecondition"
    and "\<exists>st. Commit (lmdb_db lib) d w = Some (st, d, w) \<and> raw_code st = kFailedPrecondition"
    and "\<exists>st. Get (lmdb_db lib) d k w = Some (Inl st, d, w) \<and> raw_code st = kFailedPrecondition"
    and "\<exists>st. Put (lmdb_db lib) d k v w = Some (st, d, w) \<and> raw_code st = kFailedPrecondition"
    by (simp_all add: lmdb_Abort_def lmdb_Commit_def lmdb_Get_def lmdb_Put_def FailedPreconditionError_def)
qed

context lmdb begin

lemma axioms_db: "db_contract (lmdb_db lib) (\<lambda>w. decode (committed w)) txn_of good (InternalError ''Get failed.'')
    valid_key"
  by (rule adapter.db_contract_axioms)

end

subsection \<open>A concrete LMDB\<close>

text \<open>
  An environment that behaves as documented: one writer at a time with its private copy of the data,
  any number of readers with the snapshot they began with. It instantiates the library parameter.
\<close>

datatype mdb_txn = Writer | Reader nat

record mdb =
  mdb_data :: raw
  mdb_writer :: "raw option"
  mdb_readers :: "nat \<rightharpoonup> raw"
  mdb_next :: nat

definition mdb_empty :: mdb where
  "mdb_empty = \<lparr>mdb_data = Map.empty, mdb_writer = None, mdb_readers = Map.empty, mdb_next = 0\<rparr>"

fun mdb_view :: "mdb_txn \<Rightarrow> mdb \<Rightarrow> (bool \<times> raw) option" where
  "mdb_view Writer w = map_option (\<lambda>m. (False, m)) (mdb_writer w)"
| "mdb_view (Reader n) w = map_option (\<lambda>m. (True, m)) (mdb_readers w n)"

definition mdb_begin :: "unit \<Rightarrow> nat \<Rightarrow> mdb \<Rightarrow> (mdb_txn \<times> mdb) option" where
  "mdb_begin e flags w =
     (if flags = MDB_RDONLY
      then Some (Reader (mdb_next w), w\<lparr>mdb_readers := (mdb_readers w)(mdb_next w \<mapsto> mdb_data w),
                                        mdb_next := Suc (mdb_next w)\<rparr>)
      else case mdb_writer w of
        None \<Rightarrow> Some (Writer, w\<lparr>mdb_writer := Some (mdb_data w)\<rparr>)
      | Some _ \<Rightarrow> None)"

fun mdb_end :: "bool \<Rightarrow> mdb_txn \<Rightarrow> mdb \<Rightarrow> mdb option" where
  "mdb_end keep Writer w = (case mdb_writer w of
     None \<Rightarrow> None
   | Some m \<Rightarrow> Some (w\<lparr>mdb_writer := None, mdb_data := (if keep then m else mdb_data w)\<rparr>))"
| "mdb_end keep (Reader n) w = (case mdb_readers w n of
     None \<Rightarrow> None
   | Some m \<Rightarrow> Some (w\<lparr>mdb_readers := (mdb_readers w)(n := None)\<rparr>))"

definition mdb_lib :: "(unit, mdb_txn, unit, mdb) lmdb_lib" where
  "mdb_lib = \<lparr>
     lib_env_create = (\<lambda>w. Some ((), w)),
     lib_set_mapsize = (\<lambda>_ _ w. Some w),
     lib_env_open = (\<lambda>_ _ _ _ w. Some w),
     lib_txn_begin = mdb_begin,
     lib_dbi_open = (\<lambda>_ w. Some ((), w)),
     lib_txn_commit = mdb_end True,
     lib_txn_abort = mdb_end False,
     lib_dbi_get = (\<lambda>_ t k w. if k = [] then None else map_option (\<lambda>(_, m). m k) (mdb_view t w)),
     lib_dbi_put = (\<lambda>_ t k bs w. case mdb_view t w of
        Some (False, m) \<Rightarrow> if \<not> valid_key k then None else Some (True, w\<lparr>mdb_writer := Some (m(k \<mapsto> bs))\<rparr>)
      | _ \<Rightarrow> None)\<rparr>"

interpretation mdb: lmdb mdb_lib mdb_data mdb_view "\<lambda>w. mdb_writer w = None" "\<lambda>_ _. True"
proof unfold_locales
  fix e w t v ro m b k bs
  show "mdb_writer w = None \<Longrightarrow> \<exists>t w'. lib_txn_begin mdb_lib e 0 w = Some (t, w') \<and>
      mdb_view t w' = Some (False, mdb_data w) \<and> mdb_data w' = mdb_data w \<and> (\<forall>e'. True \<longrightarrow> True)"
    by (auto simp: mdb_lib_def mdb_begin_def)
  show "\<exists>t w'. lib_txn_begin mdb_lib e MDB_RDONLY w = Some (t, w') \<and>
      mdb_view t w' = Some (True, mdb_data w) \<and> mdb_data w' = mdb_data w \<and>
      (mdb_writer w' = None) = (mdb_writer w = None) \<and> (\<forall>e'. True \<longrightarrow> True)"
    by (auto simp: mdb_lib_def mdb_begin_def)
  show "\<exists>b. lib_dbi_open mdb_lib t w = Some (b, w)" by (simp add: mdb_lib_def)
  show "mdb_view t w = Some (ro, m) \<Longrightarrow> valid_key k \<Longrightarrow> lib_dbi_get mdb_lib b t k w = Some (m k)"
    by (auto simp: mdb_lib_def valid_key_def)
  show "mdb_view t w = Some (False, m) \<Longrightarrow> valid_key k \<Longrightarrow> \<exists>w'. lib_dbi_put mdb_lib b t k bs w = Some (True, w') \<and>
      mdb_view t w' = Some (False, m(k \<mapsto> bs)) \<and> mdb_data w' = mdb_data w \<and> (\<forall>e. True \<longrightarrow> True)"
    by (cases t) (auto simp: mdb_lib_def)
  show "mdb_view t w = Some (ro, m) \<Longrightarrow> \<exists>w'. lib_txn_commit mdb_lib t w = Some w' \<and>
      mdb_data w' = (if ro then mdb_data w else m) \<and>
      (mdb_writer w = None \<or> \<not> ro \<longrightarrow> mdb_writer w' = None) \<and> (\<forall>e. True \<longrightarrow> True)"
    by (cases t) (auto simp: mdb_lib_def)
  show "mdb_view t w = Some (ro, m) \<Longrightarrow> \<exists>w'. lib_txn_abort mdb_lib t w = Some w' \<and>
      mdb_data w' = mdb_data w \<and>
      (mdb_writer w = None \<or> \<not> ro \<longrightarrow> mdb_writer w' = None) \<and> (\<forall>e. True \<longrightarrow> True)"
    by (cases t) (auto simp: mdb_lib_def)
qed

end
