(* ===== verification/Cohort_Db.thy ===== *)
theory Cohort_Db
  imports Cohort_Trace Lmdb_Adapter
begin

text \<open>
  What a cohort's transaction does to its database. The reference is an interpreter of the
  operations on a finite map (\<open>exec_ops\<close>); the lemmas of the locale hold for any adapter that keeps
  the contract, and the LMDB adapter is one. A transaction either has the effect and the answers of
  the reference, or none.
\<close>

subsection \<open>The reference\<close>

definition relative_base :: "absl_status \<Rightarrow> relative_value \<Rightarrow> int64 option \<Rightarrow> absl_status + int64" where
  "relative_base missing r old =
     (case old of
        Some v \<Rightarrow> Inr v
      | None \<Rightarrow> if absl_code missing = kNotFound \<and> default_part r \<noteq> None
                then Inr (num_int64 (default_part r)) else Inl missing)"

definition exec_op :: "absl_status \<Rightarrow> operation \<Rightarrow> kv \<Rightarrow> absl_status + (kv \<times> get_response list)" where
  "exec_op missing op m =
     (case op_type op of
        GetOp g \<Rightarrow> (case m (get_key g) of
            None \<Rightarrow> Inl missing
          | Some v \<Rightarrow> Inr (m, [\<lparr>gr_namespace = op_namespace op, gr_get = g, gr_value = v\<rparr>]))
      | PutOp p \<Rightarrow> (case put_val p of
            Constant c \<Rightarrow> Inr (m(put_key p \<mapsto> const_int64 c), [])
          | pv \<Rightarrow> (case relative_base missing (the_relative pv) (m (put_key p)) of
              Inl e \<Rightarrow> Inl e
            | Inr v \<Rightarrow> Inr (m(put_key p \<mapsto> v + num_int64 (relative_part (the_relative pv))), [])))
      | OpNotSet \<Rightarrow> Inr (m, []))"

fun exec_ops :: "absl_status \<Rightarrow> transaction \<Rightarrow> kv \<Rightarrow> absl_status + (kv \<times> get_response list)" where
  "exec_ops missing [] m = Inr (m, [])"
| "exec_ops missing (op # ops) m =
     (case exec_op missing op m of
        Inl e \<Rightarrow> Inl e
      | Inr (m, gs) \<Rightarrow> (case exec_ops missing ops m of
          Inl e \<Rightarrow> Inl e
        | Inr (m, gs') \<Rightarrow> Inr (m, gs @ gs')))"

lemma exec_op_no_put: "\<not> has_put op \<Longrightarrow> exec_op missing op m = Inr (m', gs) \<Longrightarrow> m' = m"
  by (auto simp: exec_op_def split: op_type.splits option.splits)

lemma exec_op_error: "exec_op missing op m = Inl e \<Longrightarrow> e = missing"
  by (auto simp: exec_op_def relative_base_def split: op_type.splits option.splits put_value.splits if_splits)

lemma exec_ops_error: "exec_ops missing ops m = Inl e \<Longrightarrow> e = missing"
  by (induction ops arbitrary: m) (auto split: sum.splits dest: exec_op_error)

text \<open>Keys without a put keep their value.\<close>

lemma exec_op_frame: "exec_op missing op m = Inr (m', gs) \<Longrightarrow> k \<notin> put_keys [op] \<Longrightarrow> m' k = m k"
  by (auto simp: exec_op_def put_keys_def split: op_type.splits option.splits put_value.splits sum.splits)

lemma exec_ops_frame: "exec_ops missing ops m = Inr (m', gs) \<Longrightarrow> k \<notin> put_keys ops \<Longrightarrow> m' k = m k"
proof (induction ops arbitrary: m gs)
  case (Cons op ops)
  then obtain m1 gs1 gs2 where "exec_op missing op m = Inr (m1, gs1)" "exec_ops missing ops m1 = Inr (m', gs2)"
    by (auto split: sum.splits)
  moreover have "k \<notin> put_keys [op]" "k \<notin> put_keys ops" using Cons.prems(2) by (auto simp: put_keys_def)
  ultimately show ?case using Cons.IH exec_op_frame by metis
qed simp

text \<open>The keys of a transaction are all such that the database takes them.\<close>

definition op_key_ok :: "(string \<Rightarrow> bool) \<Rightarrow> operation \<Rightarrow> bool" where
  "op_key_ok ok op \<longleftrightarrow> (case op_type op of GetOp g \<Rightarrow> ok (get_key g) | PutOp p \<Rightarrow> ok (put_key p) | OpNotSet \<Rightarrow> True)"

fun with_data :: "db_txn \<Rightarrow> kv \<Rightarrow> db_txn" where
  "with_data (WriteTxn _) m = WriteTxn m"
| "with_data (ReadTxn _) m = ReadTxn m"
| "with_data NoTxn m = NoTxn"

lemma with_data_same: "txn_data t = Some m \<Longrightarrow> with_data t m = t"
  by (cases t) auto

lemma txn_data_with [simp]: "txn_data t = Some m \<Longrightarrow> txn_data (with_data t m') = Some m'"
  by (cases t) auto

lemma with_data_NoTxn [simp]: "with_data t m = NoTxn \<longleftrightarrow> t = NoTxn"
  by (cases t) auto

fun is_write :: "db_txn \<Rightarrow> bool" where
  "is_write (WriteTxn _) = True" | "is_write _ = False"

lemma is_write_with [simp]: "is_write (with_data t m) = is_write t"
  by (cases t) auto

subsection \<open>Operations on an adapter that keeps the contract\<close>

context db_contract
begin

definition at_txn :: "'d txn_metadata \<Rightarrow> 'w \<Rightarrow> db_txn \<Rightarrow> kv \<Rightarrow> bool" where
  "at_txn M w t base \<longleftrightarrow> (\<exists>d. md_db M = Some d \<and> good d w \<and> txn_of d w = t \<and> stored w = base)"

lemma at_txn_response [simp]:
  "at_txn (M\<lparr>md_response := r\<rparr>) w t base = at_txn M w t base"
  "at_txn (add_get_response g M) w t base = at_txn M w t base"
  by (simp_all add: at_txn_def add_get_response_def)

lemma get_at:
  assumes "at_txn M w t base" and "txn_data t = Some m" and "valid_key k"
  shows "with_db (\<lambda>d. Get A d k) M w = Some (case m k of Some v \<Rightarrow> Inr v | None \<Rightarrow> Inl missing, M, w)"
proof -
  obtain d where d: "md_db M = Some d" "good d w" "txn_of d w = t" using assms(1) by (auto simp: at_txn_def)
  have "Get A d k w = Some (case m k of Some v \<Rightarrow> Inr v | None \<Rightarrow> Inl missing, d, w)"
    using get_present [OF d(2)] get_absent [OF d(2)] d(3) assms(2,3) by (auto split: option.split)
  moreover have "M\<lparr>md_db := Some d\<rparr> = M" using d(1) by (cases M) simp
  ultimately show ?thesis by (simp add: with_db_def d(1))
qed

lemma put_at:
  assumes "at_txn M w (WriteTxn m) base" and "valid_key k"
  obtains M' w' where "with_db (\<lambda>d. Put A d k v) M w = Some (OkStatus, M', w')"
    "at_txn M' w' (WriteTxn (m(k \<mapsto> v))) base" "same_locks M M'" "md_response M' = md_response M"
proof -
  obtain d where d: "md_db M = Some d" "good d w" "txn_of d w = WriteTxn m" "stored w = base"
    using assms by (auto simp: at_txn_def)
  from put_write [OF d(2,3) assms(2), of v] obtain d' w' where "Put A d k v w = Some (OkStatus, d', w')"
    "good d' w'" "stored w' = stored w" "txn_of d' w' = WriteTxn (m(k \<mapsto> v))" by blast
  with d show thesis
    by (intro that [of "M\<lparr>md_db := Some d'\<rparr>" w']) (simp_all add: with_db_def at_txn_def same_locks_def)
qed

text \<open>One operation, in a write transaction or, when it is not a put, in a read-only one.\<close>

definition op_matches ::
  "absl_status \<Rightarrow> 'd txn_metadata \<Rightarrow> 'w \<Rightarrow> 'd txn_metadata \<Rightarrow> db_txn \<Rightarrow> kv \<Rightarrow>
   absl_status + (kv \<times> get_response list) \<Rightarrow> bool" where
  "op_matches st M' w' M t base result \<longleftrightarrow> same_locks M M' \<and>
     (case result of
        Inl e \<Rightarrow> st = e \<and> (\<exists>m. at_txn M' w' (with_data t m) base)
      | Inr (m', gs) \<Rightarrow> st = OkStatus \<and> at_txn M' w' (with_data t m') base \<and>
          committed_of (md_response M') = committed_of (md_response M) @ gs)"

lemma ProcessOperation_put:
  assumes "at_txn M w (WriteTxn m) base" and "op_type op = PutOp p" and ops: "db_ops E = A"
    and key: "valid_key (put_key p)"
  shows "\<exists>st M' w'. ProcessOperationInDb E op M w = Some (st, M', w') \<and>
    op_matches st M' w' M (WriteTxn m) base (exec_op missing op m)"
proof (cases "put_val p")
  case (Constant c)
  from put_at [OF assms(1) key, of "const_int64 c"] obtain M' w' where
    "with_db (\<lambda>d. Put A d (put_key p) (const_int64 c)) M w = Some (OkStatus, M', w')"
    "at_txn M' w' (WriteTxn (m(put_key p \<mapsto> const_int64 c))) base" "same_locks M M'" "md_response M' = md_response M"
    by blast
  with assms Constant show ?thesis
    by (simp add: ProcessOperationInDb_def exec_op_def op_matches_def)
next
  case ValueNotSet
  have g: "with_db (\<lambda>d. Get A d (put_key p)) M w =
      Some (case m (put_key p) of Some v \<Rightarrow> Inr v | None \<Rightarrow> Inl missing, M, w)"
    using get_at [OF assms(1) _ key] by simp
  show ?thesis
  proof (cases "m (put_key p)")
    case None
    with g assms ValueNotSet show ?thesis
      by (auto simp: ProcessOperationInDb_def exec_op_def op_matches_def relative_base_def)
  next
    case (Some v)
    from put_at [OF assms(1) key, of "v + 0"] obtain M' w' where
      "with_db (\<lambda>d. Put A d (put_key p) v) M w = Some (OkStatus, M', w')"
      "at_txn M' w' (WriteTxn (m(put_key p \<mapsto> v))) base" "same_locks M M'" "md_response M' = md_response M"
      by auto
    with g assms ValueNotSet Some show ?thesis
      by (simp add: ProcessOperationInDb_def exec_op_def op_matches_def relative_base_def)
  qed
next
  case (Relative r)
  have g: "with_db (\<lambda>d. Get A d (put_key p)) M w =
      Some (case m (put_key p) of Some v \<Rightarrow> Inr v | None \<Rightarrow> Inl missing, M, w)"
    using get_at [OF assms(1) _ key] by simp
  show ?thesis
  proof (cases "relative_base missing r (m (put_key p))")
    case (Inl e)
    with g assms Relative show ?thesis
      by (cases "m (put_key p)")
         (auto simp: ProcessOperationInDb_def exec_op_def op_matches_def relative_base_def split: if_splits)
  next
    case (Inr v)
    from put_at [OF assms(1) key, of "v + num_int64 (relative_part r)"] obtain M' w' where
      "with_db (\<lambda>d. Put A d (put_key p) (v + num_int64 (relative_part r))) M w = Some (OkStatus, M', w')"
      "at_txn M' w' (WriteTxn (m(put_key p \<mapsto> v + num_int64 (relative_part r)))) base" "same_locks M M'"
      "md_response M' = md_response M" by blast
    with g assms Relative Inr show ?thesis
      by (cases "m (put_key p)")
         (auto simp: ProcessOperationInDb_def exec_op_def op_matches_def relative_base_def split: if_splits)
  qed
qed

lemma ProcessOperation_matches:
  assumes "at_txn M w t base" and "txn_data t = Some m" and "has_put op \<longrightarrow> is_write t" and ops: "db_ops E = A"
    and key: "op_key_ok valid_key op"
  shows "\<exists>st M' w'. ProcessOperationInDb E op M w = Some (st, M', w') \<and>
    op_matches st M' w' M t base (exec_op missing op m)"
proof (cases "op_type op")
  case OpNotSet
  with assms show ?thesis
    by (auto simp: ProcessOperationInDb_def exec_op_def op_matches_def with_data_same)
next
  case (GetOp g)
  with key have "valid_key (get_key g)" by (simp add: op_key_ok_def)
  from get_at [OF assms(1,2) this] GetOp assms show ?thesis
    by (auto simp: ProcessOperationInDb_def exec_op_def op_matches_def with_data_same add_get_response_def
        mutable_committed_eq at_txn_def split: option.split intro!: exI [of _ m])
next
  case (PutOp p)
  with assms(3) key have "is_write t" and k: "valid_key (put_key p)" by (simp_all add: op_key_ok_def)
  with assms(2) have "t = WriteTxn m" by (cases t) auto
  with ProcessOperation_put [OF _ PutOp ops k] assms(1) show ?thesis by simp
qed

lemma process_ops_matches:
  assumes "at_txn M w t base" and "txn_data t = Some m" and "(\<exists>op \<in> set ops. has_put op) \<longrightarrow> is_write t"
    and "db_ops E = A" and "list_all (op_key_ok valid_key) ops"
  shows "\<exists>st M' w'. process_ops E ops (M, w) = Some (st, M', w') \<and>
    op_matches st M' w' M t base (exec_ops missing ops m)"
  using assms(1-3,5)
proof (induction ops arbitrary: M w t m)
  case Nil
  then show ?case by (auto simp: op_matches_def with_data_same)
next
  case (Cons op ops)
  from Cons.prems(3,4) have "has_put op \<longrightarrow> is_write t" and key: "op_key_ok valid_key op" "list_all (op_key_ok valid_key) ops" by simp_all
  from ProcessOperation_matches [OF Cons.prems(1,2) this(1) assms(4) key(1)] obtain st M1 w1 where
    step: "ProcessOperationInDb E op M w = Some (st, M1, w1)" "op_matches st M1 w1 M t base (exec_op missing op m)"
    by blast
  show ?case
  proof (cases "exec_op missing op m")
    case (Inl e)
    moreover have "\<not> absl_ok e" using exec_op_error [OF Inl] missing_error by simp
    ultimately show ?thesis using step by (auto simp: op_matches_def)
  next
    case (Inr r)
    then obtain m1 gs where r: "exec_op missing op m = Inr (m1, gs)" by (cases r) auto
    with step(2) have st: "st = OkStatus" and at1: "at_txn M1 w1 (with_data t m1) base" "same_locks M M1"
      "committed_of (md_response M1) = committed_of (md_response M) @ gs" by (auto simp: op_matches_def)
    have "txn_data (with_data t m1) = Some m1" "(\<exists>op \<in> set ops. has_put op) \<longrightarrow> is_write (with_data t m1)"
      using Cons.prems by auto
    from Cons.IH [OF at1(1) this key(2)] obtain st2 M2 w2 where
      rest: "process_ops E ops (M1, w1) = Some (st2, M2, w2)"
        "op_matches st2 M2 w2 M1 (with_data t m1) base (exec_ops missing ops m1)" by blast
    have "with_data (with_data t m1) x = with_data t x" for x by (cases t) auto
    with rest at1 st step(1) r show ?thesis
      by (auto simp: op_matches_def split: sum.splits intro: same_locks_trans)
  qed
qed

end

subsection \<open>A whole transaction, run alone\<close>

text \<open>
  The rest of what a run relies on: the locks are free, so each is granted at once; locking, files,
  the blockchain and the clock leave the database alone. \<open>idle\<close> describes a world in which an adapter
  can be created and no write transaction is open.
\<close>

locale cohort_db = db_contract A stored txn_of good missing valid_key
  for A :: "('d, 'w) db_adapter" and stored and txn_of and good and missing and valid_key +
  fixes E :: "('d, 'w) cohort_env"
    and idle :: "'w \<Rightarrow> bool"
    and same_db :: "'w \<Rightarrow> 'w \<Rightarrow> bool"
  assumes adapter_ops: "db_ops E = A"
    and one_writer: "\<not> SupportsConcurrentWrites A d"
    and same_db_frame: "same_db w w' \<Longrightarrow> good d w' = good d w \<and> txn_of d w' = txn_of d w \<and> stored w' = stored w"
    and same_db_trans: "same_db w w' \<Longrightarrow> same_db w' w'' \<Longrightarrow> same_db w w''"
    and create: "idle w \<Longrightarrow> \<exists>d w'. db_transaction_adapter_creator E w = Some (d, w') \<and> good d w' \<and>
      txn_of d w' = NoTxn \<and> stored w' = stored w"
    and read_lock: "\<exists>w'. ReaderLockWhenWithDeadline E mx dl w = Some (True, w') \<and> same_db w w'"
    and write_lock: "\<exists>w'. WriterLockWhenWithDeadline E mx dl w = Some (True, w') \<and> same_db w w'"
    and unlocking: "same_db w (ReaderUnlock E mx w)" "same_db w (WriterUnlock E mx w)"
    and writing: "file_write E path content w = (b, w') \<Longrightarrow> same_db w w'"
    and voting: "bc_Vote (blockchain_stub E) tid i ballot w = Some (st, w') \<Longrightarrow> same_db w w'"
    and polling: "bc_GetVotingDecision (blockchain_stub E) tid w = Some (r, w') \<Longrightarrow> same_db w w'"
    and sleeping: "same_db w (sleep_for_us E us w)" "same_db w (sleep_until E until w)"
begin

lemma at_txn_same_db: "same_db w w' \<Longrightarrow> at_txn M w t base \<Longrightarrow> at_txn M w' t base"
  using same_db_frame by (auto simp: at_txn_def)

lemma AcquireDbLocks_alone:
  assumes "md_db M = Some d" and "no_locks M"
  obtains w' where "same_db w w' \<or> w' = w"
    "AcquireDbLocks E ops dl M s w = Some (OkStatus,
       (if \<exists>op \<in> set ops. has_put op then M\<lparr>has_whole_db_write_lock := True\<rparr>
        else if \<exists>op \<in> set ops. has_get op then M\<lparr>has_whole_db_read_lock := True\<rparr> else M), s, w')"
proof -
  obtain w1 where w1: "WriterLockWhenWithDeadline E whole_db_mutex dl w = Some (True, w1)" "same_db w w1"
    using write_lock by blast
  obtain w2 where w2: "ReaderLockWhenWithDeadline E whole_db_mutex dl w = Some (True, w2)" "same_db w w2"
    using read_lock by blast
  show thesis
    by (rule that [of "if \<exists>op \<in> set ops. has_put op then w1 else if \<exists>op \<in> set ops. has_get op then w2 else w"])
       (use w1 w2 assms one_writer in \<open>auto simp: AcquireDbLocks_def AcquireWholeDbLock_def scan_ops_eq adapter_ops
          simp del: has_put.simps has_get.simps\<close>)
qed

lemma begin_at:
  assumes "md_db M = Some d" and "good d w" and "txn_of d w = NoTxn"
  obtains M' w' where
    "(if write_lock_keys M = [] \<and> \<not> has_whole_db_write_lock M
      then with_db (BeginReadOnly A) M w else with_db (Begin A) M w) = Some (OkStatus, M', w')"
    "at_txn M' w' (if write_lock_keys M = [] \<and> \<not> has_whole_db_write_lock M
      then ReadTxn (stored w) else WriteTxn (stored w)) (stored w)"
    "same_locks M M'" "md_response M' = md_response M"
proof -
  obtain d1 w1 where b: "Begin A d w = Some (OkStatus, d1, w1)" "good d1 w1" "stored w1 = stored w"
    "txn_of d1 w1 = WriteTxn (stored w)" using begin_write [OF assms(2,3)] by blast
  obtain d2 w2 where r: "BeginReadOnly A d w = Some (OkStatus, d2, w2)" "good d2 w2" "stored w2 = stored w"
    "txn_of d2 w2 = ReadTxn (stored w)" using begin_read [OF assms(2,3)] by blast
  show thesis
  proof (cases "write_lock_keys M = [] \<and> \<not> has_whole_db_write_lock M")
    case True
    then show thesis
      by (intro that [of "M\<lparr>md_db := Some d2\<rparr>" w2]) (use assms(1) r in \<open>simp_all add: with_db_def at_txn_def\<close>)
  next
    case False
    then show thesis
      by (intro that [of "M\<lparr>md_db := Some d1\<rparr>" w1]) (use assms(1) b in \<open>auto simp: with_db_def at_txn_def\<close>)
  qed
qed

text \<open>The work in the database, up to its end: the reference decides what happened.\<close>

definition prepared ::
  "absl_status \<Rightarrow> 'd txn_metadata \<Rightarrow> 'w \<Rightarrow> transaction \<Rightarrow> kv \<Rightarrow> bool" where
  "prepared st M w ops base \<longleftrightarrow>
     (case exec_ops missing ops base of
        Inl e \<Rightarrow> st = e \<and> (\<exists>t. at_txn M w t base \<and> t \<noteq> NoTxn)
      | Inr (m, gs) \<Rightarrow> st = OkStatus \<and> committed_of (md_response M) = gs \<and>
          (\<exists>t. at_txn M w t base \<and> txn_data t = Some m \<and> (is_write t \<or> m = base)))"

lemma no_put_no_change:
  assumes "exec_ops missing ops base = Inr (m, gs)" and "\<not> (\<exists>op \<in> set ops. has_put op)"
  shows "m = base"
proof
  fix k
  have "k \<notin> put_keys ops" using assms(2) by (auto simp: put_keys_def)
  then show "m k = base k" using exec_ops_frame [OF assms(1)] by blast
qed

lemma ProcessTransactionInDb_prepared:
  assumes "md_db M = Some d" and "no_locks M" and "good d w" and "txn_of d w = NoTxn"
    and "committed_of (md_response M) = []" and "list_all (op_key_ok valid_key) ops"
  shows "\<exists>st M' w'. ProcessTransactionInDb E ops dl M s w = Some (st, M', s, w') \<and> prepared st M' w' ops (stored w)"
proof -
  let ?puts = "\<exists>op \<in> set ops. has_put op"
  let ?M1 = "if ?puts then M\<lparr>has_whole_db_write_lock := True\<rparr>
        else if \<exists>op \<in> set ops. has_get op then M\<lparr>has_whole_db_read_lock := True\<rparr> else M"
  obtain w1 where w1: "same_db w w1 \<or> w1 = w" "AcquireDbLocks E ops dl M s w = Some (OkStatus, ?M1, s, w1)"
    by (rule AcquireDbLocks_alone [OF assms(1,2)])
  have d: "good d w1" "txn_of d w1 = NoTxn" "stored w1 = stored w"
    using w1(1) same_db_frame assms(3,4) by auto
  have wr: "(write_lock_keys ?M1 = [] \<and> \<not> has_whole_db_write_lock ?M1) = (\<not> ?puts)"
    using assms(2) by (auto simp: no_locks_def)
  let ?t = "if \<not> ?puts then ReadTxn (stored w1) else WriteTxn (stored w1)"
  have "md_db ?M1 = Some d" using assms(1) by simp
  from begin_at [OF this d(1,2)] obtain M2 w2 where
    b: "(if \<not> ?puts then with_db (BeginReadOnly A) ?M1 w1 else with_db (Begin A) ?M1 w1) = Some (OkStatus, M2, w2)"
    and at2: "at_txn M2 w2 ?t (stored w1)" and sl: "same_locks ?M1 M2" and M2: "md_response M2 = md_response ?M1"
    unfolding wr .
  have td: "txn_data ?t = Some (stored w1)" and pw: "?puts \<longrightarrow> is_write ?t" by simp_all
  from process_ops_matches [OF at2 td pw adapter_ops assms(6)] obtain st M3 w3 where
    ops: "process_ops E ops (M2, w2) = Some (st, M3, w3)"
    "op_matches st M3 w3 M2 ?t (stored w1) (exec_ops missing ops (stored w1))" by blast
  have ret: "ProcessTransactionInDb E ops dl M s w = Some (st, M3, s, w3)"
    unfolding ProcessTransactionInDb_def w1(2) adapter_ops return_if_error_ok [OF absl_ok_OkStatus] prod.case wr b
    by (simp only: return_if_error_ok [OF absl_ok_OkStatus] ops(1) bind.bind_lunit prod.case)
  have "prepared st M3 w3 ops (stored w)"
  proof (cases "exec_ops missing ops (stored w)")
    case (Inl e)
    have "with_data ?t x \<noteq> NoTxn" for x by simp
    with Inl ops(2) d(3) show ?thesis unfolding prepared_def op_matches_def by auto
  next
    case (Inr r)
    then obtain m gs where r: "exec_ops missing ops (stored w) = Inr (m, gs)" by (cases r) auto
    have "committed_of (md_response M3) = gs" and at3: "at_txn M3 w3 (with_data ?t m) (stored w)" and "st = OkStatus"
      using ops(2) r d(3) M2 assms(5) by (auto simp: op_matches_def)
    moreover have "txn_data (with_data ?t m) = Some m" by simp
    moreover have "is_write (with_data ?t m) \<or> m = stored w"
      using no_put_no_change [OF r] by auto
    ultimately show ?thesis unfolding prepared_def r sum.case prod.case by blast
  qed
  with ret show ?thesis by blast
qed

subsection \<open>Ending it\<close>

lemma unlock_keys_same_db:
  assumes "\<And>mx w. same_db w (unlock mx w)"
  shows "stored (snd (unlock_keys unlock keys (s, w))) = stored w"
proof (induction keys arbitrary: s w)
  case (Cons k keys)
  obtain mx s1 where "GetLock k s = (mx, s1)" by fastforce
  with Cons.IH [of s1 "unlock mx w"] same_db_frame [OF assms] show ?case
    by (simp add: unlock_keys_def)
qed (simp add: unlock_keys_def)

lemma Release_stored: "stored (snd (ReleaseLocksAndDeleteMetadata E tid s w)) = stored w"
proof -
  let ?m = "metadata_of s tid"
  obtain s1 w1 where u1: "unlock_keys (WriterUnlock E) (write_lock_keys ?m) (s, w) = (s1, w1)" by fastforce
  obtain s2 w2 where u2: "unlock_keys (ReaderUnlock E) (read_lock_keys ?m) (s1, w1) = (s2, w2)" by fastforce
  have "stored w1 = stored w" "stored w2 = stored w1"
    using unlock_keys_same_db [where unlock = "WriterUnlock E", OF unlocking(2), where keys = "write_lock_keys ?m" and s = s and w = w] u1
      unlock_keys_same_db [where unlock = "ReaderUnlock E", OF unlocking(1), where keys = "read_lock_keys ?m" and s = s1 and w = w1] u2 by simp_all
  moreover have "stored (WriterUnlock E mx w) = stored w" "stored (ReaderUnlock E mx w) = stored w" for mx w
    using same_db_frame unlocking by blast+
  ultimately show ?thesis
    by (simp add: ReleaseLocksAndDeleteMetadata_def Let_def u1 u2)
qed

lemma Release_response:
  "final_response_by_transaction_id (fst (ReleaseLocksAndDeleteMetadata E tid s w)) tid =
     Some (md_response (metadata_of s tid))"
  by (simp add: ReleaseLocksAndDeleteMetadata_def Let_def split: prod.split)

lemma CommitTransaction_at:
  assumes "at_txn M w t base" and "txn_data t = Some m" and "is_write t \<or> m = base"
  obtains s' w' where "CommitTransaction E tid (set_metadata tid M s) w = Some (s', w')" "stored w' = m"
    "final_response_by_transaction_id s' tid = Some (CohortCommitted (committed_of (md_response M)))"
proof -
  obtain d where d: "md_db M = Some d" "good d w" "txn_of d w = t" "stored w = base"
    using assms(1) by (auto simp: at_txn_def)
  obtain d' w1 where c: "Commit A d w = Some (OkStatus, d', w1)" and st: "stored w1 = m"
    using commit_write [OF d(2)] commit_read [OF d(2)] d(3,4) assms(2,3) by (cases t) fastforce+
  have "with_db (Commit (db_ops E)) M w = Some (OkStatus, M\<lparr>md_db := Some d'\<rparr>, w1)"
    using c d(1) by (simp add: with_db_def adapter_ops)
  from commit_until_ok_first [OF this] have cu: "commit_until_ok E M w = Some (M\<lparr>md_db := Some d'\<rparr>, w1)" by simp
  let ?s = "set_metadata tid (M\<lparr>md_db := Some d', md_response := mutable_committed (md_response M)\<rparr>) (set_metadata tid M s)"
  let ?r = "ReleaseLocksAndDeleteMetadata E tid ?s w1"
  have "CommitTransaction E tid (set_metadata tid M s) w = Some (fst ?r, snd ?r)"
    using cu by (simp add: CommitTransaction_def Let_def)
  then show thesis
    by (rule that) (simp_all add: Release_stored Release_response st mutable_committed_eq)
qed

lemma AbortTransaction_at:
  assumes "at_txn M w t base" and "t \<noteq> NoTxn"
    and votes: "\<And>st. ast = Some st \<Longrightarrow> bc_Vote (blockchain_stub E) tid i BALLOT_ABORT w \<noteq> None"
  obtains s' w' where "AbortTransaction E tid i ast (set_metadata tid M s) w = Some (s', w')" "stored w' = base"
    "final_response_by_transaction_id s' tid = Some (CohortAborted
       (case ast of None \<Rightarrow> uninit_abort_reason E w | Some st \<Rightarrow> abort_reason_for st))"
proof -
  let ?reason = "case ast of None \<Rightarrow> uninit_abort_reason E w | Some st \<Rightarrow> abort_reason_for st"
  obtain w1 where v: "(case ast of None \<Rightarrow> Some (uninit_abort_reason E w, w)
      | Some st \<Rightarrow> do { (ignored, w) \<leftarrow> bc_Vote (blockchain_stub E) tid i BALLOT_ABORT w; Some (abort_reason_for st, w) })
      = Some (?reason, w1)" and w1: "w1 = w \<or> same_db w w1"
  proof (cases ast)
    case (Some st)
    from votes [OF Some] obtain r w1 where "bc_Vote (blockchain_stub E) tid i BALLOT_ABORT w = Some (r, w1)" by auto
    with voting Some that show thesis by fastforce
  qed (use that in auto)
  have "at_txn M w1 t base" using w1 assms(1) at_txn_same_db by auto
  then obtain d where d: "md_db M = Some d" "good d w1" "txn_of d w1 = t" "stored w1 = base" by (auto simp: at_txn_def)
  obtain d' w2 where a: "Abort A d w1 = Some (OkStatus, d', w2)" "stored w2 = base"
    using abort_open [OF d(2)] d(3,4) assms(2) by auto
  let ?M = "M\<lparr>md_response := CohortAborted ?reason, md_db := Some d'\<rparr>"
  let ?r = "ReleaseLocksAndDeleteMetadata E tid (set_metadata tid ?M (set_metadata tid M s)) w2"
  have "AbortTransaction E tid i ast (set_metadata tid M s) w = Some (fst ?r, snd ?r)"
    using v a d(1) by (simp add: AbortTransaction_def Let_def with_db_def adapter_ops)
  then show thesis
    by (rule that) (simp_all add: Release_stored Release_response a(2))
qed

lemma nap_same_db: "same_db w (nap E t waited w)"
  using sleeping by (simp add: nap_def)

lemma Wait_same_db:
  assumes "WaitForBlockchainDecision E tid t waited w = Some (dec, w')"
  shows "same_db w w'"
proof -
  have "same_db w (snd r)" if "WaitForBlockchainDecision E tid t waited w = Some r" for r
    using that
  proof (induction rule: Wait_induct)
    case (decided waited w p w1)
    then show ?case using polling by simp
  next
    case (again waited w p w1 r)
    then show ?case using polling nap_same_db same_db_trans by blast
  qed
  from this [OF assms] show ?thesis by simp
qed

lemma PersistTransaction_alone:
  assumes "\<And>path content w. fst (file_write E path content w)"
  obtains w' where "PersistTransaction E req s w = (OkStatus, w')" "same_db w w'"
proof -
  let ?p1 = "db_txn_response_dir E @ ''/response_'' @ req_transaction_id req @ ''.binarypb''"
  let ?c1 = "ResponseFile (committed_of (md_response (metadata_of s (req_transaction_id req))))"
  let ?p2 = "db_txn_response_dir E @ ''/request_'' @ req_transaction_id req @ ''.binarypb''"
  have ok: "\<exists>w'. file_write E path content w = (True, w')" for path content w
    using assms [of path content w] by (cases "file_write E path content w") simp
  from ok [of ?p1 ?c1 w] obtain w1 where w1: "file_write E ?p1 ?c1 w = (True, w1)" ..
  from ok [of ?p2 "RequestFile req" w1] obtain w2 where w2: "file_write E ?p2 (RequestFile req) w1 = (True, w2)" ..
  have "same_db w w2" using writing [OF w1] writing [OF w2] same_db_trans by blast
  moreover have "PersistTransaction E req s w = (OkStatus, w2)"
    using w1 w2 by (simp add: PersistTransaction_def WriteToFile_def Let_def)
  ultimately show thesis by (intro that)
qed

text \<open>
  All or nothing: the transaction ends with the effect and the answers of the reference, or with
  the database as it was and an aborted response.
\<close>

definition outcome :: "prepare_request \<Rightarrow> voting_decision \<Rightarrow> kv \<Rightarrow> kv \<Rightarrow> cohort_result option \<Rightarrow> bool" where
  "outcome req dec base base' final \<longleftrightarrow>
     (case exec_ops missing (req_transaction req) base of
        Inl e \<Rightarrow> base' = base \<and> final = Some (CohortAborted (abort_reason_for e))
      | Inr (m, gs) \<Rightarrow>
          if only_cohort req \<or> dec = VOTING_DECISION_COMMIT
          then base' = m \<and> final = Some (CohortCommitted gs)
          else base' = base \<and> (\<exists>reason. final = Some (CohortAborted reason)))"

lemma finish_outcome:
  assumes prep: "prepared st M w (req_transaction req) base"
    and files: "\<And>path content w. fst (file_write E path content w)"
    and votes: "\<And>i b w. bc_Vote (blockchain_stub E) (req_transaction_id req) i b w \<noteq> None"
    and wait: "\<And>w. \<exists>w'. WaitForBlockchainDecision E (req_transaction_id req)
      (time_of_timestamp (config_time (req_config req))) False w = Some (dec, w')"
  shows "\<exists>s' w'. finish E req st (set_metadata (req_transaction_id req) M s) w = Some (s', w') \<and>
    outcome req dec base (stored w') (final_response_by_transaction_id s' (req_transaction_id req))"
proof -
  let ?tid = "req_transaction_id req" and ?i = "int (cohort_index req)"
  let ?s = "set_metadata ?tid M s"
  show ?thesis
  proof (cases "exec_ops missing (req_transaction req) base")
    case (Inl e)
    with prep obtain t where st: "st = e" and t: "at_txn M w t base" "t \<noteq> NoTxn" by (auto simp: prepared_def)
    have "\<not> absl_ok st" using exec_ops_error [OF Inl] missing_error st by simp
    moreover obtain s' w' where "AbortTransaction E ?tid ?i (Some st) ?s w = Some (s', w')" "stored w' = base"
      "final_response_by_transaction_id s' ?tid = Some (CohortAborted
         (case Some st of None \<Rightarrow> uninit_abort_reason E w | Some st \<Rightarrow> abort_reason_for st))"
      by (rule AbortTransaction_at [OF t, of "Some st" ?tid ?i s]) (use votes in auto)
    ultimately show ?thesis using Inl st by (auto simp: finish_def outcome_def)
  next
    case (Inr r)
    then obtain m gs where r: "exec_ops missing (req_transaction req) base = Inr (m, gs)" by (cases r) auto
    with prep obtain t where st: "st = OkStatus" and t: "at_txn M w t base" "txn_data t = Some m" "is_write t \<or> m = base"
      and gs: "committed_of (md_response M) = gs" by (auto simp: prepared_def)
    then have "t \<noteq> NoTxn" by auto
    show ?thesis
    proof (cases "only_cohort req")
      case True
      obtain s' w' where "CommitTransaction E ?tid ?s w = Some (s', w')" "stored w' = m"
        "final_response_by_transaction_id s' ?tid = Some (CohortCommitted (committed_of (md_response M)))"
        by (rule CommitTransaction_at [OF t])
      with True r st gs show ?thesis by (simp add: finish_def outcome_def)
    next
      case False
      obtain w1 where p: "PersistTransaction E req ?s w = (OkStatus, w1)" "same_db w w1"
        by (rule PersistTransaction_alone [OF files])
      obtain v w2 where v: "bc_Vote (blockchain_stub E) ?tid ?i BALLOT_COMMIT w1 = Some (v, w2)"
        using votes [of ?i BALLOT_COMMIT w1] by auto
      obtain w3 where d: "WaitForBlockchainDecision E ?tid (time_of_timestamp (config_time (req_config req))) False w2 =
          Some (dec, w3)" using wait by blast
      have "same_db w w3" using p(2) voting [OF v] Wait_same_db [OF d] same_db_trans by blast
      then have t3: "at_txn M w3 t base" using t(1) at_txn_same_db by blast
      show ?thesis
      proof (cases "dec = VOTING_DECISION_COMMIT")
        case True
        obtain s' w' where "CommitTransaction E ?tid ?s w3 = Some (s', w')" "stored w' = m"
          "final_response_by_transaction_id s' ?tid = Some (CohortCommitted (committed_of (md_response M)))"
          by (rule CommitTransaction_at [OF t3 t(2,3)])
        with True False r st gs p v d show ?thesis by (simp add: finish_def outcome_def)
      next
        case abort: False
        obtain s' w' where "AbortTransaction E ?tid ?i None ?s w3 = Some (s', w')" "stored w' = base"
          "final_response_by_transaction_id s' ?tid = Some (CohortAborted
             (case None of None \<Rightarrow> uninit_abort_reason E w3 | Some st \<Rightarrow> abort_reason_for st))"
          by (rule AbortTransaction_at [OF t3 \<open>t \<noteq> NoTxn\<close>, of None ?tid ?i s]) auto
        with abort False r st gs p v d show ?thesis by (simp add: finish_def outcome_def)
      qed
    qed
  qed
qed

lemma ProcessTransaction_outcome:
  assumes "idle w" and "metadata_by_transaction_id s (req_transaction_id req) = None"
    and "\<And>path content w. fst (file_write E path content w)"
    and "\<And>i b w. bc_Vote (blockchain_stub E) (req_transaction_id req) i b w \<noteq> None"
    and "\<And>w. \<exists>w'. WaitForBlockchainDecision E (req_transaction_id req)
      (time_of_timestamp (config_time (req_config req))) False w = Some (dec, w')"
    and "list_all (op_key_ok valid_key) (req_transaction req)"
  shows "\<exists>s' w'. ProcessTransaction E req s w = Some (s', w') \<and>
    outcome req dec (stored w) (stored w') (final_response_by_transaction_id s' (req_transaction_id req))"
proof -
  let ?M = "\<lambda>d. fresh_metadata\<lparr>md_response := CohortPending, md_db := Some d\<rparr>"
  have m0: "metadata_of s (req_transaction_id req) = fresh_metadata"
    using assms(2) by (simp add: metadata_of_def index_default_def)
  from create [OF assms(1)] obtain d w1 where c: "db_transaction_adapter_creator E w = Some (d, w1)"
    "good d w1" "txn_of d w1 = NoTxn" "stored w1 = stored w" by blast
  have "md_db (?M d) = Some d" "no_locks (?M d)" "committed_of (md_response (?M d)) = []"
    by (simp_all add: fresh_metadata_def no_locks_def)
  from ProcessTransactionInDb_prepared [OF this(1,2) c(2,3) this(3) assms(6)] obtain st M' w2 where
    p: "ProcessTransactionInDb E (req_transaction req) (time_of_timestamp (config_time (req_config req))) (?M d) s w1 =
      Some (st, M', s, w2)" "prepared st M' w2 (req_transaction req) (stored w)"
    unfolding c(4) by blast
  from finish_outcome [OF p(2) assms(3-5)] p(1) c(1) show ?thesis
    by (simp add: ProcessTransaction_finish m0)
qed

text \<open>A transaction that fails in the database does not end when its vote to abort gets no answer.\<close>

lemma ProcessTransaction_stuck:
  assumes "idle w" and "metadata_by_transaction_id s (req_transaction_id req) = None"
    and "exec_ops missing (req_transaction req) (stored w) = Inl e"
    and "\<And>w. bc_Vote (blockchain_stub E) (req_transaction_id req) (int (cohort_index req)) BALLOT_ABORT w = None"
    and "list_all (op_key_ok valid_key) (req_transaction req)"
  shows "ProcessTransaction E req s w = None"
proof -
  let ?M = "\<lambda>d. fresh_metadata\<lparr>md_response := CohortPending, md_db := Some d\<rparr>"
  have m0: "metadata_of s (req_transaction_id req) = fresh_metadata"
    using assms(2) by (simp add: metadata_of_def index_default_def)
  from create [OF assms(1)] obtain d w1 where c: "db_transaction_adapter_creator E w = Some (d, w1)"
    "good d w1" "txn_of d w1 = NoTxn" "stored w1 = stored w" by blast
  have "md_db (?M d) = Some d" "no_locks (?M d)" "committed_of (md_response (?M d)) = []"
    by (simp_all add: fresh_metadata_def no_locks_def)
  from ProcessTransactionInDb_prepared [OF this(1,2) c(2,3) this(3) assms(5)] obtain st M' w2 where
    p: "ProcessTransactionInDb E (req_transaction req) (time_of_timestamp (config_time (req_config req))) (?M d) s w1 =
      Some (st, M', s, w2)" "prepared st M' w2 (req_transaction req) (stored w)"
    unfolding c(4) by blast
  have "\<not> absl_ok st" using p(2) exec_ops_error [OF assms(3)] missing_error by (simp add: prepared_def assms(3))
  then show ?thesis
    using p(1) c(1) assms(4) by (simp add: ProcessTransaction_finish m0 finish_def AbortTransaction_def)
qed

end

end
