(* ===== verification/Cohort_Lmdb.thy ===== *)
theory Cohort_Lmdb
  imports Cohort_Db
begin

text \<open>
  The cohort server on the LMDB adapter: \<open>seq_env lib path B\<close> is an environment whose database is
  LMDB in the first component of the world, with free locks, and whose blockchain, files and clock
  are those of \<open>B\<close> in the second. It keeps all the laws that the lemmas of \<open>Cohort_Db\<close> rest on, for
  every library that behaves as LMDB documents.
\<close>

definition lift_db :: "('d, 'w) db_adapter \<Rightarrow> ('d, 'w \<times> 'x) db_adapter" where
  "lift_db A = \<lparr>
     SupportsConcurrentWrites = SupportsConcurrentWrites A,
     Begin = (\<lambda>d (w, x). map_option (\<lambda>(st, d, w). (st, d, w, x)) (Begin A d w)),
     BeginReadOnly = (\<lambda>d (w, x). map_option (\<lambda>(st, d, w). (st, d, w, x)) (BeginReadOnly A d w)),
     Commit = (\<lambda>d (w, x). map_option (\<lambda>(st, d, w). (st, d, w, x)) (Commit A d w)),
     Abort = (\<lambda>d (w, x). map_option (\<lambda>(st, d, w). (st, d, w, x)) (Abort A d w)),
     Get = (\<lambda>d k (w, x). map_option (\<lambda>(r, d, w). (r, d, w, x)) (Get A d k w)),
     Put = (\<lambda>d k v (w, x). map_option (\<lambda>(st, d, w). (st, d, w, x)) (Put A d k v w))\<rparr>"

definition lift_stub :: "'x adapter_stub \<Rightarrow> ('w \<times> 'x) adapter_stub" where
  "lift_stub stub = \<lparr>
     stub_StartVoting = (\<lambda>req (w, x). map_option (\<lambda>(st, x). (st, w, x)) (stub_StartVoting stub req x)),
     stub_Vote = (\<lambda>req (w, x). map_option (\<lambda>(st, x). (st, w, x)) (stub_Vote stub req x)),
     stub_GetVotingDecision = (\<lambda>req (w, x). map_option (\<lambda>(st, r, x). (st, r, w, x)) (stub_GetVotingDecision stub req x)),
     stub_GetHeartBeat = (\<lambda>(w, x). map_option (\<lambda>(st, r, x). (st, r, w, x)) (stub_GetHeartBeat stub x))\<rparr>"

definition seq_env ::
  "('env, 'txn, 'dbi, 'w) lmdb_lib \<Rightarrow> string \<Rightarrow> ('e, 'x) cohort_env \<Rightarrow>
   (('env, 'txn, 'dbi) lmdb_adapter, 'w \<times> 'x) cohort_env" where
  "seq_env lib path B = \<lparr>
     ReaderLockWhenWithDeadline = (\<lambda>_ _ w. Some (True, w)),
     WriterLockWhenWithDeadline = (\<lambda>_ _ w. Some (True, w)),
     ReaderUnlock = (\<lambda>_ w. w), WriterUnlock = (\<lambda>_ w. w),
     iter_keys = iter_keys B,
     db_ops = lift_db (lmdb_db lib),
     db_transaction_adapter_creator = (\<lambda>(w, x). map_option (\<lambda>(d, w). (d, w, x)) (lmdb_create lib path w)),
     blockchain_stub = lift_stub (blockchain_stub B),
     file_write = (\<lambda>p c (w, x). case file_write B p c x of (b, x) \<Rightarrow> (b, w, x)),
     Now = (\<lambda>(w, x). Now B x),
     sleep_for_us = (\<lambda>us (w, x). (w, sleep_for_us B us x)),
     sleep_until = (\<lambda>t (w, x). (w, sleep_until B t x)),
     uninit_abort_reason = (\<lambda>(w, x). uninit_abort_reason B x),
     db_txn_response_dir = db_txn_response_dir B\<rparr>"

lemma lift_contract:
  assumes "db_contract A stored txn_of good missing valid"
  shows "db_contract (lift_db A) (\<lambda>(w, x). stored w) (\<lambda>d (w, x). txn_of d w) (\<lambda>d (w, x). good d w) missing valid"
proof
  note laws = assms [unfolded db_contract_def]
  show "\<not> absl_ok missing" using laws by blast
  fix d :: 'a and wx :: "'b \<times> 'c"
  obtain w x where wx: "wx = (w, x)" by fastforce
  assume "case wx of (w, x) \<Rightarrow> good d w"
  then have g: "good d w" by (simp add: wx)
  show "\<exists>d' w'. Begin (lift_db A) d wx = Some (OkStatus, d', w') \<and> (case w' of (w, x) \<Rightarrow> good d' w) \<and>
      (case w' of (w, x) \<Rightarrow> stored w) = (case wx of (w, x) \<Rightarrow> stored w) \<and>
      (case w' of (w, x) \<Rightarrow> txn_of d' w) = WriteTxn (case wx of (w, x) \<Rightarrow> stored w)"
    if "(case wx of (w, x) \<Rightarrow> txn_of d w) = NoTxn"
    using db_contract.begin_write [OF assms g] that by (fastforce simp: wx lift_db_def)
  show "\<exists>d' w'. BeginReadOnly (lift_db A) d wx = Some (OkStatus, d', w') \<and> (case w' of (w, x) \<Rightarrow> good d' w) \<and>
      (case w' of (w, x) \<Rightarrow> stored w) = (case wx of (w, x) \<Rightarrow> stored w) \<and>
      (case w' of (w, x) \<Rightarrow> txn_of d' w) = ReadTxn (case wx of (w, x) \<Rightarrow> stored w)"
    if "(case wx of (w, x) \<Rightarrow> txn_of d w) = NoTxn"
    using db_contract.begin_read [OF assms g] that by (fastforce simp: wx lift_db_def)
  show "Get (lift_db A) d k wx = Some (Inr v, d, wx)"
    if "txn_data (case wx of (w, x) \<Rightarrow> txn_of d w) = Some m" "valid k" "m k = Some v" for m k v
    using db_contract.get_present [OF assms g] that by (simp add: wx lift_db_def)
  show "Get (lift_db A) d k wx = Some (Inl missing, d, wx)"
    if "txn_data (case wx of (w, x) \<Rightarrow> txn_of d w) = Some m" "valid k" "m k = None" for m k
    using db_contract.get_absent [OF assms g] that by (simp add: wx lift_db_def)
  show "\<exists>d' w'. Put (lift_db A) d k v wx = Some (OkStatus, d', w') \<and> (case w' of (w, x) \<Rightarrow> good d' w) \<and>
      (case w' of (w, x) \<Rightarrow> stored w) = (case wx of (w, x) \<Rightarrow> stored w) \<and>
      (case w' of (w, x) \<Rightarrow> txn_of d' w) = WriteTxn (m(k \<mapsto> v))"
    if "(case wx of (w, x) \<Rightarrow> txn_of d w) = WriteTxn m" "valid k" for m k v
    using db_contract.put_write [OF assms g, of m k v] that by (fastforce simp: wx lift_db_def)
  show "\<exists>d' w'. Commit (lift_db A) d wx = Some (OkStatus, d', w') \<and> (case w' of (w, x) \<Rightarrow> good d' w) \<and>
      (case w' of (w, x) \<Rightarrow> stored w) = m \<and> (case w' of (w, x) \<Rightarrow> txn_of d' w) = NoTxn"
    if "(case wx of (w, x) \<Rightarrow> txn_of d w) = WriteTxn m" for m
    using db_contract.commit_write [OF assms g, of m] that by (fastforce simp: wx lift_db_def)
  show "\<exists>d' w'. Commit (lift_db A) d wx = Some (OkStatus, d', w') \<and> (case w' of (w, x) \<Rightarrow> good d' w) \<and>
      (case w' of (w, x) \<Rightarrow> stored w) = (case wx of (w, x) \<Rightarrow> stored w) \<and> (case w' of (w, x) \<Rightarrow> txn_of d' w) = NoTxn"
    if "(case wx of (w, x) \<Rightarrow> txn_of d w) = ReadTxn m" for m
    using db_contract.commit_read [OF assms g, of m] that by (fastforce simp: wx lift_db_def)
  show "\<exists>d' w'. Abort (lift_db A) d wx = Some (OkStatus, d', w') \<and> (case w' of (w, x) \<Rightarrow> good d' w) \<and>
      (case w' of (w, x) \<Rightarrow> stored w) = (case wx of (w, x) \<Rightarrow> stored w) \<and> (case w' of (w, x) \<Rightarrow> txn_of d' w) = NoTxn"
    if "(case wx of (w, x) \<Rightarrow> txn_of d w) \<noteq> NoTxn"
    using db_contract.abort_open [OF assms g] that by (fastforce simp: wx lift_db_def)
  assume "(case wx of (w, x) \<Rightarrow> txn_of d w) = NoTxn"
  then have n: "txn_of d w = NoTxn" by (simp add: wx)
  show "\<exists>st. Abort (lift_db A) d wx = Some (st, d, wx) \<and> raw_code st = kFailedPrecondition"
    using db_contract.abort_none [OF assms g n] by (auto simp: wx lift_db_def)
  show "\<exists>st. Commit (lift_db A) d wx = Some (st, d, wx) \<and> raw_code st = kFailedPrecondition"
    using db_contract.commit_none [OF assms g n] by (auto simp: wx lift_db_def)
  show "\<exists>st. Get (lift_db A) d k wx = Some (Inl st, d, wx) \<and> raw_code st = kFailedPrecondition" for k
    using db_contract.get_none [OF assms g n, of k] by (auto simp: wx lift_db_def)
  show "\<exists>st. Put (lift_db A) d k v wx = Some (st, d, wx) \<and> raw_code st = kFailedPrecondition" for k v
    using db_contract.put_none [OF assms g n, of k v] by (auto simp: wx lift_db_def)
qed

text \<open>A world in which an adapter can be created: its environment opens, and nobody writes.\<close>

definition creatable ::
  "('env, 'txn, 'dbi, 'w) lmdb_lib \<Rightarrow> string \<Rightarrow> ('w \<Rightarrow> raw) \<Rightarrow> ('w \<Rightarrow> bool) \<Rightarrow> ('env \<Rightarrow> 'w \<Rightarrow> bool) \<Rightarrow> 'w \<Rightarrow> bool" where
  "creatable lib path committed writer_free opened w \<longleftrightarrow> all_int64 (committed w) \<and>
     (\<exists>d e w'. lmdb_create lib path w = Some (d, w') \<and> env d = Some e \<and> opened e w' \<and> writer_free w' \<and>
        committed w' = committed w)"

lemma created_txn: "lmdb_create lib path w = Some (d, w') \<Longrightarrow> txn d = None"
  by (auto simp: lmdb_create_def lmdb_Connect_def elim!: bind_elims)

lemma lift_stub_Vote:
  "bc_Vote (lift_stub stub) tid i b (w, x) = map_option (\<lambda>(st, x). (st, w, x)) (bc_Vote stub tid i b x)"
  by (cases "stub_Vote stub \<lparr>vr_transaction_id = tid, vr_cohort_id = i, vr_ballot = b\<rparr> x")
     (auto simp: bc_Vote_def lift_stub_def Let_def)

lemma lift_stub_Decision:
  "bc_GetVotingDecision (lift_stub stub) tid (w, x) =
     map_option (\<lambda>(r, x). (r, w, x)) (bc_GetVotingDecision stub tid x)"
  by (cases "stub_GetVotingDecision stub \<lparr>dr_transaction_id = tid\<rparr> x")
     (auto simp: bc_GetVotingDecision_def lift_stub_def)

lemma seq_env_simps [simp]:
  "db_ops (seq_env lib path B) = lift_db (lmdb_db lib)"
  "blockchain_stub (seq_env lib path B) = lift_stub (blockchain_stub B)"
  "file_write (seq_env lib path B) p c (w, x) = (case file_write B p c x of (b, x) \<Rightarrow> (b, w, x))"
  by (simp_all add: seq_env_def)

lemma seq_cohort_db:
  fixes lib :: "('env, 'txn, 'dbi, 'w) lmdb_lib" and B :: "('e, 'x) cohort_env"
  assumes "lmdb lib committed view writer_free opened"
  shows "cohort_db (lift_db (lmdb_db lib)) (\<lambda>(w, x). decode (committed w)) (\<lambda>d (w, x). lmdb.txn_of view d w)
    (\<lambda>d (w, x). lmdb.good committed view writer_free opened d w) (InternalError ''Get failed.'') valid_key
    (seq_env lib path B) (\<lambda>(w, x). creatable lib path committed writer_free opened w) (\<lambda>(w, x) (w', x'). w' = w)"
proof (intro cohort_db.intro cohort_db_axioms.intro)
  let ?E = "seq_env lib path B"
  have "db_contract (lmdb_db lib) (\<lambda>w. decode (committed w)) (lmdb.txn_of view)
      (lmdb.good committed view writer_free opened) (InternalError ''Get failed.'') valid_key"
    by (rule lmdb.axioms_db [OF assms])
  from lift_contract [OF this]
  show "db_contract (lift_db (lmdb_db lib)) (\<lambda>(w, x). decode (committed w)) (\<lambda>d (w, x). lmdb.txn_of view d w)
      (\<lambda>d (w, x). lmdb.good committed view writer_free opened d w) (InternalError ''Get failed.'') valid_key" .
  show "db_ops ?E = lift_db (lmdb_db lib)" by simp
  show "\<not> SupportsConcurrentWrites (lift_db (lmdb_db lib)) d" for d by (simp add: lift_db_def lmdb_db_def)
  fix w w' w'' :: "'w \<times> 'x" and b :: bool and st :: absl_status and r and us and mx and dl and tid and i and ballot
    and path' and content
  show "(case w of (w, x) \<Rightarrow> \<lambda>(w', x'). w' = w) w' \<Longrightarrow>
      (case w' of (w, x) \<Rightarrow> lmdb.good committed view writer_free opened d w) =
      (case w of (w, x) \<Rightarrow> lmdb.good committed view writer_free opened d w) \<and>
      (case w' of (w, x) \<Rightarrow> lmdb.txn_of view d w) = (case w of (w, x) \<Rightarrow> lmdb.txn_of view d w) \<and>
      (case w' of (w, x) \<Rightarrow> decode (committed w)) = (case w of (w, x) \<Rightarrow> decode (committed w))" for d
    by (auto split: prod.splits)
  show "(case w of (w, x) \<Rightarrow> \<lambda>(w', x'). w' = w) w' \<Longrightarrow> (case w' of (w, x) \<Rightarrow> \<lambda>(w', x'). w' = w) w'' \<Longrightarrow>
      (case w of (w, x) \<Rightarrow> \<lambda>(w', x'). w' = w) w''"
    by (auto split: prod.splits)
  show "\<exists>w'. ReaderLockWhenWithDeadline ?E mx dl w = Some (True, w') \<and> (case w of (w, x) \<Rightarrow> \<lambda>(w', x'). w' = w) w'"
    and "\<exists>w'. WriterLockWhenWithDeadline ?E mx dl w = Some (True, w') \<and> (case w of (w, x) \<Rightarrow> \<lambda>(w', x'). w' = w) w'"
    and "(case w of (w, x) \<Rightarrow> \<lambda>(w', x'). w' = w) (ReaderUnlock ?E mx w)"
    and "(case w of (w, x) \<Rightarrow> \<lambda>(w', x'). w' = w) (WriterUnlock ?E mx w)"
    and "(case w of (w, x) \<Rightarrow> \<lambda>(w', x'). w' = w) (sleep_for_us ?E us w)"
    and "(case w of (w, x) \<Rightarrow> \<lambda>(w', x'). w' = w) (sleep_until ?E us w)"
    by (auto simp: seq_env_def split: prod.splits)
  show "file_write ?E path' content w = (b, w') \<Longrightarrow> (case w of (w, x) \<Rightarrow> \<lambda>(w', x'). w' = w) w'"
    by (cases w) (auto split: prod.splits)
  show "bc_Vote (blockchain_stub ?E) tid i ballot w = Some (st, w') \<Longrightarrow> (case w of (w, x) \<Rightarrow> \<lambda>(w', x'). w' = w) w'"
    by (cases w) (auto simp: lift_stub_Vote)
  show "bc_GetVotingDecision (blockchain_stub ?E) tid w = Some (r, w') \<Longrightarrow> (case w of (w, x) \<Rightarrow> \<lambda>(w', x'). w' = w) w'"
    by (cases w) (auto simp: lift_stub_Decision)
  assume "case w of (w, x) \<Rightarrow> creatable lib path committed writer_free opened w"
  then obtain w0 x d e w1 where w: "w = (w0, x)" and c: "lmdb_create lib path w0 = Some (d, w1)" "env d = Some e"
    "opened e w1" "writer_free w1" "committed w1 = committed w0" "all_int64 (committed w0)"
    by (auto simp: creatable_def)
  then have "lmdb.good committed view writer_free opened d w1" and "lmdb.txn_of view d w1 = NoTxn"
    using created_txn [OF c(1)] by (auto simp: lmdb.good_def [OF assms] lmdb.txn_of_def [OF assms])
  with w c show "\<exists>d w'. db_transaction_adapter_creator ?E w = Some (d, w') \<and>
      (case w' of (w, x) \<Rightarrow> lmdb.good committed view writer_free opened d w) \<and>
      (case w' of (w, x) \<Rightarrow> lmdb.txn_of view d w) = NoTxn \<and>
      (case w' of (w, x) \<Rightarrow> decode (committed w)) = (case w of (w, x) \<Rightarrow> decode (committed w))"
    by (simp add: seq_env_def)
qed

interpretation cohort_mdb: cohort_db "lift_db (lmdb_db mdb_lib)" "\<lambda>(w, x). decode (mdb_data w)"
  "\<lambda>d (w, x). lmdb.txn_of mdb_view d w"
  "\<lambda>d (w, x). lmdb.good mdb_data mdb_view (\<lambda>w. mdb_writer w = None) (\<lambda>_ _. True) d w" "InternalError ''Get failed.''" valid_key
  "seq_env mdb_lib path B" "\<lambda>(w, x). creatable mdb_lib path mdb_data (\<lambda>w. mdb_writer w = None) (\<lambda>_ _. True) w"
  "\<lambda>(w, x) (w', x'). w' = w" for path B
  by (rule seq_cohort_db [OF mdb.lmdb_axioms])

subsection \<open>A transaction on LMDB\<close>

lemma Wait_seq_env:
  assumes "WaitForBlockchainDecision B tid t waited x = Some (dec, x')"
  shows "WaitForBlockchainDecision (seq_env lib path B) tid t waited (w, x) = Some (dec, w, x')"
proof -
  have "WaitForBlockchainDecision (seq_env lib path B) tid t waited (w, x) = Some (fst r, w, snd r)"
    if "WaitForBlockchainDecision B tid t waited x = Some r" for r
    using that
  proof (induction rule: Wait_induct)
    case (decided waited x p x1)
    then show ?case by (subst Wait_unfold) (simp add: lift_stub_Decision)
  next
    case (again waited x p x1 r)
    have "nap (seq_env lib path B) t waited (w, x1) = (w, nap B t waited x1)"
      by (simp add: nap_def seq_env_def)
    with again show ?case by (subst Wait_unfold) (simp add: lift_stub_Decision)
  qed
  from this [OF assms] show ?thesis by simp
qed

lemma seq_outcome:
  assumes "lmdb lib committed view writer_free opened"
    and "creatable lib path committed writer_free opened w"
    and "metadata_by_transaction_id s (req_transaction_id req) = None"
    and "\<And>path content x. fst (file_write B path content x)"
    and "\<And>i b x. bc_Vote (blockchain_stub B) (req_transaction_id req) i b x \<noteq> None"
    and "\<And>x. \<exists>x'. WaitForBlockchainDecision B (req_transaction_id req)
      (time_of_timestamp (config_time (req_config req))) False x = Some (dec, x')"
    and "list_all (op_key_ok valid_key) (req_transaction req)"
  shows "\<exists>s' w' x'. ProcessTransaction (seq_env lib path B) req s (w, x) = Some (s', w', x') \<and>
    (case exec_ops (InternalError ''Get failed.'') (req_transaction req) (decode (committed w)) of
       Inl e \<Rightarrow> decode (committed w') = decode (committed w) \<and>
         final_response_by_transaction_id s' (req_transaction_id req) = Some (CohortAborted (abort_reason_for e))
     | Inr (m, gs) \<Rightarrow>
         if only_cohort req \<or> dec = VOTING_DECISION_COMMIT
         then decode (committed w') = m \<and>
           final_response_by_transaction_id s' (req_transaction_id req) = Some (CohortCommitted gs)
         else decode (committed w') = decode (committed w) \<and>
           (\<exists>reason. final_response_by_transaction_id s' (req_transaction_id req) = Some (CohortAborted reason)))"
proof -
  let ?E = "seq_env lib path B" and ?tid = "req_transaction_id req"
  have files: "\<And>path' content y. fst (file_write ?E path' content y)"
    using assms(4) by (auto split: prod.split) (metis fst_conv)
  have votes: "\<And>i b y. bc_Vote (blockchain_stub ?E) ?tid i b y \<noteq> None"
  proof -
    fix i b y
    show "bc_Vote (blockchain_stub ?E) ?tid i b y \<noteq> None"
      using assms(5) [of i b "snd y"] by (cases y) (simp add: lift_stub_Vote)
  qed
  have wait: "\<exists>y'. WaitForBlockchainDecision ?E ?tid (time_of_timestamp (config_time (req_config req))) False y =
      Some (dec, y')" for y
    using assms(6) [of "snd y"] Wait_seq_env by (cases y) fastforce
  have "case (w, x) of (w, x) \<Rightarrow> creatable lib path committed writer_free opened w" using assms(2) by simp
  from cohort_db.ProcessTransaction_outcome [OF seq_cohort_db [OF assms(1)] this assms(3) files votes wait assms(7)]
  obtain s' w' x' where "ProcessTransaction ?E req s (w, x) = Some (s', w', x')"
    and "cohort_db.outcome (InternalError ''Get failed.'') req dec (decode (committed w)) (decode (committed w'))
      (final_response_by_transaction_id s' ?tid)" by auto
  then show ?thesis
    unfolding cohort_db.outcome_def [OF seq_cohort_db [OF assms(1)]] by (intro exI conjI)
qed

end
