(* ===== verification/Coordinator_Model.thy ===== *)
theory Coordinator_Model
  imports Blockchain_Client "HOL-Library.List_Lexorder" "HOL-Library.Char_ord"
begin

text \<open>
  \<open>coordinator::CoordinatorServer\<close> (\<open>src/coordinator/coordinator_server.{h,cc}\<close>), operation by
  operation. A record \<open>coord_env\<close> over a world \<open>'w\<close> holds what the server calls and does not
  define: the SHA-256 functions of OpenSSL, the stub of the blockchain client, gRPC channels to the
  cohorts, the clock, and the iteration order of \<open>absl::flat_hash_map\<close>. The handlers share no lock
  (the source says so in a TODO), so each is modelled as it runs alone.
\<close>

type_synonym byte = "8 word"

record 'c sha_lib =
  SHA256_Init :: "'c option"
  SHA256_Update :: "'c \<Rightarrow> string \<Rightarrow> 'c option"
  SHA256_Final :: "'c \<Rightarrow> byte list option"

record server_context =
  peer :: string

datatype client_context = FromServerContext server_context

record sub_transaction =
  sub_namespace :: name_space
  sub_ops :: transaction

record ('c, 'stub, 'w) coord_env =
  sha :: "'c sha_lib"
  coord_blockchain :: "'w adapter_stub"
  NewStub :: "string \<Rightarrow> 'stub"
  stub_Prepare :: "'stub \<Rightarrow> client_context \<Rightarrow> prepare_request \<Rightarrow> 'w \<Rightarrow> (grpc_status \<times> 'w) option"
  stub_Result :: "'stub \<Rightarrow> client_context \<Rightarrow> string \<Rightarrow> 'w \<Rightarrow> (grpc_status \<times> cohort_result \<times> 'w) option"
  coord_clock :: "'w \<Rightarrow> time"
  default_presumed_abort_duration :: duration
  iter_subs :: "(string \<times> sub_transaction) list \<Rightarrow> (string \<times> sub_transaction) list"

record coord_metadata =
  cm_config :: transaction_config
  cm_contexts :: "client_context list"
  cohort_namespaces :: "name_space list"
  single_cohort_namespace :: "name_space option"
  possibly_sent_to_all_cohorts :: bool
  cm_decision :: voting_decision
  cohorts_already_responded :: "string list"

text \<open>The value-initialised metadata and response that \<open>operator[]\<close> of the maps constructs.\<close>

definition fresh_coord_metadata :: coord_metadata where
  "fresh_coord_metadata = \<lparr>cm_config = \<lparr>config_abort_time = None\<rparr>, cm_contexts = [],
     cohort_namespaces = [], single_cohort_namespace = None, possibly_sent_to_all_cohorts = False,
     cm_decision = VOTING_DECISION_UNKNOWN, cohorts_already_responded = []\<rparr>"

record transaction_response =
  complete :: bool
  tr_response :: coord_result

definition fresh_response :: transaction_response where
  "fresh_response = \<lparr>complete = False, tr_response = CoordStatusNotSet\<rparr>"

record 'stub coord_server =
  cohort_by_namespace :: "string \<rightharpoonup> 'stub"
  metadata_by_transaction :: "string \<rightharpoonup> coord_metadata"
  response_by_transaction :: "string \<rightharpoonup> transaction_response"

definition new_coord_server :: "'stub coord_server" where
  "new_coord_server = \<lparr>cohort_by_namespace = Map.empty, metadata_by_transaction = Map.empty,
     response_by_transaction = Map.empty\<rparr>"

text \<open>\<open>metadata_by_transaction_[tid]\<close> and \<open>response_by_transaction_[tid]\<close>, read or updated in place.\<close>

definition coord_meta :: "'stub coord_server \<Rightarrow> string \<Rightarrow> coord_metadata" where
  "coord_meta s tid = index_default fresh_coord_metadata (metadata_by_transaction s) tid"

definition upd_meta :: "string \<Rightarrow> (coord_metadata \<Rightarrow> coord_metadata) \<Rightarrow> 'stub coord_server \<Rightarrow> 'stub coord_server" where
  "upd_meta tid f s =
     s\<lparr>metadata_by_transaction := (metadata_by_transaction s)(tid \<mapsto> f (coord_meta s tid))\<rparr>"

definition coord_resp :: "'stub coord_server \<Rightarrow> string \<Rightarrow> transaction_response" where
  "coord_resp s tid = index_default fresh_response (response_by_transaction s) tid"

definition upd_resp ::
  "string \<Rightarrow> (transaction_response \<Rightarrow> transaction_response) \<Rightarrow> 'stub coord_server \<Rightarrow> 'stub coord_server" where
  "upd_resp tid f s =
     s\<lparr>response_by_transaction := (response_by_transaction s)(tid \<mapsto> f (coord_resp s tid))\<rparr>"

subsection \<open>Helpers\<close>

definition RequiresBlockchain :: "sub_transaction list \<Rightarrow> bool" where
  "RequiresBlockchain sub_transactions \<longleftrightarrow> length sub_transactions > 1"

definition HashSha256 :: "'c sha_lib \<Rightarrow> string \<Rightarrow> byte list option" where
  "HashSha256 lib input =
     do { context \<leftarrow> SHA256_Init lib; context \<leftarrow> SHA256_Update lib context input; SHA256_Final lib context }"

definition InvalidArgumentError :: "string \<Rightarrow> absl_status" where
  "InvalidArgumentError msg = mk_absl_status kInvalidArgument msg"

definition UnknownError :: "string \<Rightarrow> absl_status" where
  "UnknownError msg = mk_absl_status kUnknown msg"

definition ComputeFinalConfig ::
  "transaction_config \<Rightarrow> time \<Rightarrow> duration \<Rightarrow> absl_status + transaction_config" where
  "ComputeFinalConfig client_config current_time default_transaction_duration =
     (let presumed_abort_time = (case config_abort_time client_config of
            Some ts \<Rightarrow> FromUnixSeconds (seconds ts) + Nanoseconds (nanos ts)
          | None \<Rightarrow> current_time + default_transaction_duration)
      in if presumed_abort_time < current_time
         then Inl (InvalidArgumentError ''Presumed abort time is in the past'')
         else Inr \<lparr>config_abort_time = Some (ToTimespec presumed_abort_time)\<rparr>)"

text \<open>\<open>absl::Hex(byte, absl::kZeroPad2)\<close>.\<close>

definition hex_digit :: "nat \<Rightarrow> char" where
  "hex_digit n = ''0123456789abcdef'' ! n"

definition Hex2 :: "byte \<Rightarrow> string" where
  "Hex2 b = [hex_digit (unat b div 16), hex_digit (unat b mod 16)]"

definition GetTransactionId :: "'c sha_lib \<Rightarrow> string \<Rightarrow> string \<Rightarrow> absl_status + string" where
  "GetTransactionId lib client_id client_address =
     (case HashSha256 lib (client_id @ ''~'' @ client_address) of
        None \<Rightarrow> Inl (UnknownError ''Could not hash client transaction id and address'')
      | Some hash_value \<Rightarrow> Inr (concat (map Hex2 hash_value)))"

definition add_to_sub ::
  "operation \<Rightarrow> (string \<times> sub_transaction) list \<Rightarrow> (string \<times> sub_transaction) list" where
  "add_to_sub operation subs =
     (let address = ns_address (op_namespace operation);
          ops = (case map_of subs address of None \<Rightarrow> [] | Some sub \<Rightarrow> sub_ops sub)
      in AList.update address
           \<lparr>sub_namespace = op_namespace operation, sub_ops = ops @ [operation]\<rparr> subs)"

definition SplitClientTransaction ::
  "((string \<times> sub_transaction) list \<Rightarrow> (string \<times> sub_transaction) list) \<Rightarrow> transaction \<Rightarrow> bool \<Rightarrow>
   sub_transaction list" where
  "SplitClientTransaction iter original_transaction sort_sub_transactions =
     (let transactions_by_namespace = fold add_to_sub original_transaction [];
          sub_transactions = map snd (iter transactions_by_namespace)
      in if sort_sub_transactions then sort_key (\<lambda>t. ns_address (sub_namespace t)) sub_transactions
         else sub_transactions)"

definition SortCohortRequests :: bool where
  "SortCohortRequests = False"

subsection \<open>Calls to the blockchain and to the cohorts\<close>

definition coord_StartVoting ::
  "('c, 'stub, 'w) coord_env \<Rightarrow> string \<Rightarrow> timestamp \<Rightarrow> nat \<Rightarrow> 'w \<Rightarrow> (absl_status \<times> 'w) option" where
  "coord_StartVoting E transaction_id presumed_abort_time n w =
     (let abort_time = ToTimeT (FromUnixSeconds (seconds presumed_abort_time) + Nanoseconds (nanos presumed_abort_time))
      in bc_StartVoting (coord_blockchain E) transaction_id abort_time (int n) w)"

definition coord_GetVotingDecision ::
  "('c, 'stub, 'w) coord_env \<Rightarrow> string \<Rightarrow> 'w \<Rightarrow> ((absl_status + voting_decision) \<times> 'w) option" where
  "coord_GetVotingDecision E transaction_id w = bc_GetVotingDecision (coord_blockchain E) transaction_id w"

definition GetCohortStub ::
  "('c, 'stub, 'w) coord_env \<Rightarrow> name_space \<Rightarrow> 'stub coord_server \<Rightarrow> 'stub \<times> 'stub coord_server" where
  "GetCohortStub E ns s =
     (case cohort_by_namespace s (ns_address ns) of
        Some stub \<Rightarrow> (stub, s)
      | None \<Rightarrow> (let stub = NewStub E (ns_address ns)
                 in (stub, s\<lparr>cohort_by_namespace := (cohort_by_namespace s)(ns_address ns \<mapsto> stub)\<rparr>)))"

definition PrepareCohortTransaction ::
  "('c, 'stub, 'w) coord_env \<Rightarrow> string \<Rightarrow> name_space \<Rightarrow> prepare_request \<Rightarrow> server_context \<Rightarrow>
   'stub coord_server \<Rightarrow> 'w \<Rightarrow> ('stub coord_server \<times> 'w) option" where
  "PrepareCohortTransaction E transaction_id ns request context s w =
     (let s = upd_meta transaction_id (\<lambda>m. m\<lparr>cm_contexts := cm_contexts m @ [FromServerContext context]\<rparr>) s;
          (stub, s) = GetCohortStub E ns s
      in do {
        (ignored, w) \<leftarrow> stub_Prepare E stub (last (cm_contexts (coord_meta s transaction_id))) request w;
        Some (s, w)
      })"

definition GetResultsFromCohort ::
  "('c, 'stub, 'w) coord_env \<Rightarrow> name_space \<Rightarrow> string \<Rightarrow> client_context \<Rightarrow> 'stub coord_server \<Rightarrow> 'w \<Rightarrow>
   (grpc_status \<times> cohort_result \<times> 'stub coord_server \<times> 'w) option" where
  "GetResultsFromCohort E ns transaction_id context s w =
     (let (stub, s) = GetCohortStub E ns s in do {
        (status, response, w) \<leftarrow> stub_Result E stub context transaction_id w;
        Some (status, response, s, w)
      })"

subsection \<open>Committing a transaction\<close>

text \<open>The loop over the cohorts; \<open>n\<close> is \<open>sub_transactions.size()\<close>.\<close>

fun prepare_cohorts ::
  "('c, 'stub, 'w) coord_env \<Rightarrow> string \<Rightarrow> server_context \<Rightarrow> nat \<Rightarrow> sub_transaction list \<Rightarrow> nat \<Rightarrow>
   prepare_request \<Rightarrow> 'stub coord_server \<Rightarrow> 'w \<Rightarrow> ('stub coord_server \<times> 'w) option" where
  "prepare_cohorts E transaction_id context n [] index request s w = Some (s, w)"
| "prepare_cohorts E transaction_id context n (sub # subs) index request s w =
     (let request = (if n \<noteq> 1 then request\<lparr>participant := CohortIndex index\<rparr> else request);
          request = request\<lparr>req_transaction := sub_ops sub\<rparr>;
          s = upd_meta transaction_id
                (\<lambda>m. m\<lparr>cohort_namespaces := cohort_namespaces m @ [sub_namespace sub]\<rparr>) s;
          s = (if index = n - 1
               then upd_meta transaction_id (\<lambda>m. m\<lparr>possibly_sent_to_all_cohorts := True\<rparr>) s else s)
      in do {
        (s, w) \<leftarrow> PrepareCohortTransaction E transaction_id (sub_namespace sub) request context s w;
        prepare_cohorts E transaction_id context n subs (index + 1) request s w
      })"

definition SendCohortPrepareRequests ::
  "('c, 'stub, 'w) coord_env \<Rightarrow> string \<Rightarrow> sub_transaction list \<Rightarrow> server_context \<Rightarrow>
   'stub coord_server \<Rightarrow> 'w \<Rightarrow> ('stub coord_server \<times> 'w) option" where
  "SendCohortPrepareRequests E transaction_id sub_transactions context s w =
     (let s = upd_meta transaction_id (\<lambda>m. m) s;
          prepare = \<lparr>req_transaction_id = transaction_id, req_transaction = [],
                     req_config = cm_config (coord_meta s transaction_id), participant = ParticipantNotSet\<rparr>;
          (prepare, s) = (if length sub_transactions = 1
             then (prepare\<lparr>participant := OnlyCohort True\<rparr>,
                   upd_meta transaction_id
                     (\<lambda>m. m\<lparr>single_cohort_namespace := Some (sub_namespace (sub_transactions ! 0))\<rparr>) s)
             else (prepare, s))
      in prepare_cohorts E transaction_id context (length sub_transactions) sub_transactions 0 prepare s w)"

definition CommitAtomicTransaction ::
  "('c, 'stub, 'w) coord_env \<Rightarrow> server_context \<Rightarrow> commit_request \<Rightarrow> 'stub coord_server \<Rightarrow> 'w \<Rightarrow>
   (grpc_status \<times> commit_response \<times> 'stub coord_server \<times> 'w) option" where
  "CommitAtomicTransaction E context request s w =
     (let response = \<lparr>global_transaction_id = [], cresp_config = \<lparr>config_abort_time = None\<rparr>\<rparr> in
      case GetTransactionId (sha E) (client_transaction_id request) (peer context) of
        Inl st \<Rightarrow> Some (FromAbslStatus st ''Failed to create transaction id'', response, s, w)
      | Inr tid \<Rightarrow>
          let response = response\<lparr>global_transaction_id := tid\<rparr>;
              s = upd_meta tid (\<lambda>m. m) s
          in if possibly_sent_to_all_cohorts (coord_meta s tid)
             then Some (grpc_OK, response\<lparr>cresp_config := cm_config (coord_meta s tid)\<rparr>, s, w)
             else case ComputeFinalConfig (creq_config request) (coord_clock E w)
                         (default_presumed_abort_duration E) of
               Inl st \<Rightarrow> Some (FromAbslStatus st ''Failed to compute config: '', response, s, w)
             | Inr config \<Rightarrow>
                 let response = response\<lparr>cresp_config := config\<rparr>;
                     s = upd_meta tid (\<lambda>m. m\<lparr>cm_config := config\<rparr>) s;
                     subs = SplitClientTransaction (iter_subs E) (creq_transaction request) SortCohortRequests
                 in if subs = [] then Some (grpc_OK, response, s, w)
                    else do {
                      (st, w) \<leftarrow> (if RequiresBlockchain subs
                                 then coord_StartVoting E tid (config_time config) (length subs) w
                                 else Some (OkStatus, w));
                      (if \<not> absl_ok st
                       then Some (FromAbslStatus st ''Failed to start voting in blockchain'', response, s, w)
                       else do {
                         (s, w) \<leftarrow> SendCohortPrepareRequests E tid subs context s w;
                         Some (grpc_OK, response, s, w)
                       })
                    })"

subsection \<open>Results\<close>

definition CleanUpTransactionMetadata :: "string \<Rightarrow> 'stub coord_server \<Rightarrow> 'stub coord_server" where
  "CleanUpTransactionMetadata tid s =
     (let s = upd_resp tid (\<lambda>r. r\<lparr>complete := True\<rparr>) s
      in s\<lparr>metadata_by_transaction := (metadata_by_transaction s)(tid := None)\<rparr>)"

text \<open>Writing to the response that the coordinator keeps, through its accessors.\<close>

definition add_responses :: "committed_response \<Rightarrow> transaction_response \<Rightarrow> transaction_response" where
  "add_responses gs r =
     (let c = mutable_coord_committed (tr_response r)
      in r\<lparr>tr_response := CoordCommitted (c\<lparr>all_get_responses := all_get_responses c @ gs\<rparr>)\<rparr>)"

definition set_complete :: "transaction_response \<Rightarrow> transaction_response" where
  "set_complete r =
     r\<lparr>tr_response := CoordCommitted ((mutable_coord_committed (tr_response r))\<lparr>complete_flag := True\<rparr>)\<rparr>"

definition add_abort :: "name_space \<Rightarrow> abort_reason \<Rightarrow> transaction_response \<Rightarrow> transaction_response" where
  "add_abort ns reason r =
     (let a = mutable_coord_aborted (tr_response r)
      in r\<lparr>tr_response := CoordAborted (a\<lparr>abort_namespaces := abort_namespaces a @ [ns],
                                        abort_reason_of := reason\<rparr>)\<rparr>)"

definition UpdateResponseForSingleCohortTransaction ::
  "('c, 'stub, 'w) coord_env \<Rightarrow> string \<Rightarrow> server_context \<Rightarrow> 'stub coord_server \<Rightarrow> 'w \<Rightarrow>
   (grpc_status \<times> 'stub coord_server \<times> 'w) option" where
  "UpdateResponseForSingleCohortTransaction E tid context s w =
     do {
       let s = upd_resp tid (\<lambda>r. r) s;
       ns \<leftarrow> single_cohort_namespace (coord_meta s tid);
       (status, cohort_response, s, w) \<leftarrow> GetResultsFromCohort E ns tid (FromServerContext context) s w;
       (if \<not> grpc_ok status
        then Some (\<lparr>error_code = error_code status,
                   error_message = ''Failed to get cohort results: '' @ error_message status\<rparr>, s, w)
        else case cohort_response of
          CohortAborted reason \<Rightarrow>
            Some (grpc_OK, CleanUpTransactionMetadata tid (upd_resp tid (add_abort ns reason) s), w)
        | CohortCommitted gs \<Rightarrow>
            Some (grpc_OK, CleanUpTransactionMetadata tid
              (upd_resp tid set_complete (upd_resp tid (add_responses gs) s)), w)
        | _ \<Rightarrow> Some (grpc_OK, upd_resp tid (\<lambda>r. r\<lparr>tr_response := CoordPending\<rparr>) s, w))
     }"

definition UpdateAbortedResponseFromCohorts :: "string \<Rightarrow> 'stub coord_server \<Rightarrow> 'stub coord_server" where
  "UpdateAbortedResponseFromCohorts tid s =
     CleanUpTransactionMetadata tid
       (upd_resp tid (\<lambda>r. r\<lparr>tr_response := CoordAborted (mutable_coord_aborted (tr_response r))\<rparr>) s)"

fun collect_responses ::
  "('c, 'stub, 'w) coord_env \<Rightarrow> string \<Rightarrow> server_context \<Rightarrow> name_space list \<Rightarrow> nat \<Rightarrow>
   'stub coord_server \<Rightarrow> 'w \<Rightarrow> (nat \<times> 'stub coord_server \<times> 'w) option" where
  "collect_responses E tid context [] num_committed_responses s w = Some (num_committed_responses, s, w)"
| "collect_responses E tid context (ns # nss) num_committed_responses s w =
     (if hs_contains (cohorts_already_responded (coord_meta s tid)) (ns_address ns)
      then collect_responses E tid context nss (num_committed_responses + 1) s w
      else do {
        (status, cohort_response, s, w) \<leftarrow> GetResultsFromCohort E ns tid (FromServerContext context) s w;
        (case cohort_response of
           CohortCommitted gs \<Rightarrow>
             if grpc_ok status
             then collect_responses E tid context nss (num_committed_responses + 1)
               (upd_meta tid (\<lambda>m. m\<lparr>cohorts_already_responded :=
                    hs_emplace (ns_address ns) (cohorts_already_responded m)\<rparr>)
                 (upd_resp tid (add_responses gs) s)) w
             else collect_responses E tid context nss num_committed_responses s w
         | _ \<Rightarrow> collect_responses E tid context nss num_committed_responses s w)
      })"

definition UpdateCommittedResponseFromCohorts ::
  "('c, 'stub, 'w) coord_env \<Rightarrow> string \<Rightarrow> server_context \<Rightarrow> 'stub coord_server \<Rightarrow> 'w \<Rightarrow>
   ('stub coord_server \<times> 'w) option" where
  "UpdateCommittedResponseFromCohorts E tid context s w =
     do {
       let s = upd_resp tid (\<lambda>r. r) s;
       (n, s, w) \<leftarrow> collect_responses E tid context (cohort_namespaces (coord_meta s tid)) 0 s w;
       Some (if n = length (cohort_namespaces (coord_meta s tid))
             then CleanUpTransactionMetadata tid (upd_resp tid set_complete s) else s, w)
     }"

definition coord_GetTransactionResult ::
  "('c, 'stub, 'w) coord_env \<Rightarrow> server_context \<Rightarrow> string \<Rightarrow> 'stub coord_server \<Rightarrow> 'w \<Rightarrow>
   (grpc_status \<times> coord_result \<times> 'stub coord_server \<times> 'w) option" where
  "coord_GetTransactionResult E context tid s w =
     (let s = upd_resp tid (\<lambda>r. r) s in
      if complete (coord_resp s tid) then Some (grpc_OK, tr_response (coord_resp s tid), s, w)
      else if metadata_by_transaction s tid = None
      then Some (\<lparr>error_code = kNotFound, error_message = ''Could not find transaction''\<rparr>,
                 CoordStatusNotSet, s, w)
      else if single_cohort_namespace (coord_meta s tid) \<noteq> None
      then do {
        (status, s, w) \<leftarrow> UpdateResponseForSingleCohortTransaction E tid context s w;
        Some (status, if grpc_ok status then tr_response (coord_resp s tid) else CoordStatusNotSet, s, w)
      }
      else do {
        (decision_or_status, w) \<leftarrow>
          (if cm_decision (coord_meta s tid) = VOTING_DECISION_PENDING
              \<or> cm_decision (coord_meta s tid) = VOTING_DECISION_UNKNOWN
           then coord_GetVotingDecision E tid w
           else Some (Inr (cm_decision (coord_meta s tid)), w));
        (case decision_or_status of
           Inl st \<Rightarrow> Some (FromAbslStatus st ''Failed to get blockchain decision'', CoordStatusNotSet, s, w)
         | Inr decision \<Rightarrow>
             let s = upd_meta tid (\<lambda>m. m\<lparr>cm_decision := decision\<rparr>) s in
             case decision of
               VOTING_DECISION_ABORT \<Rightarrow>
                 let s = UpdateAbortedResponseFromCohorts tid s
                 in Some (grpc_OK, tr_response (coord_resp s tid), s, w)
             | VOTING_DECISION_COMMIT \<Rightarrow> do {
                 (s, w) \<leftarrow> UpdateCommittedResponseFromCohorts E tid context s w;
                 Some (grpc_OK, tr_response (coord_resp s tid), s, w)
               }
             | _ \<Rightarrow> Some (grpc_OK, CoordPending, s, w))
      })"

end
