(* ===== verification/Coordinator_Split.thy ===== *)
theory Coordinator_Split
  imports Coordinator_Model
begin

text \<open>
  The pure parts of the coordinator: a transaction is split by the address of the cohort without
  losing, duplicating or reordering an operation; the transaction id determines the client's id and
  address as far as the hash does; the final configuration.
\<close>

subsection \<open>Splitting a transaction\<close>

definition ops_for :: "string \<Rightarrow> transaction \<Rightarrow> transaction" where
  "ops_for address ops = filter (\<lambda>op. ns_address (op_namespace op) = address) ops"

definition addresses :: "transaction \<Rightarrow> string set" where
  "addresses ops = (\<lambda>op. ns_address (op_namespace op)) ` set ops"

lemma ops_for_Nil_iff: "ops_for a ops = [] \<longleftrightarrow> a \<notin> addresses ops"
  by (auto simp: ops_for_def addresses_def filter_empty_conv)

lemma ops_for_snoc:
  "ops_for a (ops @ [op]) = (if ns_address (op_namespace op) = a then ops_for a ops @ [op] else ops_for a ops)"
  by (simp add: ops_for_def)

lemma addresses_snoc [simp]:
  "addresses (ops @ [op]) = insert (ns_address (op_namespace op)) (addresses ops)"
  by (simp add: addresses_def)

definition sub_for :: "transaction \<Rightarrow> string \<Rightarrow> sub_transaction" where
  "sub_for ops a = \<lparr>sub_namespace = op_namespace (last (ops_for a ops)), sub_ops = ops_for a ops\<rparr>"

lemma distinct_fold_add_to_sub: "distinct (map fst (fold add_to_sub ops []))"
  by (induction ops rule: rev_induct) (simp_all add: add_to_sub_def Let_def distinct_update)

lemma lookup_add_to_sub:
  "map_of (add_to_sub op subs) a =
     (if a = ns_address (op_namespace op)
      then Some \<lparr>sub_namespace = op_namespace op,
                 sub_ops = (case map_of subs a of None \<Rightarrow> [] | Some sub \<Rightarrow> sub_ops sub) @ [op]\<rparr>
      else map_of subs a)"
  by (simp add: add_to_sub_def Let_def update_conv')

lemma lookup_fold_add_to_sub:
  "map_of (fold add_to_sub ops []) a = (if a \<in> addresses ops then Some (sub_for ops a) else None)"
proof (induction ops arbitrary: a rule: rev_induct)
  case Nil
  then show ?case by (simp add: addresses_def)
next
  case (snoc op ops)
  show ?case
    using ops_for_Nil_iff [of "ns_address (op_namespace op)" ops]
    by (auto simp: lookup_add_to_sub sub_for_def ops_for_snoc snoc.IH)
qed

lemma fold_add_to_sub_elem:
  assumes "(a, sub) \<in> set (fold add_to_sub ops [])"
  shows "sub = sub_for ops a" and "ns_address (sub_namespace sub) = a" and "a \<in> addresses ops"
proof -
  have "map_of (fold add_to_sub ops []) a = Some sub"
    using assms distinct_fold_add_to_sub by (rule map_of_is_SomeI [rotated])
  then show s: "sub = sub_for ops a" and a: "a \<in> addresses ops"
    unfolding lookup_fold_add_to_sub by (simp_all split: if_splits)
  from a have "ops_for a ops \<noteq> []" by (simp add: ops_for_Nil_iff)
  then have "last (ops_for a ops) \<in> set (ops_for a ops)" by simp
  then show "ns_address (sub_namespace sub) = a" unfolding s
    by (auto simp: sub_for_def ops_for_def)
qed

lemma fold_add_to_sub_addresses: "fst ` set (fold add_to_sub ops []) = addresses ops"
proof -
  have "fst ` set (fold add_to_sub ops []) = dom (map_of (fold add_to_sub ops []))"
    by (simp add: dom_map_of_conv_image_fst)
  also have "\<dots> = addresses ops" by (auto simp: dom_def lookup_fold_add_to_sub)
  finally show ?thesis .
qed

definition sub_address :: "sub_transaction \<Rightarrow> string" where
  "sub_address sub = ns_address (sub_namespace sub)"

text \<open>
  The specification of a split: every address of the transaction once, with its operations in
  their order.
\<close>

definition splits_into :: "transaction \<Rightarrow> sub_transaction list \<Rightarrow> bool" where
  "splits_into ops subs \<longleftrightarrow> distinct (map sub_address subs) \<and> sub_address ` set subs = addresses ops \<and>
     (\<forall>sub \<in> set subs. sub_ops sub = ops_for (sub_address sub) ops)"

lemma map_sub_address:
  assumes "set subs \<subseteq> set (fold add_to_sub ops [])"
  shows "map (sub_address \<circ> snd) subs = map fst subs"
  using assms fold_add_to_sub_elem(2) by (fastforce simp: sub_address_def)

lemma split_unsorted:
  assumes "perm_order iter"
  shows "splits_into ops (map snd (iter (fold add_to_sub ops [])))"
proof -
  let ?subs = "iter (fold add_to_sub ops [])"
  have set: "set ?subs = set (fold add_to_sub ops [])" by (rule perm_order_set [OF assms])
  have m: "mset ?subs = mset (fold add_to_sub ops [])" by (rule perm_order_mset [OF assms])
  have fsts: "map sub_address (map snd ?subs) = map fst ?subs"
    using map_sub_address [of ?subs ops] set by simp
  have "distinct (map fst ?subs)"
    using distinct_fold_add_to_sub [of ops] m by (metis mset_eq_imp_distinct_iff mset_map)
  moreover have "fst ` set ?subs = addresses ops"
    unfolding set by (rule fold_add_to_sub_addresses)
  moreover have "sub_address ` set (map snd ?subs) = fst ` set ?subs"
    using fsts by (metis list.set_map)
  moreover have "sub_ops sub = ops_for (sub_address sub) ops" if "sub \<in> set (map snd ?subs)" for sub
  proof -
    from that obtain a where "(a, sub) \<in> set (fold add_to_sub ops [])" unfolding set [symmetric] by auto
    from fold_add_to_sub_elem [OF this] show ?thesis by (simp add: sub_address_def sub_for_def)
  qed
  ultimately show ?thesis unfolding splits_into_def fsts by blast
qed

lemma splits_into_perm:
  assumes "splits_into ops subs" and "mset subs' = mset subs"
  shows "splits_into ops subs'"
proof -
  have "set subs' = set subs" using assms(2) by (metis set_mset_mset)
  moreover have "distinct (map sub_address subs') = distinct (map sub_address subs)"
    using assms(2) by (metis mset_eq_imp_distinct_iff mset_map)
  ultimately show ?thesis using assms(1) by (simp add: splits_into_def)
qed

lemma SplitClientTransaction_splits:
  "perm_order iter \<Longrightarrow> splits_into ops (SplitClientTransaction iter ops srt)"
  by (auto simp: SplitClientTransaction_def Let_def
      intro: split_unsorted splits_into_perm [OF split_unsorted])

lemma SplitClientTransaction_Nil_iff:
  "perm_order iter \<Longrightarrow> SplitClientTransaction iter ops srt = [] \<longleftrightarrow> ops = []"
  using SplitClientTransaction_splits [of iter ops srt]
  by (auto simp: splits_into_def addresses_def)

text \<open>No operation is lost or duplicated: together the parts are the transaction.\<close>

lemma mset_by_addresses:
  assumes "distinct as" and "addresses ops \<subseteq> set as"
  shows "(\<Sum>a \<leftarrow> as. mset (ops_for a ops)) = mset ops"
  using assms
proof (induction as arbitrary: ops)
  case Nil
  then show ?case by (simp add: addresses_def)
next
  case (Cons a as)
  let ?rest = "filter (\<lambda>op. ns_address (op_namespace op) \<noteq> a) ops"
  have "ops_for b ?rest = ops_for b ops" if "b \<in> set as" for b
    using that Cons.prems(1) by (auto simp: ops_for_def intro: filter_cong)
  then have "(\<Sum>b \<leftarrow> as. mset (ops_for b ops)) = (\<Sum>b \<leftarrow> as. mset (ops_for b ?rest))"
    by (metis (mono_tags, lifting) map_eq_conv)
  also have "\<dots> = mset ?rest"
    using Cons.prems by (intro Cons.IH) (auto simp: addresses_def)
  finally show ?case by (simp add: ops_for_def)
qed

lemma splits_into_mset:
  assumes "splits_into ops subs"
  shows "(\<Sum>sub \<leftarrow> subs. mset (sub_ops sub)) = mset ops"
proof -
  have "map (\<lambda>sub. mset (sub_ops sub)) subs = map (\<lambda>a. mset (ops_for a ops)) (map sub_address subs)"
    using assms by (simp add: splits_into_def)
  then show ?thesis
    using mset_by_addresses [of "map sub_address subs" ops] assms
    by (simp only: splits_into_def set_map order_refl)
qed

text \<open>Sorted, the result does not depend on the iteration order of the hash map.\<close>

lemma sort_key_unique:
  assumes "mset xs = mset ys" and "distinct (map f xs)"
  shows "sort_key f xs = sort_key f ys"
proof (rule properties_for_sort_key)
  show "mset (sort_key f ys) = mset xs" using assms(1) by simp
  show "sorted (map f (sort_key f ys))" by simp
  have inj: "inj_on f (set xs)" and d: "distinct xs" using assms(2) by (auto simp: distinct_map)
  fix k assume k: "k \<in> set (sort_key f ys)"
  have eq: "set (sort_key f ys) = set xs" using assms(1) by (metis set_mset_mset set_sort)
  have "filter (\<lambda>x. f k = f x) zs = [k]" if "distinct zs" "set zs = set xs" for zs
  proof -
    have "filter (\<lambda>x. f k = f x) zs = filter (\<lambda>x. x = k) zs"
      using inj k that(2) eq by (auto simp: inj_on_def intro!: filter_cong)
    moreover have "filter (\<lambda>x. x = k) zs = [k]" if "distinct zs" "k \<in> set zs" for zs
      using that by (induction zs) (auto simp: filter_empty_conv)
    ultimately show ?thesis using that k eq by simp
  qed
  then show "filter (\<lambda>x. f k = f x) (sort_key f ys) = filter (\<lambda>x. f k = f x) xs"
    using d eq assms(1) by (metis distinct_sort mset_eq_imp_distinct_iff)
qed

lemma Split_sorted_unique:
  assumes "perm_order iter" and "perm_order iter'"
  shows "SplitClientTransaction iter ops True = SplitClientTransaction iter' ops True"
proof -
  let ?subs = "\<lambda>it. map snd (it (fold add_to_sub ops []))"
  have "mset (?subs iter) = mset (?subs iter')"
    by (simp add: perm_order_mset [OF assms(1)] perm_order_mset [OF assms(2)])
  moreover have "distinct (map sub_address (?subs iter))"
    using split_unsorted [OF assms(1)] by (simp add: splits_into_def)
  ultimately show ?thesis
    unfolding SplitClientTransaction_def Let_def if_True sub_address_def by (rule sort_key_unique)
qed

subsection \<open>Transaction ids\<close>

lemma hex_digit_inj: "m < 16 \<Longrightarrow> n < 16 \<Longrightarrow> hex_digit m = hex_digit n \<longleftrightarrow> m = n"
proof -
  have "distinct ''0123456789abcdef''" by simp
  then show "m < 16 \<Longrightarrow> n < 16 \<Longrightarrow> hex_digit m = hex_digit n \<longleftrightarrow> m = n"
    unfolding hex_digit_def by (subst nth_eq_iff_index_eq) simp_all
qed

lemma unat_byte_lt: "unat (b :: byte) < 256"
  using unsigned_less [of b] by simp

lemma Hex2_inj [simp]: "Hex2 a = Hex2 b \<longleftrightarrow> a = b"
proof -
  have "unat a div 16 < 16" "unat b div 16 < 16" using unat_byte_lt [of a] unat_byte_lt [of b] by auto
  then have "Hex2 a = Hex2 b \<longleftrightarrow> unat a div 16 = unat b div 16 \<and> unat a mod 16 = unat b mod 16"
    by (simp add: Hex2_def hex_digit_inj)
  also have "\<dots> \<longleftrightarrow> unat a = unat b" by (metis div_mult_mod_eq)
  finally show ?thesis by (simp only: word_unat_eq_iff)
qed

lemma length_Hex2 [simp]: "length (Hex2 b) = 2"
  by (simp add: Hex2_def)

lemma hex_bytes_inj: "concat (map Hex2 xs) = concat (map Hex2 ys) \<longleftrightarrow> xs = ys"
proof (induction xs arbitrary: ys)
  case Nil
  then show ?case by (cases ys) (simp_all add: Hex2_def)
next
  case (Cons x xs)
  then show ?case by (cases ys) (simp_all add: append_eq_append_conv, simp add: Hex2_def)
qed

lemma length_hex_bytes: "length (concat (map Hex2 xs)) = 2 * length xs"
  by (induction xs) simp_all

text \<open>The text that is hashed determines its parts when the address has no tilde.\<close>

lemma tilde_split:
  assumes "CHR ''~'' \<notin> set addr" and "CHR ''~'' \<notin> set addr'"
  shows "cid @ ''~'' @ addr = cid' @ ''~'' @ addr' \<longleftrightarrow> cid = cid' \<and> addr = addr'"
proof
  assume eq: "cid @ ''~'' @ addr = cid' @ ''~'' @ addr'"
  then have "rev (cid @ ''~'' @ addr) = rev (cid' @ ''~'' @ addr')" by (rule arg_cong)
  then have "rev addr @ CHR ''~'' # rev cid = rev addr' @ CHR ''~'' # rev cid'" by simp
  moreover have "takeWhile (\<lambda>c. c \<noteq> CHR ''~'') (xs @ CHR ''~'' # ys) = xs" if "CHR ''~'' \<notin> set xs" for xs ys
    using that by (induction xs) auto
  ultimately have "rev addr = rev addr'" using assms by (metis set_rev)
  with \<open>rev addr @ CHR ''~'' # rev cid = rev addr' @ CHR ''~'' # rev cid'\<close>
  show "cid = cid' \<and> addr = addr'" by simp
qed simp

lemma GetTransactionId_eq_iff:
  assumes "GetTransactionId lib cid addr = Inr tid" and "GetTransactionId lib cid' addr' = Inr tid'"
  shows "tid = tid' \<longleftrightarrow>
    HashSha256 lib (cid @ ''~'' @ addr) = HashSha256 lib (cid' @ ''~'' @ addr')"
  using assms by (auto simp: GetTransactionId_def hex_bytes_inj split: option.splits)

lemma GetTransactionId_length:
  assumes "GetTransactionId lib cid addr = Inr tid"
    and "\<And>input md. HashSha256 lib input = Some md \<Longrightarrow> length md = 32"
  shows "length tid = 64"
  using assms by (auto simp: GetTransactionId_def length_hex_bytes split: option.splits)

subsection \<open>The final configuration\<close>

lemma InvalidArgumentError_not_ok [simp]: "\<not> absl_ok (InvalidArgumentError msg)"
  by (simp add: InvalidArgumentError_def)

lemma UnknownError_not_ok [simp]: "\<not> absl_ok (UnknownError msg)"
  by (simp add: UnknownError_def)

definition requested_time :: "transaction_config \<Rightarrow> time \<Rightarrow> duration \<Rightarrow> time" where
  "requested_time config now dflt = (case config_abort_time config of
     Some ts \<Rightarrow> time_of_timestamp ts | None \<Rightarrow> now + dflt)"

lemma ComputeFinalConfig_eq:
  "ComputeFinalConfig config now dflt =
     (if requested_time config now dflt < now
      then Inl (InvalidArgumentError ''Presumed abort time is in the past'')
      else Inr \<lparr>config_abort_time = Some (ToTimespec (requested_time config now dflt))\<rparr>)"
  by (simp add: ComputeFinalConfig_def requested_time_def time_of_timestamp_def Let_def split: option.split)

lemma ComputeFinalConfig_Inr:
  assumes "ComputeFinalConfig config now dflt = Inr c"
  obtains ts where "c = \<lparr>config_abort_time = Some ts\<rparr>" "valid_timestamp ts"
    "now < time_of_timestamp ts + 4" "time_of_timestamp ts \<le> requested_time config now dflt"
    "\<And>ts'. config_abort_time config = Some ts' \<Longrightarrow> valid_timestamp ts' \<Longrightarrow> ts = ts'"
proof -
  let ?t = "requested_time config now dflt"
  have c: "c = \<lparr>config_abort_time = Some (ToTimespec ?t)\<rparr>" and le: "now \<le> ?t"
    using assms by (auto simp: ComputeFinalConfig_eq split: if_splits)
  show ?thesis
  proof (rule that [OF c valid_ToTimespec])
    show "now < time_of_timestamp (ToTimespec ?t) + 4" "time_of_timestamp (ToTimespec ?t) \<le> ?t"
      using le ToTimespec_floor [of ?t] by linarith+
    show "ToTimespec ?t = ts'" if "config_abort_time config = Some ts'" "valid_timestamp ts'" for ts'
      using that by (simp add: requested_time_def timestamp_roundtrip)
  qed
qed

end
