(* ===== verification/Coordinator_Commit.thy ===== *)
theory Coordinator_Commit
  imports Coordinator_Split
begin

text \<open>
  \<open>CommitAtomicTransaction\<close>: the ways it can return, what it leaves in the server's maps, and the
  calls it makes, in order.
\<close>

subsection \<open>The maps of the server\<close>

lemma coord_meta_upd [simp]:
  "coord_meta (upd_meta tid f s) tid' = (if tid' = tid then f (coord_meta s tid) else coord_meta s tid')"
  by (auto simp: coord_meta_def upd_meta_def)

lemma coord_resp_upd [simp]:
  "coord_resp (upd_resp tid f s) tid' = (if tid' = tid then f (coord_resp s tid) else coord_resp s tid')"
  by (auto simp: coord_resp_def upd_resp_def)

lemma coord_frames [simp]:
  "coord_resp (upd_meta tid f s) = coord_resp s"
  "coord_meta (upd_resp tid g s) = coord_meta s"
  "cohort_by_namespace (upd_meta tid f s) = cohort_by_namespace s"
  "cohort_by_namespace (upd_resp tid g s) = cohort_by_namespace s"
  "response_by_transaction (upd_meta tid f s) = response_by_transaction s"
  "metadata_by_transaction (upd_resp tid g s) = metadata_by_transaction s"
  "metadata_by_transaction (upd_meta tid f s) = (metadata_by_transaction s)(tid \<mapsto> f (coord_meta s tid))"
  "response_by_transaction (upd_resp tid g s) = (response_by_transaction s)(tid \<mapsto> g (coord_resp s tid))"
  by (auto simp: upd_meta_def upd_resp_def coord_meta_def coord_resp_def)

lemma coord_meta_present: "metadata_by_transaction s tid = Some m \<Longrightarrow> coord_meta s tid = m"
  by (simp add: coord_meta_def index_default_Some)

lemma coord_meta_absent: "metadata_by_transaction s tid = None \<Longrightarrow> coord_meta s tid = fresh_coord_metadata"
  by (simp add: coord_meta_def index_default_None)

lemma coord_resp_present: "response_by_transaction s tid = Some r \<Longrightarrow> coord_resp s tid = r"
  by (simp add: coord_resp_def index_default_Some)

lemma coord_resp_absent: "response_by_transaction s tid = None \<Longrightarrow> coord_resp s tid = fresh_response"
  by (simp add: coord_resp_def index_default_None)

text \<open>The cache of stubs maps an address to a channel to that address.\<close>

definition stubs_ok :: "('c, 'stub, 'w) coord_env \<Rightarrow> 'stub coord_server \<Rightarrow> bool" where
  "stubs_ok E s \<longleftrightarrow> (\<forall>a stub. cohort_by_namespace s a = Some stub \<longrightarrow> stub = NewStub E a)"

lemma stubs_ok_upd [simp]:
  "stubs_ok E (upd_meta tid f s) = stubs_ok E s" "stubs_ok E (upd_resp tid g s) = stubs_ok E s"
  by (simp_all add: stubs_ok_def)

lemma GetCohortStub_ok:
  assumes "stubs_ok E s" and "GetCohortStub E ns s = (stub, s')"
  shows "stub = NewStub E (ns_address ns)" and "stubs_ok E s'"
  using assms by (auto simp: GetCohortStub_def stubs_ok_def Let_def split: option.splits if_splits)

lemma GetCohortStub_frame:
  assumes "GetCohortStub E ns s = (stub, s')"
  shows "metadata_by_transaction s' = metadata_by_transaction s"
    and "response_by_transaction s' = response_by_transaction s"
    and "coord_meta s' = coord_meta s" and "coord_resp s' = coord_resp s"
  using assms by (auto simp: GetCohortStub_def Let_def coord_meta_def coord_resp_def split: option.splits)

subsection \<open>Sending the prepare requests\<close>

text \<open>The request the \<open>i\<close>-th of \<open>n\<close> cohorts gets.\<close>

definition prepare_for :: "string \<Rightarrow> transaction_config \<Rightarrow> nat \<Rightarrow> nat \<Rightarrow> sub_transaction \<Rightarrow> prepare_request" where
  "prepare_for tid config n i sub =
     \<lparr>req_transaction_id = tid, req_transaction = sub_ops sub, req_config = config,
      participant = (if n = 1 then OnlyCohort True else CohortIndex i)\<rparr>"

text \<open>The metadata after cohorts number \<open>i\<close>, \<open>i + 1\<close>, \<open>\<dots>\<close> of \<open>n\<close> were sent their requests.\<close>

definition sent_to ::
  "server_context \<Rightarrow> nat \<Rightarrow> nat \<Rightarrow> sub_transaction list \<Rightarrow> coord_metadata \<Rightarrow> coord_metadata" where
  "sent_to context n i subs m = m\<lparr>
     cohort_namespaces := cohort_namespaces m @ map sub_namespace subs,
     cm_contexts := cm_contexts m @ replicate (length subs) (FromServerContext context),
     possibly_sent_to_all_cohorts :=
       (possibly_sent_to_all_cohorts m \<or> (i \<le> n - 1 \<and> n - 1 < i + length subs))\<rparr>"

lemma sent_to_Nil [simp]: "sent_to context n i [] m = m"
  by (cases m) (auto simp: sent_to_def)

lemma sent_to_one:
  "sent_to context n i [sub] m = m\<lparr>
     cohort_namespaces := cohort_namespaces m @ [sub_namespace sub],
     possibly_sent_to_all_cohorts := (possibly_sent_to_all_cohorts m \<or> i = n - 1),
     cm_contexts := cm_contexts m @ [FromServerContext context]\<rparr>"
  by (cases m) (auto simp: sent_to_def)

lemma sent_to_Cons:
  "sent_to context n (Suc i) subs (sent_to context n i [sub] m) = sent_to context n i (sub # subs) m"
  by (cases m) (auto simp: sent_to_def)

lemma PrepareCohort_frame:
  assumes "PrepareCohortTransaction E tid ns request context s w = Some (s', w')"
  shows "metadata_by_transaction s' = (metadata_by_transaction s)(tid \<mapsto>
      (coord_meta s tid)\<lparr>cm_contexts := cm_contexts (coord_meta s tid) @ [FromServerContext context]\<rparr>)
    \<and> response_by_transaction s' = response_by_transaction s \<and> (stubs_ok E s \<longrightarrow> stubs_ok E s')"
proof -
  let ?s1 = "upd_meta tid (\<lambda>m. m\<lparr>cm_contexts := cm_contexts m @ [FromServerContext context]\<rparr>) s"
  obtain stub s2 where get: "GetCohortStub E ns ?s1 = (stub, s2)" by fastforce
  with assms have "s' = s2" by (auto simp: PrepareCohortTransaction_def Let_def elim!: bind_elims)
  then show ?thesis
    using GetCohortStub_frame [OF get] GetCohortStub_ok(2) [OF _ get] by auto
qed

text \<open>One iteration of the loop, as a change of the metadata and one call.\<close>

lemma prepare_cohorts_Cons:
  "prepare_cohorts E tid context n (sub # subs) i request s w =
     (let request = (if n \<noteq> 1 then request\<lparr>participant := CohortIndex i\<rparr> else request)\<lparr>req_transaction := sub_ops sub\<rparr>;
          s = upd_meta tid (\<lambda>m. m\<lparr>cohort_namespaces := cohort_namespaces m @ [sub_namespace sub],
                possibly_sent_to_all_cohorts := (possibly_sent_to_all_cohorts m \<or> i = n - 1)\<rparr>) s
      in do {
        (s, w) \<leftarrow> PrepareCohortTransaction E tid (sub_namespace sub) request context s w;
        prepare_cohorts E tid context n subs (Suc i) request s w
      })"
  by (simp add: Let_def upd_meta_def coord_meta_def)

declare prepare_cohorts.simps(2) [simp del]

lemma prepare_cohorts_frame:
  assumes "prepare_cohorts E tid context n subs i request s w = Some (s', w')" and "subs \<noteq> []"
  shows "metadata_by_transaction s' =
      (metadata_by_transaction s)(tid \<mapsto> sent_to context n i subs (coord_meta s tid))
    \<and> response_by_transaction s' = response_by_transaction s \<and> (stubs_ok E s \<longrightarrow> stubs_ok E s')"
  using assms
proof (induction subs arbitrary: i request s w)
  case Nil
  then show ?case by simp
next
  case (Cons sub subs)
  define s1 where s1: "s1 = upd_meta tid (\<lambda>m. m\<lparr>cohort_namespaces := cohort_namespaces m @ [sub_namespace sub],
                possibly_sent_to_all_cohorts := (possibly_sent_to_all_cohorts m \<or> i = n - 1)\<rparr>) s"
  let ?request = "(if n \<noteq> 1 then request\<lparr>participant := CohortIndex i\<rparr> else request)\<lparr>req_transaction := sub_ops sub\<rparr>"
  from Cons.prems(1) obtain s2 w2 where
    prep: "PrepareCohortTransaction E tid (sub_namespace sub) ?request context s1 w = Some (s2, w2)"
    and rest: "prepare_cohorts E tid context n subs (Suc i) ?request s2 w2 = Some (s', w')"
    unfolding prepare_cohorts_Cons Let_def s1 [symmetric] by (rule bind_pair_returns)
  have one: "metadata_by_transaction s2 =
      (metadata_by_transaction s)(tid \<mapsto> sent_to context n i [sub] (coord_meta s tid))"
    "response_by_transaction s2 = response_by_transaction s" "stubs_ok E s \<longrightarrow> stubs_ok E s2"
    using PrepareCohort_frame [OF prep] by (auto simp: s1 sent_to_one)
  show ?case
  proof (cases "subs = []")
    case True
    with rest one show ?thesis by simp
  next
    case False
    moreover have "coord_meta s2 tid = sent_to context n i [sub] (coord_meta s tid)"
      using one(1) by (simp add: coord_meta_def)
    ultimately show ?thesis using Cons.IH [OF rest] one by (auto simp: sent_to_Cons)
  qed
qed

lemma SendCohortPrepareRequests_frame:
  assumes "SendCohortPrepareRequests E tid subs context s w = Some (s', w')" and "subs \<noteq> []"
  shows "metadata_by_transaction s' = (metadata_by_transaction s)(tid \<mapsto>
      sent_to context (length subs) 0 subs ((coord_meta s tid)\<lparr>single_cohort_namespace :=
        (if length subs = 1 then Some (sub_namespace (hd subs)) else single_cohort_namespace (coord_meta s tid))\<rparr>))
    \<and> response_by_transaction s' = response_by_transaction s \<and> (stubs_ok E s \<longrightarrow> stubs_ok E s')"
  using assms prepare_cohorts_frame [OF _ assms(2)]
  by (cases "length subs = 1")
     (fastforce simp: SendCohortPrepareRequests_def Let_def hd_conv_nth)+

subsection \<open>The ways to return\<close>

text \<open>The server once the configuration of the transaction is decided.\<close>

definition configured :: "string \<Rightarrow> transaction_config \<Rightarrow> 'stub coord_server \<Rightarrow> 'stub coord_server" where
  "configured tid config s = upd_meta tid (\<lambda>m. m\<lparr>cm_config := config\<rparr>) (upd_meta tid (\<lambda>m. m) s)"

abbreviation subs_of :: "('c, 'stub, 'w) coord_env \<Rightarrow> commit_request \<Rightarrow> sub_transaction list" where
  "subs_of E req \<equiv> SplitClientTransaction (iter_subs E) (creq_transaction req) SortCohortRequests"

lemma Commit_cases [consumes 1, case_names no_id already late nothing not_started sent]:
  assumes ret: "CommitAtomicTransaction E context req s w = Some (st, resp, s', w')"
  obtains e where "GetTransactionId (sha E) (client_transaction_id req) (peer context) = Inl e"
      "st = FromAbslStatus e ''Failed to create transaction id''" "s' = s" "w' = w"
  | tid where "GetTransactionId (sha E) (client_transaction_id req) (peer context) = Inr tid"
      "possibly_sent_to_all_cohorts (coord_meta s tid)" "s' = upd_meta tid (\<lambda>m. m) s" "w' = w"
      "st = grpc_OK" "resp = \<lparr>global_transaction_id = tid, cresp_config = cm_config (coord_meta s tid)\<rparr>"
  | tid e where "GetTransactionId (sha E) (client_transaction_id req) (peer context) = Inr tid"
      "\<not> possibly_sent_to_all_cohorts (coord_meta s tid)"
      "ComputeFinalConfig (creq_config req) (coord_clock E w) (default_presumed_abort_duration E) = Inl e"
      "s' = upd_meta tid (\<lambda>m. m) s" "w' = w" "st = FromAbslStatus e ''Failed to compute config: ''"
  | tid config where "GetTransactionId (sha E) (client_transaction_id req) (peer context) = Inr tid"
      "\<not> possibly_sent_to_all_cohorts (coord_meta s tid)"
      "ComputeFinalConfig (creq_config req) (coord_clock E w) (default_presumed_abort_duration E) = Inr config"
      "subs_of E req = []" "s' = configured tid config s" "w' = w" "st = grpc_OK"
      "resp = \<lparr>global_transaction_id = tid, cresp_config = config\<rparr>"
  | tid config e where "GetTransactionId (sha E) (client_transaction_id req) (peer context) = Inr tid"
      "\<not> possibly_sent_to_all_cohorts (coord_meta s tid)"
      "ComputeFinalConfig (creq_config req) (coord_clock E w) (default_presumed_abort_duration E) = Inr config"
      "RequiresBlockchain (subs_of E req)"
      "coord_StartVoting E tid (config_time config) (length (subs_of E req)) w = Some (e, w')" "\<not> absl_ok e"
      "s' = configured tid config s" "st = FromAbslStatus e ''Failed to start voting in blockchain''"
      "resp = \<lparr>global_transaction_id = tid, cresp_config = config\<rparr>"
  | tid config e w1 where "GetTransactionId (sha E) (client_transaction_id req) (peer context) = Inr tid"
      "\<not> possibly_sent_to_all_cohorts (coord_meta s tid)"
      "ComputeFinalConfig (creq_config req) (coord_clock E w) (default_presumed_abort_duration E) = Inr config"
      "subs_of E req \<noteq> []"
      "if RequiresBlockchain (subs_of E req)
       then coord_StartVoting E tid (config_time config) (length (subs_of E req)) w = Some (e, w1)
       else e = OkStatus \<and> w1 = w" "absl_ok e"
      "SendCohortPrepareRequests E tid (subs_of E req) context (configured tid config s) w1 = Some (s', w')"
      "st = grpc_OK" "resp = \<lparr>global_transaction_id = tid, cresp_config = config\<rparr>"
proof (cases "GetTransactionId (sha E) (client_transaction_id req) (peer context)")
  case (Inl e)
  with ret that(1) show thesis by (simp add: CommitAtomicTransaction_def)
next
  case (Inr tid)
  note id = this
  show thesis
  proof (cases "possibly_sent_to_all_cohorts (coord_meta s tid)")
    case True
    with ret id that(2) show thesis by (simp add: CommitAtomicTransaction_def Let_def)
  next
    case False
    note unsent = this
    show thesis
    proof (cases "ComputeFinalConfig (creq_config req) (coord_clock E w) (default_presumed_abort_duration E)")
      case (Inl e)
      show thesis
        by (rule that(3) [OF id unsent Inl])
           (use ret id unsent Inl in \<open>simp_all add: CommitAtomicTransaction_def Let_def\<close>)
    next
      case (Inr config)
      show thesis
      proof (cases "subs_of E req = []")
        case True
        show thesis
          by (rule that(4) [OF id unsent Inr True])
             (use ret id unsent Inr True in \<open>simp_all add: CommitAtomicTransaction_def Let_def configured_def\<close>)
      next
        case False
        let ?start = "if RequiresBlockchain (subs_of E req)
             then coord_StartVoting E tid (config_time config) (length (subs_of E req)) w
             else Some (OkStatus, w)"
        let ?rest = "\<lambda>e w1. if \<not> absl_ok e
             then Some (FromAbslStatus e ''Failed to start voting in blockchain'',
               \<lparr>global_transaction_id = tid, cresp_config = config\<rparr>, configured tid config s, w1)
             else do {
               (s, w) \<leftarrow> SendCohortPrepareRequests E tid (subs_of E req) context (configured tid config s) w1;
               Some (grpc_OK, \<lparr>global_transaction_id = tid, cresp_config = config\<rparr>, s, w)
             }"
        have "CommitAtomicTransaction E context req s w = Option.bind ?start (\<lambda>(e, w1). ?rest e w1)"
          using id unsent Inr False
          by (cases "RequiresBlockchain (subs_of E req)";
              cases "coord_StartVoting E tid (config_time config) (length (subs_of E req)) w")
             (simp_all add: CommitAtomicTransaction_def Let_def configured_def split: prod.splits)
        then have "Option.bind ?start (\<lambda>(e, w1). ?rest e w1) = Some (st, resp, s', w')"
          using ret by (rule trans [OF sym])
        then obtain e w1 where start: "?start = Some (e, w1)" and rest: "?rest e w1 = Some (st, resp, s', w')"
          by (rule bind_pair_returns)
        show thesis
        proof (cases "absl_ok e")
          case True
          from start have start': "if RequiresBlockchain (subs_of E req)
             then coord_StartVoting E tid (config_time config) (length (subs_of E req)) w = Some (e, w1)
             else e = OkStatus \<and> w1 = w" by (auto split: if_splits)
          show thesis
            by (rule that(6) [OF id unsent Inr False start' True])
               (use rest True in \<open>auto elim!: bind_elims\<close>)
        next
          case notok: False
          with start have "RequiresBlockchain (subs_of E req)" by (auto split: if_splits)
          then show thesis
            by (rule that(5) [OF id unsent Inr]) (use notok rest start \<open>RequiresBlockchain _\<close> in auto)
        qed
      qed
    qed
  qed
qed

subsection \<open>Termination\<close>

text \<open>The handler returns whenever the calls that it makes return.\<close>

definition commit_calls_return :: "('c, 'stub, 'w) coord_env \<Rightarrow> bool" where
  "commit_calls_return E \<longleftrightarrow>
     (\<forall>req w. stub_StartVoting (coord_blockchain E) req w \<noteq> None) \<and>
     (\<forall>stub ctx req w. stub_Prepare E stub ctx req w \<noteq> None)"

lemma PrepareCohort_returns:
  assumes "commit_calls_return E"
  shows "PrepareCohortTransaction E tid ns request context s w \<noteq> None"
  unfolding PrepareCohortTransaction_def Let_def
  by (cases "GetCohortStub E ns (upd_meta tid (\<lambda>m. m\<lparr>cm_contexts := cm_contexts m @ [FromServerContext context]\<rparr>) s)",
      simp only: prod.case, rule bind_pair_total) (use assms in \<open>simp_all add: commit_calls_return_def\<close>)

lemma prepare_cohorts_returns:
  assumes "commit_calls_return E"
  shows "prepare_cohorts E tid context n subs i request s w \<noteq> None"
proof (induction subs arbitrary: i request s w)
  case (Cons sub subs)
  show ?case
    unfolding prepare_cohorts_Cons Let_def
    by (rule bind_pair_total [OF PrepareCohort_returns [OF assms] Cons.IH])
qed simp

lemma StartVoting_returns:
  assumes "commit_calls_return E"
  shows "coord_StartVoting E tid ts n w \<noteq> None"
  unfolding coord_StartVoting_def bc_StartVoting_def Let_def
  by (rule bind_pair_total) (use assms in \<open>simp_all add: commit_calls_return_def\<close>)

lemma Commit_returns:
  assumes "commit_calls_return E"
  shows "CommitAtomicTransaction E context req s w \<noteq> None"
proof -
  have send: "SendCohortPrepareRequests E tid subs context s w \<noteq> None" for tid subs s w
    using prepare_cohorts_returns [OF assms] by (simp add: SendCohortPrepareRequests_def Let_def)
  have start: "(if RequiresBlockchain subs then coord_StartVoting E tid ts n w else Some (OkStatus, w)) \<noteq> None"
    for subs tid ts n
    using StartVoting_returns [OF assms] by simp
  have sum: "(case x of Inl a \<Rightarrow> f a | Inr b \<Rightarrow> g b) \<noteq> None"
    if "\<And>a. f a \<noteq> None" "\<And>b. g b \<noteq> None" for x :: "absl_status + 'x" and f and g :: "'x \<Rightarrow> 'y option"
    using that by (cases x) simp_all
  have ite: "(if b then x else y) \<noteq> None" if "x \<noteq> None" "y \<noteq> None" for b and x y :: "'x option"
    using that by simp
  have some: "Some x \<noteq> None" for x :: 'x by simp
  show ?thesis
    unfolding CommitAtomicTransaction_def Let_def
    by (intro sum ite some bind_pair_total [OF start] bind_pair_total [OF send])
qed

end
