(* ===== verification/Coordinator_Results.thy ===== *)
theory Coordinator_Results
  imports Coordinator_Commit
begin

text \<open>
  \<open>GetTransactionResult\<close> and the invariant of the coordinator: each transaction knows distinct
  cohorts, remembers which of them answered, and has collected the answer of each of those exactly
  once; a response is marked complete exactly when it is a final one.
\<close>

subsection \<open>The invariant\<close>

definition meta_ok :: "coord_metadata \<Rightarrow> bool" where
  "meta_ok m \<longleftrightarrow> distinct (map ns_address (cohort_namespaces m)) \<and>
     length (cm_contexts m) = length (cohort_namespaces m) \<and>
     (possibly_sent_to_all_cohorts m \<longleftrightarrow> cohort_namespaces m \<noteq> []) \<and>
     single_cohort_namespace m =
       (if length (cohort_namespaces m) = 1 then Some (hd (cohort_namespaces m)) else None) \<and>
     distinct (cohorts_already_responded m) \<and>
     set (cohorts_already_responded m) \<subseteq> ns_address ` set (cohort_namespaces m) \<and>
     (cohorts_already_responded m \<noteq> [] \<longrightarrow>
        cm_decision m = VOTING_DECISION_COMMIT \<and> single_cohort_namespace m = None) \<and>
     cm_decision m \<noteq> VOTING_DECISION_ABORT"

fun final_result :: "coord_result \<Rightarrow> bool" where
  "final_result (CoordAborted _) = True"
| "final_result (CoordCommitted c) = complete_flag c"
| "final_result _ = False"

definition resp_ok :: "transaction_response \<Rightarrow> bool" where
  "resp_ok r \<longleftrightarrow> (complete r \<longleftrightarrow> final_result (tr_response r))"

text \<open>The get responses gathered so far.\<close>

definition gathered :: "transaction_response \<Rightarrow> committed_response" where
  "gathered r = all_get_responses (mutable_coord_committed (tr_response r))"

text \<open>
  \<open>answers tid a\<close> is what the cohort at address \<open>a\<close> answers about \<open>tid\<close> once it has committed; a
  cohort keeps its final response, so the answer is always the same.
\<close>

definition stable_answers ::
  "('c, 'stub, 'w) coord_env \<Rightarrow> (string \<Rightarrow> string \<Rightarrow> committed_response) \<Rightarrow> bool" where
  "stable_answers E answers \<longleftrightarrow> (\<forall>a ctx tid w st gs w'.
     stub_Result E (NewStub E a) ctx tid w = Some (st, CohortCommitted gs, w') \<and> grpc_ok st \<longrightarrow>
     gs = answers tid a)"

definition txn_inv :: "(string \<Rightarrow> committed_response) \<Rightarrow> coord_metadata \<Rightarrow> transaction_response \<Rightarrow> bool" where
  "txn_inv ans m r \<longleftrightarrow> meta_ok m \<and> resp_ok r \<and>
     (\<not> complete r \<longrightarrow> gathered r = concat (map ans (cohorts_already_responded m)))"

definition coord_inv ::
  "('c, 'stub, 'w) coord_env \<Rightarrow> (string \<Rightarrow> string \<Rightarrow> committed_response) \<Rightarrow> 'stub coord_server \<Rightarrow> bool" where
  "coord_inv E answers s \<longleftrightarrow> stubs_ok E s \<and>
     (\<forall>tid. txn_inv (answers tid) (coord_meta s tid) (coord_resp s tid))"

lemma txn_inv_fresh: "txn_inv ans fresh_coord_metadata fresh_response"
  by (simp add: txn_inv_def meta_ok_def resp_ok_def gathered_def fresh_coord_metadata_def fresh_response_def)

lemma coord_inv_new: "coord_inv E answers new_coord_server"
  using txn_inv_fresh
  by (simp add: coord_inv_def stubs_ok_def new_coord_server_def coord_resp_def coord_meta_def index_default_def)

lemma coord_invD:
  assumes "coord_inv E answers s"
  shows "stubs_ok E s" and "txn_inv (answers tid) (coord_meta s tid) (coord_resp s tid)"
  using assms by (simp_all add: coord_inv_def)

text \<open>A change of one transaction keeps the invariant when it keeps it for that transaction.\<close>

lemma coord_inv_change:
  assumes "coord_inv E answers s" and "stubs_ok E s'"
    and "\<And>t. t \<noteq> tid \<Longrightarrow> coord_meta s' t = coord_meta s t \<and> coord_resp s' t = coord_resp s t"
    and "txn_inv (answers tid) (coord_meta s' tid) (coord_resp s' tid)"
  shows "coord_inv E answers s'"
  unfolding coord_inv_def using assms by (metis coord_invD(2))

lemma coord_inv_upd_meta:
  assumes "coord_inv E answers s" and "txn_inv (answers tid) (f (coord_meta s tid)) (coord_resp s tid)"
  shows "coord_inv E answers (upd_meta tid f s)"
  by (rule coord_inv_change [OF assms(1), where tid = tid]) (use assms coord_invD(1) [OF assms(1)] in auto)

lemma coord_inv_upd_resp:
  assumes "coord_inv E answers s" and "txn_inv (answers tid) (coord_meta s tid) (f (coord_resp s tid))"
  shows "coord_inv E answers (upd_resp tid f s)"
  by (rule coord_inv_change [OF assms(1), where tid = tid]) (use assms coord_invD(1) [OF assms(1)] in auto)

lemma coord_inv_touch:
  assumes "coord_inv E answers s"
  shows "coord_inv E answers (upd_meta tid (\<lambda>m. m) s)" "coord_inv E answers (upd_resp tid (\<lambda>r. r) s)"
  using assms coord_invD(2) [OF assms] by (simp_all add: coord_inv_upd_meta coord_inv_upd_resp)

lemma upd_resp_upd_resp [simp]: "upd_resp tid f (upd_resp tid g s) = upd_resp tid (\<lambda>r. f (g r)) s"
  by (simp add: upd_resp_def coord_resp_def)

lemma CleanUp_simps [simp]:
  "coord_resp (CleanUpTransactionMetadata tid s) t =
     (if t = tid then (coord_resp s tid)\<lparr>complete := True\<rparr> else coord_resp s t)"
  "metadata_by_transaction (CleanUpTransactionMetadata tid s) = (metadata_by_transaction s)(tid := None)"
  "coord_meta (CleanUpTransactionMetadata tid s) t =
     (if t = tid then fresh_coord_metadata else coord_meta s t)"
  "stubs_ok E (CleanUpTransactionMetadata tid s) = stubs_ok E s"
  by (simp_all add: CleanUpTransactionMetadata_def Let_def coord_resp_def coord_meta_def index_default_def stubs_ok_def)

lemma coord_inv_cleanup:
  assumes "coord_inv E answers s" and "final_result (tr_response (f (coord_resp s tid)))"
  shows "coord_inv E answers (CleanUpTransactionMetadata tid (upd_resp tid f s))"
  using assms txn_inv_fresh [of "answers tid"] coord_invD(1) [OF assms(1)]
  by (intro coord_inv_change [OF assms(1), where tid = tid]) (auto simp: txn_inv_def resp_ok_def)

subsection \<open>The invariant under \<open>CommitAtomicTransaction\<close>\<close>

lemma txn_inv_config [simp]: "txn_inv ans (m\<lparr>cm_config := config\<rparr>) r = txn_inv ans m r"
  by (simp add: txn_inv_def meta_ok_def)

lemma txn_inv_sent:
  assumes "txn_inv ans m r" and "\<not> possibly_sent_to_all_cohorts m" and "subs \<noteq> []"
    and "distinct (map sub_address subs)"
  shows "txn_inv ans (sent_to context (length subs) 0 subs (m\<lparr>single_cohort_namespace :=
    (if length subs = 1 then Some (sub_namespace (hd subs)) else single_cohort_namespace m)\<rparr>)) r"
proof -
  have m: "cohort_namespaces m = []" "cm_contexts m = []" "single_cohort_namespace m = None"
    "cohorts_already_responded m = []"
    using assms(1,2) by (auto simp: txn_inv_def meta_ok_def)
  have "sub_address = (\<lambda>x. ns_address (sub_namespace x))" by (rule ext) (rule sub_address_def)
  then have "distinct (map (\<lambda>x. ns_address (sub_namespace x)) subs)" using assms(4) by simp
  with assms(1-3) m show ?thesis
    by (simp add: txn_inv_def meta_ok_def sent_to_def comp_def hd_map)
qed

lemma coord_inv_configured:
  "coord_inv E answers s \<Longrightarrow> coord_inv E answers (configured tid config s)"
  unfolding configured_def
  by (rule coord_inv_upd_meta) (simp_all add: coord_inv_touch coord_invD(2))

lemma coord_inv_Send:
  assumes "coord_inv E answers s" and "\<not> possibly_sent_to_all_cohorts (coord_meta s tid)"
    and "subs \<noteq> []" and "distinct (map sub_address subs)"
    and "SendCohortPrepareRequests E tid subs context s w = Some (s', w')"
  shows "coord_inv E answers s'"
  using SendCohortPrepareRequests_frame [OF assms(5,3)] coord_invD [OF assms(1)]
    txn_inv_sent [OF coord_invD(2) [OF assms(1)] assms(2-4)]
  by (intro coord_inv_change [OF assms(1), where tid = tid])
     (auto simp: coord_meta_def coord_resp_def index_default_def)

lemma coord_inv_Commit:
  assumes inv: "coord_inv E answers s" and iter: "perm_order (iter_subs E)"
    and ret: "CommitAtomicTransaction E context req s w = Some (st, resp, s', w')"
  shows "coord_inv E answers s'"
  using ret
proof (cases rule: Commit_cases)
  case (sent tid config e w1)
  have "distinct (map sub_address (subs_of E req))"
    using SplitClientTransaction_splits [OF iter] by (simp add: splits_into_def)
  moreover have "\<not> possibly_sent_to_all_cohorts (coord_meta (configured tid config s) tid)"
    using sent(2) by (simp add: configured_def)
  ultimately show ?thesis using coord_inv_Send [OF coord_inv_configured [OF inv]] sent by blast
qed (use inv in \<open>simp_all add: coord_inv_touch coord_inv_configured\<close>)

subsection \<open>Collecting the answers of the cohorts\<close>

text \<open>The stored response after the answers of the cohorts at \<open>new\<close> were added.\<close>

definition with_answers ::
  "(string \<Rightarrow> committed_response) \<Rightarrow> string list \<Rightarrow> transaction_response \<Rightarrow> transaction_response" where
  "with_answers ans new r = fold (\<lambda>a. add_responses (ans a)) new r"

lemma with_answers_simps [simp]:
  "with_answers ans [] r = r"
  "with_answers ans (a # new) r = with_answers ans new (add_responses (ans a) r)"
  by (simp_all add: with_answers_def)

lemma add_responses_simps [simp]:
  "complete (add_responses gs r) = complete r"
  "gathered (add_responses gs r) = gathered r @ gs"
  by (simp_all add: add_responses_def gathered_def Let_def)

lemma final_add_responses: "final_result (tr_response (add_responses gs r)) \<Longrightarrow> final_result (tr_response r)"
  by (cases "tr_response r") (simp_all add: add_responses_def Let_def)

lemma with_answers_gathered:
  "complete (with_answers ans new r) = complete r \<and> gathered (with_answers ans new r) = gathered r @ concat (map ans new)"
  by (induction new arbitrary: r) simp_all

lemma with_answers_final:
  "final_result (tr_response (with_answers ans new r)) \<Longrightarrow> final_result (tr_response r)"
  by (induction new arbitrary: r) (auto dest: final_add_responses)

lemma GetResultsFromCohort_ret:
  assumes "GetResultsFromCohort E ns tid ctx s w = Some (st, cr, s1, w1)" and "stubs_ok E s"
  shows "stub_Result E (NewStub E (ns_address ns)) ctx tid w = Some (st, cr, w1)"
    and "stubs_ok E s1" and "coord_meta s1 = coord_meta s" and "coord_resp s1 = coord_resp s"
    and "metadata_by_transaction s1 = metadata_by_transaction s"
    and "response_by_transaction s1 = response_by_transaction s"
proof -
  obtain stub s2 where get: "GetCohortStub E ns s = (stub, s2)" by fastforce
  with assms(1) have "stub_Result E stub ctx tid w = Some (st, cr, w1)" and "s1 = s2"
    by (auto simp: GetResultsFromCohort_def elim!: bind_elims)
  then show "stub_Result E (NewStub E (ns_address ns)) ctx tid w = Some (st, cr, w1)"
    and "stubs_ok E s1" and "coord_meta s1 = coord_meta s" and "coord_resp s1 = coord_resp s"
    and "metadata_by_transaction s1 = metadata_by_transaction s"
    and "response_by_transaction s1 = response_by_transaction s"
    using GetCohortStub_ok [OF assms(2) get] GetCohortStub_frame [OF get] by simp_all
qed

text \<open>
  What the loop does: \<open>new\<close> are the addresses of the cohorts that answered in this call; none of
  them had answered before.
\<close>

definition collected ::
  "(string \<Rightarrow> committed_response) \<Rightarrow> string \<Rightarrow> string list \<Rightarrow> 'stub coord_server \<Rightarrow> 'stub coord_server \<Rightarrow> bool" where
  "collected ans tid new s s' \<longleftrightarrow>
     coord_meta s' tid = (coord_meta s tid)\<lparr>cohorts_already_responded := cohorts_already_responded (coord_meta s tid) @ new\<rparr> \<and>
     coord_resp s' tid = with_answers ans new (coord_resp s tid) \<and>
     (\<forall>t. t \<noteq> tid \<longrightarrow> coord_meta s' t = coord_meta s t \<and> coord_resp s' t = coord_resp s t)"

definition responded_among :: "string list \<Rightarrow> name_space list \<Rightarrow> nat" where
  "responded_among as nss = length (filter (\<lambda>ns. ns_address ns \<in> set as) nss)"

lemma responded_among_Cons [simp]:
  "responded_among as (ns # nss) = (if ns_address ns \<in> set as then 1 else 0) + responded_among as nss"
  by (simp add: responded_among_def)

lemma collect_responses_collected:
  assumes "collect_responses E tid context nss n s w = Some (n', s', w')"
    and "stubs_ok E s" and "distinct (map ns_address nss)" and "stable_answers E answers"
  shows "\<exists>new. collected (answers tid) tid new s s' \<and> stubs_ok E s' \<and> distinct new \<and>
    set new \<subseteq> ns_address ` set nss - set (cohorts_already_responded (coord_meta s tid)) \<and>
    n' = n + responded_among (cohorts_already_responded (coord_meta s tid) @ new) nss"
  using assms(1-3)
proof (induction nss arbitrary: n s w)
  case Nil
  then show ?case by (intro exI [of _ "[]"]) (simp add: collected_def responded_among_def)
next
  case (Cons ns nss)
  let ?a = "ns_address ns" and ?old = "cohorts_already_responded (coord_meta s tid)"
  have a: "?a \<notin> ns_address ` set nss" and d: "distinct (map ns_address nss)" using Cons.prems(3) by auto
  show ?case
  proof (cases "?a \<in> set ?old")
    case True
    with Cons.prems(1) have "collect_responses E tid context nss (n + 1) s w = Some (n', s', w')" by simp
    from Cons.IH [OF this Cons.prems(2) d] obtain new where new: "collected (answers tid) tid new s s'"
      "stubs_ok E s'" "distinct new" "set new \<subseteq> ns_address ` set nss - set ?old"
      "n' = n + 1 + responded_among (?old @ new) nss" by blast
    with True show ?thesis by (intro exI [of _ new]) auto
  next
    case False
    with Cons.prems(1) obtain st cr s1 w1 where
      get: "GetResultsFromCohort E ns tid (FromServerContext context) s w = Some (st, cr, s1, w1)"
      by (auto elim!: bind_elims)
    note ret = GetResultsFromCohort_ret [OF get Cons.prems(2)]
    show ?thesis
    proof (cases "grpc_ok st \<and> (\<exists>gs. cr = CohortCommitted gs)")
      case True
      then obtain gs where cr: "cr = CohortCommitted gs" and "grpc_ok st" by blast
      then have gs: "gs = answers tid ?a" using ret(1) assms(4) unfolding stable_answers_def by blast
      let ?s2 = "upd_meta tid (\<lambda>m. m\<lparr>cohorts_already_responded := hs_emplace ?a (cohorts_already_responded m)\<rparr>)
                 (upd_resp tid (add_responses gs) s1)"
      have "collect_responses E tid context nss (n + 1) ?s2 w1 = Some (n', s', w')"
        using Cons.prems(1) False get cr \<open>grpc_ok st\<close> by simp
      from Cons.IH [OF this _ d] obtain new where new: "collected (answers tid) tid new ?s2 s'"
        "stubs_ok E s'" "distinct new" "set new \<subseteq> ns_address ` set nss - set (?old @ [?a])"
        "n' = n + 1 + responded_among ((?old @ [?a]) @ new) nss"
        using ret False by (auto simp: hs_emplace_def)
      then have "collected (answers tid) tid (?a # new) s s'"
        using ret False by (simp add: collected_def gs hs_emplace_def)
      with new a False show ?thesis by (intro exI [of _ "?a # new"]) auto
    next
      case miss: False
      have "collect_responses E tid context nss n s1 w1 = Some (n', s', w')"
        using Cons.prems(1) False get miss by (cases cr) auto
      from Cons.IH [OF this ret(2) d] obtain new where new: "collected (answers tid) tid new s1 s'"
        "stubs_ok E s'" "distinct new" "set new \<subseteq> ns_address ` set nss - set ?old"
        "n' = n + responded_among (?old @ new) nss" using ret by auto
      moreover have "?a \<notin> set (?old @ new)" using False new(4) a by auto
      ultimately show ?thesis using ret by (intro exI [of _ new]) (auto simp: collected_def)
    qed
  qed
qed

lemma responded_among_all:
  "responded_among as nss = length nss \<longleftrightarrow> ns_address ` set nss \<subseteq> set as"
  by (auto simp: responded_among_def filter_all_length)

lemma set_complete_simps [simp]:
  "complete (set_complete r) = complete r" "gathered (set_complete r) = gathered r"
  "final_result (tr_response (set_complete r))"
  by (simp_all add: set_complete_def gathered_def)

text \<open>
  The committed case. Either every cohort has answered and the stored response is complete, with
  each cohort's answer exactly once, or it is partial and says so.
\<close>

lemma UpdateCommitted_result:
  assumes ret: "UpdateCommittedResponseFromCohorts E tid context s w = Some (s', w')"
    and inv: "coord_inv E answers s" and stable: "stable_answers E answers"
    and open_txn: "\<not> complete (coord_resp s tid)"
    and dec: "cm_decision (coord_meta s tid) = VOTING_DECISION_COMMIT"
    and many: "single_cohort_namespace (coord_meta s tid) = None"
  shows "coord_inv E answers s'"
    and "complete (coord_resp s' tid) \<Longrightarrow> \<exists>c. tr_response (coord_resp s' tid) = CoordCommitted c \<and> complete_flag c \<and>
      mset (all_get_responses c) = (\<Sum>ns \<leftarrow> cohort_namespaces (coord_meta s tid). mset (answers tid (ns_address ns)))"
proof -
  let ?s0 = "upd_resp tid (\<lambda>r. r) s" and ?nss = "cohort_namespaces (coord_meta s tid)"
  let ?old = "cohorts_already_responded (coord_meta s tid)"
  have txn: "txn_inv (answers tid) (coord_meta s tid) (coord_resp s tid)" by (rule coord_invD(2) [OF inv])
  from ret obtain n s1 where
    coll: "collect_responses E tid context ?nss 0 ?s0 w = Some (n, s1, w')"
    and s': "s' = (if n = length (cohort_namespaces (coord_meta s1 tid))
      then CleanUpTransactionMetadata tid (upd_resp tid set_complete s1) else s1)"
    by (auto simp: UpdateCommittedResponseFromCohorts_def Let_def elim!: bind_elims)
  have "stubs_ok E ?s0" and "distinct (map ns_address ?nss)"
    using coord_invD(1) [OF inv] txn by (auto simp: txn_inv_def meta_ok_def)
  from collect_responses_collected [OF coll this stable] obtain new where
    new: "collected (answers tid) tid new ?s0 s1" "stubs_ok E s1" "distinct new"
      "set new \<subseteq> ns_address ` set ?nss - set ?old" "n = responded_among (?old @ new) ?nss" by auto
  from new(1) have meta: "coord_meta s1 tid = (coord_meta s tid)\<lparr>cohorts_already_responded := ?old @ new\<rparr>"
    and resp: "coord_resp s1 tid = with_answers (answers tid) new (coord_resp s tid)"
    and frame: "\<And>t. t \<noteq> tid \<Longrightarrow> coord_meta s1 t = coord_meta s t \<and> coord_resp s1 t = coord_resp s t"
    by (auto simp: collected_def)
  have got: "gathered (coord_resp s1 tid) = concat (map (answers tid) (?old @ new))"
    using txn open_txn by (simp add: resp with_answers_gathered txn_inv_def)
  have "meta_ok (coord_meta s1 tid)"
    using txn new(3,4) dec many by (auto simp: meta txn_inv_def meta_ok_def)
  moreover have "resp_ok (coord_resp s1 tid)"
    using txn open_txn with_answers_final [of "answers tid" new "coord_resp s tid"]
    by (auto simp: resp with_answers_gathered txn_inv_def resp_ok_def)
  ultimately have inv1: "coord_inv E answers s1"
    using got new(2) frame by (intro coord_inv_change [OF inv, where tid = tid]) (simp_all add: txn_inv_def meta)
  show "coord_inv E answers s'"
  proof (cases "n = length ?nss")
    case True
    with s' meta coord_inv_cleanup [OF inv1, of set_complete tid] show ?thesis by simp
  next
    case False
    with inv1 s' meta show ?thesis by simp
  qed
  assume "complete (coord_resp s' tid)"
  with open_txn resp with_answers_gathered s' meta have n: "n = length ?nss"
    and r': "coord_resp s' tid = (set_complete (coord_resp s1 tid))\<lparr>complete := True\<rparr>"
    by (auto split: if_splits)
  from n new(4,5) txn have "set (?old @ new) = set (map ns_address ?nss)"
    by (auto simp: responded_among_all txn_inv_def meta_ok_def)
  moreover have "distinct (?old @ new)" "distinct (map ns_address ?nss)"
    using txn new(3,4) by (auto simp: txn_inv_def meta_ok_def)
  ultimately have "mset (?old @ new) = mset (map ns_address ?nss)" by (metis set_eq_iff_mset_eq_distinct)
  moreover have "mset (gathered (coord_resp s1 tid)) = (\<Sum>a \<in># mset (?old @ new). mset (answers tid a))"
    unfolding got mset_concat by (simp add: sum_mset_sum_list [symmetric] image_mset.compositionality comp_def)
  ultimately have "mset (gathered (coord_resp s1 tid)) = (\<Sum>a \<in># mset (map ns_address ?nss). mset (answers tid a))"
    by simp
  then have "mset (gathered (coord_resp s1 tid)) = (\<Sum>ns \<leftarrow> ?nss. mset (answers tid (ns_address ns)))"
    by (simp add: sum_mset_sum_list [symmetric] image_mset.compositionality comp_def)
  then show "\<exists>c. tr_response (coord_resp s' tid) = CoordCommitted c \<and> complete_flag c \<and>
      mset (all_get_responses c) = (\<Sum>ns \<leftarrow> ?nss. mset (answers tid (ns_address ns)))"
    unfolding r' by (simp add: set_complete_def gathered_def)
qed

lemma UpdateCommitted_complete_cleans:
  assumes ret: "UpdateCommittedResponseFromCohorts E tid context s w = Some (s', w')"
    and inv: "coord_inv E answers s" and stable: "stable_answers E answers"
    and open_txn: "\<not> complete (coord_resp s tid)" and "complete (coord_resp s' tid)"
  shows "metadata_by_transaction s' tid = None"
proof -
  from ret obtain n s1 where
    coll: "collect_responses E tid context (cohort_namespaces (coord_meta s tid)) 0 (upd_resp tid (\<lambda>r. r) s) w = Some (n, s1, w')"
    and s': "s' = s1 \<or> metadata_by_transaction s' tid = None"
    by (auto simp: UpdateCommittedResponseFromCohorts_def Let_def elim!: bind_elims)
  have "stubs_ok E (upd_resp tid (\<lambda>r. r) s)" "distinct (map ns_address (cohort_namespaces (coord_meta s tid)))"
    using coord_invD(1) [OF inv] coord_invD(2) [OF inv, of tid] by (auto simp: txn_inv_def meta_ok_def)
  from collect_responses_collected [OF coll this stable] obtain new where
    "collected (answers tid) tid new (upd_resp tid (\<lambda>r. r) s) s1" by blast
  then have "\<not> complete (coord_resp s1 tid)" using open_txn by (simp add: collected_def with_answers_gathered)
  with s' assms(5) show ?thesis by auto
qed

subsection \<open>A transaction with one cohort\<close>

lemma single_response_simps [simp]:
  "final_result (tr_response (add_abort ns reason r))"
  "complete (add_abort ns reason r) = complete r"
  "final_result (tr_response (set_complete (add_responses gs r)))"
  by (simp_all add: add_abort_def Let_def)

text \<open>The response after one answer of the cohort, and whether that ended the transaction.\<close>

fun single_update :: "name_space \<Rightarrow> cohort_result \<Rightarrow> transaction_response \<Rightarrow> transaction_response" where
  "single_update ns (CohortAborted reason) r = (add_abort ns reason r)\<lparr>complete := True\<rparr>"
| "single_update ns (CohortCommitted gs) r = (set_complete (add_responses gs r))\<lparr>complete := True\<rparr>"
| "single_update ns _ r = r\<lparr>tr_response := CoordPending\<rparr>"

text \<open>The status and the server after the call to the cohort returned.\<close>

definition single_outcome ::
  "string \<Rightarrow> name_space \<Rightarrow> grpc_status \<Rightarrow> cohort_result \<Rightarrow> 'stub coord_server \<Rightarrow> grpc_status \<times> 'stub coord_server" where
  "single_outcome tid ns status cr s =
     (if \<not> grpc_ok status
      then (\<lparr>error_code = error_code status,
             error_message = ''Failed to get cohort results: '' @ error_message status\<rparr>, s)
      else (grpc_OK, case cr of
        CohortAborted reason \<Rightarrow> CleanUpTransactionMetadata tid (upd_resp tid (add_abort ns reason) s)
      | CohortCommitted gs \<Rightarrow> CleanUpTransactionMetadata tid
          (upd_resp tid set_complete (upd_resp tid (add_responses gs) s))
      | _ \<Rightarrow> upd_resp tid (\<lambda>r. r\<lparr>tr_response := CoordPending\<rparr>) s))"

lemma UpdateSingle_call:
  assumes "UpdateResponseForSingleCohortTransaction E tid context s w = Some (st, s', w')"
    and "single_cohort_namespace (coord_meta s tid) = Some ns"
  obtains status cr s1 where
    "GetResultsFromCohort E ns tid (FromServerContext context) (upd_resp tid (\<lambda>r. r) s) w = Some (status, cr, s1, w')"
    "(st, s') = single_outcome tid ns status cr s1"
  using assms
  by (auto simp: UpdateResponseForSingleCohortTransaction_def single_outcome_def Let_def elim!: bind_elims
      split: cohort_result.splits if_splits)

lemma UpdateSingle_result:
  assumes ret: "UpdateResponseForSingleCohortTransaction E tid context s w = Some (st, s', w')"
    and inv: "coord_inv E answers s" and open_txn: "\<not> complete (coord_resp s tid)"
    and single: "single_cohort_namespace (coord_meta s tid) = Some ns"
  shows "\<exists>st0 cr. stub_Result E (NewStub E (ns_address ns)) (FromServerContext context) tid w = Some (st0, cr, w') \<and>
    coord_inv E answers s' \<and>
    (if grpc_ok st0 then st = grpc_OK \<and> coord_resp s' tid = single_update ns cr (coord_resp s tid)
     else error_code st = error_code st0 \<and> coord_resp s' tid = coord_resp s tid)"
proof -
  let ?s0 = "upd_resp tid (\<lambda>r. r) s"
  have inv0: "coord_inv E answers ?s0" by (rule coord_inv_touch(2) [OF inv])
  from UpdateSingle_call [OF ret single] obtain st0 cr s1 where
    get: "GetResultsFromCohort E ns tid (FromServerContext context) ?s0 w = Some (st0, cr, s1, w')"
    and rest: "(st, s') = single_outcome tid ns st0 cr s1" .
  note r = GetResultsFromCohort_ret [OF get coord_invD(1) [OF inv0]]
  have inv1: "coord_inv E answers s1" using inv0 r(2-4) by (simp add: coord_inv_def)
  have none: "cohorts_already_responded (coord_meta s tid) = []"
    using coord_invD(2) [OF inv, of tid] single by (auto simp: txn_inv_def meta_ok_def)
  have pending: "coord_inv E answers (upd_resp tid (\<lambda>r. r\<lparr>tr_response := CoordPending\<rparr>) s1)"
    using coord_invD(2) [OF inv, of tid] open_txn none r(3,4)
    by (intro coord_inv_upd_resp [OF inv1]) (simp add: txn_inv_def resp_ok_def gathered_def)
  have "coord_inv E answers s'"
    using rest inv1 pending coord_inv_cleanup [OF inv1]
    by (cases cr) (simp_all add: single_outcome_def split: if_splits)
  moreover have "if grpc_ok st0 then st = grpc_OK \<and> coord_resp s' tid = single_update ns cr (coord_resp s tid)
     else error_code st = error_code st0 \<and> coord_resp s' tid = coord_resp s tid"
    using rest r(4) by (cases cr) (simp_all add: single_outcome_def split: if_splits)
  ultimately show ?thesis using r(1) by blast
qed

subsection \<open>\<open>GetTransactionResult\<close>\<close>

text \<open>The decision the handler acts on: the stored one when it is definite, a fresh one otherwise.\<close>

definition current_decision ::
  "('c, 'stub, 'w) coord_env \<Rightarrow> string \<Rightarrow> coord_metadata \<Rightarrow> 'w \<Rightarrow> ((absl_status + voting_decision) \<times> 'w) option" where
  "current_decision E tid m w =
     (if \<not> definite (cm_decision m) then bc_GetVotingDecision (coord_blockchain E) tid w
      else Some (Inr (cm_decision m), w))"

lemma Get_answered:
  "complete (coord_resp s tid) \<Longrightarrow> coord_GetTransactionResult E context tid s w =
     Some (grpc_OK, tr_response (coord_resp s tid), upd_resp tid (\<lambda>r. r) s, w)"
  by (simp add: coord_GetTransactionResult_def)

lemma Get_unknown:
  "\<not> complete (coord_resp s tid) \<Longrightarrow> metadata_by_transaction s tid = None \<Longrightarrow>
   coord_GetTransactionResult E context tid s w =
     Some (\<lparr>error_code = kNotFound, error_message = ''Could not find transaction''\<rparr>,
           CoordStatusNotSet, upd_resp tid (\<lambda>r. r) s, w)"
  by (simp add: coord_GetTransactionResult_def)

lemma Get_single:
  "\<not> complete (coord_resp s tid) \<Longrightarrow> metadata_by_transaction s tid = Some m \<Longrightarrow>
   single_cohort_namespace m \<noteq> None \<Longrightarrow>
   coord_GetTransactionResult E context tid s w = do {
     (status, s, w) \<leftarrow> UpdateResponseForSingleCohortTransaction E tid context (upd_resp tid (\<lambda>r. r) s) w;
     Some (status, if grpc_ok status then tr_response (coord_resp s tid) else CoordStatusNotSet, s, w)
   }"
  by (simp add: coord_GetTransactionResult_def coord_meta_present)

lemma Get_many:
  "\<not> complete (coord_resp s tid) \<Longrightarrow> metadata_by_transaction s tid = Some m \<Longrightarrow>
   single_cohort_namespace m = None \<Longrightarrow>
   coord_GetTransactionResult E context tid s w = do {
     (decision_or_status, w) \<leftarrow> current_decision E tid m w;
     (case decision_or_status of
        Inl st \<Rightarrow> Some (FromAbslStatus st ''Failed to get blockchain decision'', CoordStatusNotSet,
                       upd_resp tid (\<lambda>r. r) s, w)
      | Inr decision \<Rightarrow>
          let s = upd_meta tid (\<lambda>m. m\<lparr>cm_decision := decision\<rparr>) (upd_resp tid (\<lambda>r. r) s) in
          if decision = VOTING_DECISION_ABORT
          then Some (grpc_OK, tr_response (coord_resp (UpdateAbortedResponseFromCohorts tid s) tid),
                     UpdateAbortedResponseFromCohorts tid s, w)
          else if decision = VOTING_DECISION_COMMIT
          then do {
            (s, w) \<leftarrow> UpdateCommittedResponseFromCohorts E tid context s w;
            Some (grpc_OK, tr_response (coord_resp s tid), s, w)
          }
          else Some (grpc_OK, CoordPending, s, w))
   }"
proof -
  assume "\<not> complete (coord_resp s tid)" "metadata_by_transaction s tid = Some m" "single_cohort_namespace m = None"
  then show ?thesis
    by (cases "definite (cm_decision m)"; cases "bc_GetVotingDecision (coord_blockchain E) tid w"; cases "cm_decision m")
       (auto simp: coord_GetTransactionResult_def current_decision_def coord_GetVotingDecision_def
        coord_meta_present Let_def split: sum.split voting_decision.split)
qed

lemma UpdateAborted_result:
  assumes "coord_inv E answers s"
  shows "coord_inv E answers (UpdateAbortedResponseFromCohorts tid s)"
    and "complete (coord_resp (UpdateAbortedResponseFromCohorts tid s) tid)"
    and "\<exists>a. tr_response (coord_resp (UpdateAbortedResponseFromCohorts tid s) tid) = CoordAborted a"
  using coord_inv_cleanup [OF assms]
  by (simp_all add: UpdateAbortedResponseFromCohorts_def)

text \<open>A transaction that is not complete, with the decision of this call stored.\<close>

lemma coord_inv_decision:
  assumes inv: "coord_inv E answers s" and m: "metadata_by_transaction s tid = Some m"
    and dec: "current_decision E tid m w = Some (Inr d, w')" and "d \<noteq> VOTING_DECISION_ABORT"
  shows "coord_inv E answers (upd_meta tid (\<lambda>m. m\<lparr>cm_decision := d\<rparr>) (upd_resp tid (\<lambda>r. r) s))"
proof -
  have txn: "txn_inv (answers tid) m (coord_resp s tid)"
    using coord_invD(2) [OF inv, of tid] m by (simp add: coord_meta_present)
  moreover have "cohorts_already_responded m = [] \<or> d = VOTING_DECISION_COMMIT"
    using txn dec by (auto simp: txn_inv_def meta_ok_def current_decision_def)
  ultimately show ?thesis
    using assms(4) m
    by (intro coord_inv_upd_meta coord_inv_touch(2) [OF inv])
       (auto simp: txn_inv_def meta_ok_def coord_meta_present)
qed

lemma coord_inv_Get:
  assumes inv: "coord_inv E answers s" and stable: "stable_answers E answers"
    and ret: "coord_GetTransactionResult E context tid s w = Some (st, resp, s', w')"
  shows "coord_inv E answers s'"
proof -
  note inv0 = coord_inv_touch(2) [OF inv, of tid]
  consider (answered) "complete (coord_resp s tid)"
    | (unknown) "\<not> complete (coord_resp s tid)" "metadata_by_transaction s tid = None"
    | (single) m ns where "\<not> complete (coord_resp s tid)" "metadata_by_transaction s tid = Some m"
        "single_cohort_namespace m = Some ns"
    | (many) m where "\<not> complete (coord_resp s tid)" "metadata_by_transaction s tid = Some m"
        "single_cohort_namespace m = None" by (metis option.exhaust)
  then show ?thesis
  proof cases
    case answered
    with ret inv0 show ?thesis by (simp add: Get_answered)
  next
    case unknown
    with ret inv0 show ?thesis by (simp add: Get_unknown)
  next
    case single
    with ret obtain status where
      "UpdateResponseForSingleCohortTransaction E tid context (upd_resp tid (\<lambda>r. r) s) w = Some (status, s', w')"
      by (auto simp: Get_single elim!: bind_elims)
    from UpdateSingle_result [OF this inv0] single show ?thesis by (auto simp: coord_meta_present)
  next
    case many
    let ?s = "\<lambda>d. upd_meta tid (\<lambda>m. m\<lparr>cm_decision := d\<rparr>) (upd_resp tid (\<lambda>r. r) s)"
    from ret obtain d w1 where d: "current_decision E tid m w = Some (d, w1)"
      unfolding Get_many [OF many] by (auto elim!: bind_elims)
    show ?thesis
    proof (cases d)
      case (Inl e)
      with ret d inv0 show ?thesis unfolding Get_many [OF many] by simp
    next
      case (Inr dec)
      consider "dec = VOTING_DECISION_ABORT" | "dec = VOTING_DECISION_COMMIT"
        | "dec \<noteq> VOTING_DECISION_ABORT" "dec \<noteq> VOTING_DECISION_COMMIT" by blast
      then show ?thesis
      proof cases
        case 1
        have "UpdateAbortedResponseFromCohorts tid (?s dec) = UpdateAbortedResponseFromCohorts tid s"
          by (simp add: UpdateAbortedResponseFromCohorts_def CleanUpTransactionMetadata_def Let_def
              upd_resp_def upd_meta_def coord_resp_def coord_meta_def)
        with ret d Inr 1 UpdateAborted_result(1) [OF inv, of tid] show ?thesis
          unfolding Get_many [OF many] by (auto simp: Let_def)
      next
        case 2
        with ret d Inr have "UpdateCommittedResponseFromCohorts E tid context (?s dec) w1 = Some (s', w')"
          unfolding Get_many [OF many] by (auto simp: Let_def elim!: bind_elims)
        moreover have "coord_inv E answers (?s dec)"
          using coord_inv_decision [OF inv many(2)] d Inr 2 by simp
        ultimately show ?thesis
          using UpdateCommitted_result(1) [OF _ _ stable] many 2 by (simp add: coord_meta_present)
      next
        case 3
        have "coord_inv E answers (?s dec)" using coord_inv_decision [OF inv many(2)] d Inr 3 by simp
        with ret d Inr 3 show ?thesis unfolding Get_many [OF many] by (auto simp: Let_def)
      qed
    qed
  qed
qed

end
