(* ===== verification/Coordinator_Trace.thy ===== *)
theory Coordinator_Trace
  imports Coordinator_Results
begin

text \<open>
  The calls that the coordinator makes, in order: \<open>ctraced E\<close> is the environment \<open>E\<close> whose world
  also records them.
\<close>

datatype 'stub coord_event =
    VotingStarted start_voting_request grpc_status
  | PrepareSent 'stub prepare_request
  | DecisionAsked string
  | ResultAsked 'stub string

type_synonym ('stub, 'w) ctraced_world = "'w \<times> 'stub coord_event list"

definition ctraced_stub :: "'w adapter_stub \<Rightarrow> ('stub, 'w) ctraced_world adapter_stub" where
  "ctraced_stub stub = \<lparr>
     stub_StartVoting = (\<lambda>req (w, tr). map_option
        (\<lambda>(st, w). (st, w, tr @ [VotingStarted req st])) (stub_StartVoting stub req w)),
     stub_Vote = (\<lambda>req (w, tr). map_option (\<lambda>(st, w). (st, w, tr)) (stub_Vote stub req w)),
     stub_GetVotingDecision = (\<lambda>req (w, tr). map_option
        (\<lambda>(st, r, w). (st, r, w, tr @ [DecisionAsked (dr_transaction_id req)])) (stub_GetVotingDecision stub req w)),
     stub_GetHeartBeat = (\<lambda>(w, tr). map_option (\<lambda>(st, r, w). (st, r, w, tr)) (stub_GetHeartBeat stub w))\<rparr>"

definition ctraced :: "('c, 'stub, 'w) coord_env \<Rightarrow> ('c, 'stub, ('stub, 'w) ctraced_world) coord_env" where
  "ctraced E = \<lparr>
     sha = sha E, coord_blockchain = ctraced_stub (coord_blockchain E), NewStub = NewStub E,
     stub_Prepare = (\<lambda>stub ctx req (w, tr). map_option
        (\<lambda>(st, w). (st, w, tr @ [PrepareSent stub req])) (stub_Prepare E stub ctx req w)),
     stub_Result = (\<lambda>stub ctx tid (w, tr). map_option
        (\<lambda>(st, r, w). (st, r, w, tr @ [ResultAsked stub tid])) (stub_Result E stub ctx tid w)),
     coord_clock = (\<lambda>(w, tr). coord_clock E w),
     default_presumed_abort_duration = default_presumed_abort_duration E,
     iter_subs = iter_subs E\<rparr>"

lemma ctraced_simps [simp]:
  "sha (ctraced E) = sha E" "coord_blockchain (ctraced E) = ctraced_stub (coord_blockchain E)"
  "NewStub (ctraced E) = NewStub E" "iter_subs (ctraced E) = iter_subs E"
  "coord_clock (ctraced E) (w, tr) = coord_clock E w"
  "default_presumed_abort_duration (ctraced E) = default_presumed_abort_duration E"
  "stub_Prepare (ctraced E) stub ctx req (w, tr) =
     map_option (\<lambda>(st, w). (st, w, tr @ [PrepareSent stub req])) (stub_Prepare E stub ctx req w)"
  "stub_Result (ctraced E) stub ctx tid (w, tr) =
     map_option (\<lambda>(st, r, w). (st, r, w, tr @ [ResultAsked stub tid])) (stub_Result E stub ctx tid w)"
  by (simp_all add: ctraced_def)

lemma stubs_ok_ctraced [simp]: "stubs_ok (ctraced E) s = stubs_ok E s"
  by (simp add: stubs_ok_def)

subsection \<open>Preparing\<close>

definition prepare_events ::
  "('c, 'stub, 'w) coord_env \<Rightarrow> string \<Rightarrow> transaction_config \<Rightarrow> nat \<Rightarrow> nat \<Rightarrow> sub_transaction list \<Rightarrow>
   'stub coord_event list" where
  "prepare_events E tid config n i subs =
     map (\<lambda>(i, sub). PrepareSent (NewStub E (sub_address sub)) (prepare_for tid config n i sub)) (enumerate i subs)"

lemma prepare_events_simps [simp]:
  "prepare_events E tid config n i [] = []"
  "prepare_events E tid config n i (sub # subs) =
     PrepareSent (NewStub E (sub_address sub)) (prepare_for tid config n i sub) #
     prepare_events E tid config n (Suc i) subs"
  by (simp_all add: prepare_events_def)

lemma PrepareCohort_traced:
  assumes "PrepareCohortTransaction (ctraced E) tid ns request context s (w, tr) = Some (s', w', tr')"
    and "stubs_ok E s"
  shows "tr' = tr @ [PrepareSent (NewStub E (ns_address ns)) request] \<and> stubs_ok E s'"
proof -
  let ?s1 = "upd_meta tid (\<lambda>m. m\<lparr>cm_contexts := cm_contexts m @ [FromServerContext context]\<rparr>) s"
  obtain stub s2 where get: "GetCohortStub (ctraced E) ns ?s1 = (stub, s2)" by fastforce
  from GetCohortStub_ok [OF _ get] assms(2) have "stub = NewStub E (ns_address ns)" "stubs_ok E s2" by simp_all
  with assms(1) get show ?thesis by (auto simp: PrepareCohortTransaction_def Let_def elim!: bind_elims)
qed

lemma prepare_cohorts_traced:
  assumes "prepare_cohorts (ctraced E) tid context n subs i request s (w, tr) = Some (s', w', tr')"
    and "stubs_ok E s" and "n = 1 \<Longrightarrow> participant request = OnlyCohort True"
    and "req_transaction_id request = tid" and "req_config request = config"
  shows "tr' = tr @ prepare_events E tid config n i subs"
  using assms
proof (induction subs arbitrary: i request s w tr)
  case Nil
  then show ?case by simp
next
  case (Cons sub subs)
  define s1 where s1: "s1 = upd_meta tid (\<lambda>m. m\<lparr>cohort_namespaces := cohort_namespaces m @ [sub_namespace sub],
                possibly_sent_to_all_cohorts := (possibly_sent_to_all_cohorts m \<or> i = n - 1)\<rparr>) s"
  let ?request = "(if n \<noteq> 1 then request\<lparr>participant := CohortIndex i\<rparr> else request)\<lparr>req_transaction := sub_ops sub\<rparr>"
  have req: "?request = prepare_for tid config n i sub"
    using Cons.prems(3-5) by (cases request) (auto simp: prepare_for_def)
  from Cons.prems(1) obtain s2 w2 where
    prep: "PrepareCohortTransaction (ctraced E) tid (sub_namespace sub) ?request context s1 (w, tr) = Some (s2, w2)"
    and rest: "prepare_cohorts (ctraced E) tid context n subs (Suc i) ?request s2 w2 = Some (s', w', tr')"
    unfolding prepare_cohorts_Cons Let_def s1 [symmetric] by (rule bind_pair_returns)
  obtain w3 tr2 where w2: "w2 = (w3, tr2)" by fastforce
  have "tr2 = tr @ [PrepareSent (NewStub E (sub_address sub)) ?request]" and ok: "stubs_ok E s2"
    using PrepareCohort_traced [OF prep [unfolded w2]] Cons.prems(2) by (simp_all add: s1 sub_address_def)
  moreover have "tr' = tr2 @ prepare_events E tid config n (Suc i) subs"
    using Cons.IH [OF rest [unfolded w2] ok] Cons.prems(3-5) by simp
  ultimately show ?case unfolding req by simp
qed

lemma Send_traced:
  assumes ret: "SendCohortPrepareRequests (ctraced E) tid subs context s (w, tr) = Some (s', w', tr')"
    and ok: "stubs_ok E s" and config: "cm_config (coord_meta s tid) = config"
  shows "tr' = tr @ prepare_events E tid config (length subs) 0 subs"
proof -
  let ?prepare = "\<lparr>req_transaction_id = tid, req_transaction = [], req_config = config, participant =
    if length subs = 1 then OnlyCohort True else ParticipantNotSet\<rparr>"
  obtain s0 where "stubs_ok E s0"
    "prepare_cohorts (ctraced E) tid context (length subs) subs 0 ?prepare s0 (w, tr) = Some (s', w', tr')"
  proof (cases "length subs = 1")
    case True
    show thesis
      by (rule that [of "upd_meta tid (\<lambda>m. m\<lparr>single_cohort_namespace := Some (sub_namespace (subs ! 0))\<rparr>)
            (upd_meta tid (\<lambda>m. m) s)"])
         (use ret ok config True in \<open>simp_all add: SendCohortPrepareRequests_def Let_def\<close>)
  next
    case False
    show thesis
      by (rule that [of "upd_meta tid (\<lambda>m. m) s"])
         (use ret ok config False in \<open>simp_all add: SendCohortPrepareRequests_def Let_def\<close>)
  qed
  from prepare_cohorts_traced [OF this(2,1)] show ?thesis by simp
qed

lemma StartVoting_traced:
  assumes "coord_StartVoting (ctraced E) tid ts n (w, tr) = Some (e, w', tr')" and "valid_timestamp ts"
  obtains st where "tr' = tr @ [VotingStarted \<lparr>sv_transaction_id = tid,
      sv_timeout_time = \<lparr>seconds = seconds ts, nanos = 0\<rparr>, sv_cohorts = of_nat n\<rparr> st]" "absl_ok e \<longleftrightarrow> grpc_ok st"
proof -
  have t: "ToTimeT (FromUnixSeconds (seconds ts) + Nanoseconds (nanos ts)) = seconds ts"
    using ToTimeT_time_of_timestamp [OF assms(2)] by (simp add: time_of_timestamp_def)
  from assms(1) show thesis
    by (auto simp: coord_StartVoting_def bc_StartVoting_def ctraced_stub_def Let_def t intro: that
        elim!: bind_elims)
qed

text \<open>
  The calls of \<open>CommitAtomicTransaction\<close> for a transaction that has to be sent: the vote is opened
  first, when there is more than one cohort, with the number of cohorts and the time limit; then each
  cohort gets exactly its operations.
\<close>

definition commit_events ::
  "('c, 'stub, 'w) coord_env \<Rightarrow> string \<Rightarrow> timestamp \<Rightarrow> sub_transaction list \<Rightarrow> grpc_status \<Rightarrow> 'stub coord_event list" where
  "commit_events E tid ts subs st =
     (if length subs > 1
      then [VotingStarted \<lparr>sv_transaction_id = tid, sv_timeout_time = \<lparr>seconds = seconds ts, nanos = 0\<rparr>,
                           sv_cohorts = of_nat (length subs)\<rparr> st] else []) @
     (if length subs > 1 \<and> \<not> grpc_ok st then []
      else prepare_events E tid \<lparr>config_abort_time = Some ts\<rparr> (length subs) 0 subs)"

lemma Commit_traced:
  assumes ret: "CommitAtomicTransaction (ctraced E) context req s (w, []) = Some (st, resp, s', w', tr)"
    and ok: "stubs_ok E s"
  shows "tr = [] \<or> (\<exists>tid ts st0. GetTransactionId (sha E) (client_transaction_id req) (peer context) = Inr tid \<and>
      \<not> possibly_sent_to_all_cohorts (coord_meta s tid) \<and> valid_timestamp ts \<and>
      resp = \<lparr>global_transaction_id = tid, cresp_config = \<lparr>config_abort_time = Some ts\<rparr>\<rparr> \<and>
      (grpc_ok st \<longleftrightarrow> \<not> RequiresBlockchain (subs_of E req) \<or> grpc_ok st0) \<and>
      tr = commit_events E tid ts (subs_of E req) st0)"
  using ret
proof (cases rule: Commit_cases)
  case (not_started tid config e)
  from ComputeFinalConfig_Inr [OF not_started(3)] obtain ts where
    ts: "config = \<lparr>config_abort_time = Some ts\<rparr>" "valid_timestamp ts" by auto
  with not_started(5) obtain st0 where "tr = [VotingStarted \<lparr>sv_transaction_id = tid,
      sv_timeout_time = \<lparr>seconds = seconds ts, nanos = 0\<rparr>, sv_cohorts = of_nat (length (subs_of E req))\<rparr> st0]"
    "absl_ok e \<longleftrightarrow> grpc_ok st0"
    by (auto simp: config_time_def elim!: StartVoting_traced)
  with not_started ts show ?thesis
    by (intro disjI2 exI [of _ tid] exI [of _ ts] exI [of _ st0]) (simp add: commit_events_def RequiresBlockchain_def)
next
  case (sent tid config e w1)
  from ComputeFinalConfig_Inr [OF sent(3)] obtain ts where
    ts: "config = \<lparr>config_abort_time = Some ts\<rparr>" "valid_timestamp ts" by auto
  obtain w2 tr1 where w1: "w1 = (w2, tr1)" by fastforce
  have "coord_meta (configured tid config s) tid = (coord_meta s tid)\<lparr>cm_config := config\<rparr>" "stubs_ok E (configured tid config s)"
    using ok by (simp_all add: configured_def)
  then have tr: "tr = tr1 @ prepare_events E tid config (length (subs_of E req)) 0 (subs_of E req)"
    using Send_traced [OF sent(7) [unfolded w1 ctraced_simps]] by simp
  show ?thesis
  proof (cases "RequiresBlockchain (subs_of E req)")
    case True
    with sent(5) ts obtain st0 where "tr1 = [VotingStarted \<lparr>sv_transaction_id = tid,
      sv_timeout_time = \<lparr>seconds = seconds ts, nanos = 0\<rparr>, sv_cohorts = of_nat (length (subs_of E req))\<rparr> st0]"
      "absl_ok e \<longleftrightarrow> grpc_ok st0"
      by (auto simp: config_time_def w1 elim!: StartVoting_traced)
    with sent ts tr True show ?thesis
      by (intro disjI2 exI [of _ tid] exI [of _ ts] exI [of _ st0]) (simp add: commit_events_def RequiresBlockchain_def)
  next
    case False
    with sent(5) w1 have "tr1 = []" by simp
    with sent ts tr False show ?thesis
      by (intro disjI2 exI [of _ tid] exI [of _ ts] exI [of _ grpc_OK]) (simp add: commit_events_def RequiresBlockchain_def)
  qed
qed simp_all

end
