(* ===== verification/Whole_Protocol.thy ===== *)
theory Whole_Protocol
  imports Commit_Protocol Coordinator_Trace
begin

text \<open>
  The commit protocol from the coordinator's handler on: what \<open>CommitAtomicTransaction\<close> sends makes the
  cohorts participants of one vote, which it has opened for exactly them.
\<close>

definition sent_requests :: "'stub coord_event list \<Rightarrow> prepare_request list" where
  "sent_requests tr = concat (map (\<lambda>e. case e of PrepareSent stub r \<Rightarrow> [r] | _ \<Rightarrow> []) tr)"

lemma sent_requests_simps [simp]:
  "sent_requests [] = []" "sent_requests (PrepareSent stub r # tr) = r # sent_requests tr"
  "sent_requests (VotingStarted v st # tr) = sent_requests tr"
  "sent_requests (tr @ tr') = sent_requests tr @ sent_requests tr'"
  by (simp_all add: sent_requests_def)

lemma sent_prepare_events: "sent_requests (prepare_events E tid config n i subs) =
    map (\<lambda>(i, sub). prepare_for tid config n i sub) (enumerate i subs)"
  by (induction subs arbitrary: i) simp_all

text \<open>The coordinator's world contains the chain, which only its calls of the blockchain client change.\<close>

definition on_chain :: "('c, 'stub, 'w) coord_env \<Rightarrow> ('w \<Rightarrow> chain) \<Rightarrow> bool" where
  "on_chain E chain_of \<longleftrightarrow>
     (\<forall>tid t n w st w'. bc_StartVoting (coord_blockchain E) tid t n w = Some (st, w') \<longrightarrow>
        bc_StartVoting js_stub tid t n (chain_of w) = Some (st, chain_of w')) \<and>
     (\<forall>stub ctx r w st w'. stub_Prepare E stub ctx r w = Some (st, w') \<longrightarrow> chain_of w' = chain_of w)"

lemma StartVoting_ctraced:
  "bc_StartVoting (ctraced_stub stub) tid t n (w, tr) = Some (st, w', tr') \<Longrightarrow>
   bc_StartVoting stub tid t n w = Some (st, w')"
  by (auto simp: bc_StartVoting_def ctraced_stub_def Let_def elim!: bind_elims)

lemma prepare_cohorts_chain:
  assumes "on_chain E chain_of"
    and "prepare_cohorts (ctraced E) tid context n subs i request s (w, tr) = Some (s', w', tr')"
  shows "chain_of w' = chain_of w"
  using assms(2)
proof (induction subs arbitrary: i request s w tr)
  case (Cons sub subs)
  from Cons.prems obtain s1 r1 s2 w2 tr2 r2 where
    prep: "PrepareCohortTransaction (ctraced E) tid (sub_namespace sub) r1 context s1 (w, tr) = Some (s2, w2, tr2)"
    and rest: "prepare_cohorts (ctraced E) tid context n subs (Suc i) r2 s2 (w2, tr2) = Some (s', w', tr')"
    unfolding prepare_cohorts_Cons Let_def by (auto elim!: bind_elims)
  from prep have "chain_of w2 = chain_of w"
    using assms(1) by (auto simp: PrepareCohortTransaction_def on_chain_def Let_def split: prod.splits elim!: bind_elims)
  with Cons.IH [OF rest] show ?case by simp
qed simp

lemma Send_chain:
  assumes "on_chain E chain_of"
    and "SendCohortPrepareRequests (ctraced E) tid subs context s (w, tr) = Some (s', w', tr')"
  shows "chain_of w' = chain_of w"
  using assms(2) prepare_cohorts_chain [OF assms(1)]
  by (auto simp: SendCohortPrepareRequests_def Let_def split: if_splits)

lemma coordinator_starts:
  assumes ret: "CommitAtomicTransaction (ctraced E) context request s (w, []) = Some (st, resp, s', w', tr)"
    and "stubs_ok E s" and chain: "on_chain E chain_of" and n: "length (sent_requests tr) = n" "1 < n"
  shows "\<exists>e. bc_StartVoting js_stub (global_transaction_id resp) (ToTimeT (time_of_timestamp (config_time (cresp_config resp))))
      (int n) (chain_of w) = Some (e, chain_of w')"
    and "i < n \<Longrightarrow> req_transaction_id (sent_requests tr ! i) = global_transaction_id resp \<and>
      participant (sent_requests tr ! i) = CohortIndex i"
proof -
  let ?subs = "subs_of E request"
  from Commit_traced [OF ret assms(2)] n obtain tid ts st0 where
    resp: "resp = \<lparr>global_transaction_id = tid, cresp_config = \<lparr>config_abort_time = Some ts\<rparr>\<rparr>"
    and tr: "tr = commit_events E tid ts ?subs st0" and fresh: "tr \<noteq> []"
    and st: "grpc_ok st \<longleftrightarrow> \<not> RequiresBlockchain ?subs \<or> grpc_ok st0" by fastforce
  have many: "1 < length ?subs" and len: "length ?subs = n"
    using tr n by (auto simp: commit_events_def sent_prepare_events split: if_splits)
  have sent: "sent_requests tr = map (\<lambda>(i, sub). prepare_for tid \<lparr>config_abort_time = Some ts\<rparr> n i sub) (enumerate 0 ?subs)"
    using tr n many len by (auto simp: commit_events_def sent_prepare_events split: if_splits)
  have "grpc_ok st" using st tr n by (auto simp: commit_events_def RequiresBlockchain_def split: if_splits)
  show "req_transaction_id (sent_requests tr ! i) = global_transaction_id resp \<and>
      participant (sent_requests tr ! i) = CohortIndex i" if "i < n"
    using that n(2) len by (simp add: sent nth_enumerate_eq prepare_for_def resp)
  from ret show "\<exists>e. bc_StartVoting js_stub (global_transaction_id resp)
      (ToTimeT (time_of_timestamp (config_time (cresp_config resp)))) (int n) (chain_of w) = Some (e, chain_of w')"
  proof (cases rule: Commit_cases)
    case (sent tid' config e w1)
    obtain v1 tr1 where w1: "w1 = (v1, tr1)" by fastforce
    have "RequiresBlockchain ?subs" using many by (simp add: RequiresBlockchain_def)
    with sent(5) w1 have "coord_StartVoting (ctraced E) tid' (config_time config) n (w, []) = Some (e, v1, tr1)"
      using len by simp
    then have "bc_StartVoting (coord_blockchain E) tid' (ToTimeT (time_of_timestamp (config_time config))) (int n) w = Some (e, v1)"
      by (auto simp: coord_StartVoting_def Let_def time_of_timestamp_def dest: StartVoting_ctraced)
    then have "bc_StartVoting js_stub tid' (ToTimeT (time_of_timestamp (config_time config))) (int n) (chain_of w) = Some (e, chain_of v1)"
      using chain by (auto simp: on_chain_def)
    moreover have "chain_of w' = chain_of v1" using Send_chain [OF chain sent(7) [unfolded w1]] .
    ultimately show ?thesis using sent by auto
  qed (use fresh len many \<open>grpc_ok st\<close> in auto)
qed

lemma coordinator_opens:
  assumes "CommitAtomicTransaction (ctraced E) context request s (w, []) = Some (st, resp, s', w', tr)"
    and "stubs_ok E s" and "on_chain E chain_of" and "chain_ok (chain_of w)"
    and "length (sent_requests tr) = n" and "1 < n" and "n < 2 ^ 32"
  shows "vote_opened (global_transaction_id resp) n
      \<lparr>the_chain = chain_of w', performed = (\<lambda>_. []), decisions_read = []\<rparr>"
  using coordinator_starts(1) [OF assms(1-3,5,6)] assms(4,7) by (auto simp: vote_opened_def)

text \<open>Each cohort runs \<open>ProcessTransaction\<close> for the request that it was sent.\<close>

definition cohorts_run ::
  "(nat \<Rightarrow> ('d, 'w) cohort_env) \<Rightarrow> prepare_request list \<Rightarrow> (nat \<Rightarrow> event list) \<Rightarrow> (nat \<Rightarrow> cohort_result) \<Rightarrow> bool" where
  "cohorts_run E reqs plan res \<longleftrightarrow>
     (\<forall>i < length reqs. \<exists>s w s' w'. metadata_by_transaction_id s (req_transaction_id (reqs ! i)) = None \<and>
        ProcessTransaction (traced (E i)) (reqs ! i) s (w, []) = Some (s', w', plan i) \<and>
        final_response_by_transaction_id s' (req_transaction_id (reqs ! i)) = Some (res i)) \<and>
     (\<forall>i \<ge> length reqs. plan i = [])"

lemma coordinator_participants:
  assumes "CommitAtomicTransaction (ctraced E) context request s (w, []) = Some (st, resp, s', w', tr)"
    and "stubs_ok E s" and "on_chain E chain_of" and "chain_ok (chain_of w)"
    and n: "length (sent_requests tr) = n" "1 < n" "n < 2 ^ 32"
    and "cohorts_run F (sent_requests tr) plan res"
  shows "participants n (global_transaction_id resp) F (\<lambda>i. sent_requests tr ! i) plan res"
  using coordinator_starts(2) [OF assms(1-3) n(1,2)] assms(8) n(1) by (auto simp: participants_def cohorts_run_def)

text \<open>A commit is unanimous.\<close>

lemma commit_unanimous:
  assumes "participants n tid E req plan res" and "vote_opened tid n \<sigma>0"
    and "(protocol_step tid plan)\<^sup>*\<^sup>* \<sigma>0 \<sigma>"
    and "i < n" and "DbCommitted st \<in> set (performed \<sigma> i)" and "j < n"
  shows "Voted tid (int j) BALLOT_COMMIT \<in> begun plan \<sigma> j \<and> (\<forall>st'. DbAborted st' \<notin> set (performed \<sigma> j)) \<and>
    VOTING_DECISION_ABORT \<notin> set (decisions_read \<sigma>)"
proof -
  have inv: "protocol_inv n tid plan \<sigma>"
    by (rule inv_reachable [OF assms(3,2) participants_votes_own [OF assms(1)]])
  have v: "verdict tid \<sigma> = VOTING_DECISION_COMMIT" by (rule committed_verdict [OF inv assms(1,4,5)])
  with verdict_commit [OF inv v assms(6)] aborted_verdict [OF inv assms(1,6)] read_verdict [OF inv]
  show ?thesis by fastforce
qed

end
