(* ===== verification/Distributed_Run.thy ===== *)
theory Distributed_Run
  imports Cohort_Lmdb Whole_Protocol
begin

text \<open>
  A transaction over several databases, from the request of the client to the data: the reference executes
  the operations one after the other on all databases together; the lemmas relate it to what each
  cohort does with the part it is sent.
\<close>

subsection \<open>The reference\<close>

fun exec_all :: "absl_status \<Rightarrow> transaction \<Rightarrow> (string \<Rightarrow> kv) \<Rightarrow> absl_status + ((string \<Rightarrow> kv) \<times> get_response list)" where
  "exec_all missing [] D = Inr (D, [])"
| "exec_all missing (op # ops) D =
     (let a = ns_address (op_namespace op) in
      case exec_op missing op (D a) of
        Inl e \<Rightarrow> Inl e
      | Inr (m, gs) \<Rightarrow> (case exec_all missing ops (D(a := m)) of
          Inl e \<Rightarrow> Inl e
        | Inr (D, gs') \<Rightarrow> Inr (D, gs @ gs')))"

definition answers_of :: "string \<Rightarrow> get_response list \<Rightarrow> get_response list" where
  "answers_of a gs = filter (\<lambda>g. ns_address (gr_namespace g) = a) gs"

lemma answers_of_append [simp]: "answers_of a (gs @ gs') = answers_of a gs @ answers_of a gs'"
  by (simp add: answers_of_def)

lemma exec_op_answers:
  assumes "exec_op missing op m = Inr (m', gs)"
  shows "answers_of a gs = (if ns_address (op_namespace op) = a then gs else [])"
  using assms by (auto simp: exec_op_def answers_of_def split: op_type.splits option.splits put_value.splits sum.splits)

lemma ops_for_Cons:
  "ops_for a (op # ops) = (if ns_address (op_namespace op) = a then op # ops_for a ops else ops_for a ops)"
  by (simp add: ops_for_def)

text \<open>Operations on different databases do not see each other: the reference splits by address.\<close>

lemma exec_all_ok:
  assumes "exec_all missing ops D = Inr (D', gs)"
  shows "exec_ops missing (ops_for a ops) (D a) = Inr (D' a, answers_of a gs)"
  using assms
proof (induction ops arbitrary: D gs)
  case Nil
  then show ?case by (simp add: ops_for_def answers_of_def)
next
  case (Cons op ops)
  let ?b = "ns_address (op_namespace op)"
  obtain m gs1 gs2 where op: "exec_op missing op (D ?b) = Inr (m, gs1)"
    and rest: "exec_all missing ops (D(?b := m)) = Inr (D', gs2)" and gs: "gs = gs1 @ gs2"
    using Cons.prems by (auto simp: Let_def split: sum.splits)
  from Cons.IH [OF rest] op exec_op_answers [OF op, of a] gs show ?case
    by (cases "?b = a") (simp_all add: ops_for_Cons)
qed

lemma exec_all_error:
  assumes "exec_all missing ops D = Inl e"
  shows "\<exists>a \<in> addresses ops. exec_ops missing (ops_for a ops) (D a) = Inl e"
  using assms
proof (induction ops arbitrary: D)
  case (Cons op ops)
  let ?b = "ns_address (op_namespace op)"
  show ?case
  proof (cases "exec_op missing op (D ?b)")
    case (Inl e')
    with Cons.prems show ?thesis by (intro bexI [of _ ?b]) (simp_all add: ops_for_Cons addresses_def Let_def)
  next
    case (Inr r)
    obtain m gs where r: "r = (m, gs)" by fastforce
    with Inr Cons.prems have "exec_all missing ops (D(?b := m)) = Inl e" by (auto simp: Let_def split: sum.splits)
    from Cons.IH [OF this] obtain a where a: "a \<in> addresses ops" "exec_ops missing (ops_for a ops) ((D(?b := m)) a) = Inl e" by blast
    then have "exec_ops missing (ops_for a (op # ops)) (D a) = Inl e"
      using Inr r by (cases "?b = a") (simp_all add: ops_for_Cons)
    with a(1) show ?thesis by (auto simp: addresses_def)
  qed
qed simp

subsection \<open>What each cohort is sent\<close>

definition part_address :: "prepare_request \<Rightarrow> string" where
  "part_address req = ns_address (op_namespace (hd (req_transaction req)))"

lemma sent_parts:
  assumes "CommitAtomicTransaction (ctraced CE) context request s (w, []) = Some (st, resp, s', w', tr)"
    and "stubs_ok CE s" and perm: "perm_order (iter_subs CE)" and "sent_requests tr \<noteq> []"
  shows "part_address ` set (sent_requests tr) = addresses (creq_transaction request)"
    and "\<And>req. req \<in> set (sent_requests tr) \<Longrightarrow> req_transaction_id req = global_transaction_id resp \<and>
      req_transaction req = ops_for (part_address req) (creq_transaction request) \<and>
      req_config req = cresp_config resp \<and> (only_cohort req \<longleftrightarrow> length (sent_requests tr) = 1)"
proof -
  let ?subs = "subs_of CE request" and ?ops = "creq_transaction request"
  have "tr \<noteq> []" using assms(4) by auto
  with Commit_traced [OF assms(1,2)] obtain tid ts st0 where
    resp: "resp = \<lparr>global_transaction_id = tid, cresp_config = \<lparr>config_abort_time = Some ts\<rparr>\<rparr>"
    and tr: "tr = commit_events CE tid ts ?subs st0" by blast
  let ?req = "\<lambda>(i, sub). prepare_for tid \<lparr>config_abort_time = Some ts\<rparr> (length ?subs) i sub"
  have sent: "sent_requests tr = map ?req (enumerate 0 ?subs)"
    using assms(4) unfolding tr by (auto simp: commit_events_def sent_prepare_events split: if_splits)
  have split: "splits_into ?ops ?subs" by (rule SplitClientTransaction_splits [OF perm])
  have sub: "part_address (?req (i, sub)) = sub_address sub \<and> sub_ops sub = ops_for (sub_address sub) ?ops"
    if "sub \<in> set ?subs" for i sub
  proof -
    have "sub_ops sub = ops_for (sub_address sub) ?ops" "sub_address sub \<in> addresses ?ops"
      using split that unfolding splits_into_def by blast+
    moreover from this have "hd (sub_ops sub) \<in> set (ops_for (sub_address sub) ?ops)" using ops_for_Nil_iff by fastforce
    ultimately show ?thesis by (simp add: part_address_def prepare_for_def ops_for_def)
  qed
  have "part_address ` set (sent_requests tr) = (\<lambda>p. part_address (?req p)) ` set (enumerate 0 ?subs)"
    by (simp add: sent image_image)
  also have "\<dots> = sub_address ` snd ` set (enumerate 0 ?subs)"
    unfolding image_image using sub by (intro image_cong) (auto simp: in_set_enumerate_eq)
  also have "snd ` set (enumerate 0 ?subs) = set ?subs" by (metis list.set_map map_snd_enumerate)
  also have "sub_address ` set ?subs = addresses ?ops" using split by (simp add: splits_into_def)
  finally show "part_address ` set (sent_requests tr) = addresses ?ops" .
  fix req assume "req \<in> set (sent_requests tr)"
  then obtain i sub where req: "req = ?req (i, sub)" and "sub \<in> set ?subs" unfolding sent by (auto simp: in_set_enumerate_eq)
  with sub have "part_address req = sub_address sub" "sub_ops sub = ops_for (sub_address sub) ?ops" by blast+
  then show "req_transaction_id req = global_transaction_id resp \<and>
      req_transaction req = ops_for (part_address req) ?ops \<and>
      req_config req = cresp_config resp \<and> (only_cohort req \<longleftrightarrow> length (sent_requests tr) = 1)"
    by (simp add: req sent prepare_for_def resp only_cohort.simps)
qed

subsection \<open>The cohorts\<close>

text \<open>A cohort whose calls work: its database opens, files can be written, votes are answered, and the
  decision \<open>dec\<close> is read in the end.\<close>

definition working_cohort ::
  "('env, 'txn, 'dbi, 'w) lmdb_lib \<Rightarrow> ('w \<Rightarrow> raw) \<Rightarrow> ('w \<Rightarrow> bool) \<Rightarrow> ('env \<Rightarrow> 'w \<Rightarrow> bool) \<Rightarrow> string \<Rightarrow> ('e, 'x) cohort_env \<Rightarrow>
   commit_response \<Rightarrow> voting_decision \<Rightarrow> ('env, 'txn, 'dbi) lmdb_adapter cohort_server \<Rightarrow> 'w \<Rightarrow> bool" where
  "working_cohort lib committed writer_free opened path B resp dec c v \<longleftrightarrow>
     creatable lib path committed writer_free opened v \<and>
     metadata_by_transaction_id c (global_transaction_id resp) = None \<and>
     (\<forall>p content x. fst (file_write B p content x)) \<and>
     (\<forall>i b x. bc_Vote (blockchain_stub B) (global_transaction_id resp) i b x \<noteq> None) \<and>
     (\<forall>x. \<exists>x'. WaitForBlockchainDecision B (global_transaction_id resp)
        (time_of_timestamp (config_time (cresp_config resp))) False x = Some (dec, x'))"

text \<open>What one cohort of a transaction over the databases \<open>D\<close> ends with.\<close>

definition part_done ::
  "('w \<Rightarrow> raw) \<Rightarrow> string \<Rightarrow> (string \<Rightarrow> kv) \<Rightarrow> get_response list \<Rightarrow> string \<Rightarrow> 'd cohort_server \<Rightarrow> 'w \<Rightarrow> bool" where
  "part_done committed tid D gs a c v \<longleftrightarrow> decode (committed v) = D a \<and>
     final_response_by_transaction_id c tid = Some (CohortCommitted (answers_of a gs))"

definition part_undone :: "('w \<Rightarrow> raw) \<Rightarrow> string \<Rightarrow> 'w \<Rightarrow> 'd cohort_server \<Rightarrow> 'w \<Rightarrow> bool" where
  "part_undone committed tid v0 c v \<longleftrightarrow> decode (committed v) = decode (committed v0) \<and>
     (\<exists>reason. final_response_by_transaction_id c tid = Some (CohortAborted reason))"

lemma working_cohort_outcome:
  assumes "lmdb lib committed view writer_free opened"
    and "working_cohort lib committed writer_free opened path B resp dec c v"
    and req: "req_transaction_id req = global_transaction_id resp" "req_config req = cresp_config resp"
    and "list_all (op_key_ok valid_key) (req_transaction req)"
  shows "\<exists>c' v' x'. ProcessTransaction (seq_env lib path B) req c (v, x) = Some (c', v', x') \<and>
    (case exec_ops (InternalError ''Get failed.'') (req_transaction req) (decode (committed v)) of
       Inl e \<Rightarrow> part_undone committed (global_transaction_id resp) v c' v'
     | Inr (m, gs) \<Rightarrow>
         if only_cohort req \<or> dec = VOTING_DECISION_COMMIT
         then decode (committed v') = m \<and>
           final_response_by_transaction_id c' (global_transaction_id resp) = Some (CohortCommitted gs)
         else part_undone committed (global_transaction_id resp) v c' v')"
proof -
  have "\<exists>c' v' x'. ProcessTransaction (seq_env lib path B) req c (v, x) = Some (c', v', x') \<and>
    (case exec_ops (InternalError ''Get failed.'') (req_transaction req) (decode (committed v)) of
       Inl e \<Rightarrow> decode (committed v') = decode (committed v) \<and>
         final_response_by_transaction_id c' (req_transaction_id req) = Some (CohortAborted (abort_reason_for e))
     | Inr (m, gs) \<Rightarrow>
         if only_cohort req \<or> dec = VOTING_DECISION_COMMIT
         then decode (committed v') = m \<and>
           final_response_by_transaction_id c' (req_transaction_id req) = Some (CohortCommitted gs)
         else decode (committed v') = decode (committed v) \<and>
           (\<exists>reason. final_response_by_transaction_id c' (req_transaction_id req) = Some (CohortAborted reason)))"
    by (rule seq_outcome [OF assms(1)]) (use assms(2-5) in \<open>simp_all add: working_cohort_def\<close>)
  then obtain c' v' x' where "ProcessTransaction (seq_env lib path B) req c (v, x) = Some (c', v', x')"
    and out: "case exec_ops (InternalError ''Get failed.'') (req_transaction req) (decode (committed v)) of
       Inl e \<Rightarrow> decode (committed v') = decode (committed v) \<and>
         final_response_by_transaction_id c' (global_transaction_id resp) = Some (CohortAborted (abort_reason_for e))
     | Inr (m, gs) \<Rightarrow>
         if only_cohort req \<or> dec = VOTING_DECISION_COMMIT
         then decode (committed v') = m \<and>
           final_response_by_transaction_id c' (global_transaction_id resp) = Some (CohortCommitted gs)
         else decode (committed v') = decode (committed v) \<and>
           (\<exists>reason. final_response_by_transaction_id c' (global_transaction_id resp) = Some (CohortAborted reason))"
    unfolding req by blast
  then show ?thesis
    by (intro exI [of _ c'] exI [of _ v'] exI [of _ x'] conjI) (auto simp: part_undone_def split: sum.splits prod.splits)
qed

lemma part_runs:
  assumes "lmdb lib committed view writer_free opened"
    and "working_cohort lib committed writer_free opened path B resp dec c v"
    and "decode (committed v) = D a" and "list_all (op_key_ok valid_key) ops"
    and req: "req_transaction_id req = global_transaction_id resp \<and> req_transaction req = ops_for a ops \<and>
      req_config req = cresp_config resp \<and> (only_cohort req \<longleftrightarrow> n = 1)"
  shows "\<exists>c' v' x'. ProcessTransaction (seq_env lib path B) req c (v, x) = Some (c', v', x') \<and>
    (\<forall>D' gs. exec_all (InternalError ''Get failed.'') ops D = Inr (D', gs) \<longrightarrow> n = 1 \<or> dec = VOTING_DECISION_COMMIT \<longrightarrow>
      part_done committed (global_transaction_id resp) D' gs a c' v') \<and>
    ((\<exists>e. exec_ops (InternalError ''Get failed.'') (ops_for a ops) (D a) = Inl e) \<or> n \<noteq> 1 \<and> dec \<noteq> VOTING_DECISION_COMMIT \<longrightarrow>
      part_undone committed (global_transaction_id resp) v c' v')"
proof -
  have "list_all (op_key_ok valid_key) (req_transaction req)" using assms(4) req by (auto simp: list_all_iff ops_for_def)
  from working_cohort_outcome [OF assms(1,2) _ _ this, of x] req obtain c' v' x' where
    run: "ProcessTransaction (seq_env lib path B) req c (v, x) = Some (c', v', x')"
    and out: "case exec_ops (InternalError ''Get failed.'') (req_transaction req) (decode (committed v)) of
       Inl e \<Rightarrow> part_undone committed (global_transaction_id resp) v c' v'
     | Inr (m, gs) \<Rightarrow>
         if only_cohort req \<or> dec = VOTING_DECISION_COMMIT
         then decode (committed v') = m \<and>
           final_response_by_transaction_id c' (global_transaction_id resp) = Some (CohortCommitted gs)
         else part_undone committed (global_transaction_id resp) v c' v'" by blast
  have req_ops: "req_transaction req = ops_for a ops" and one: "only_cohort req = (n = 1)" using req by simp_all
  note out' = out [unfolded req_ops one assms(3)]
  have "part_done committed (global_transaction_id resp) D' gs a c' v'"
    if "exec_all (InternalError ''Get failed.'') ops D = Inr (D', gs)" "n = 1 \<or> dec = VOTING_DECISION_COMMIT" for D' gs
    using out' that(2) unfolding exec_all_ok [OF that(1)] part_done_def by (simp split: if_splits)
  moreover have "part_undone committed (global_transaction_id resp) v c' v'"
    if "(\<exists>e. exec_ops (InternalError ''Get failed.'') (ops_for a ops) (D a) = Inl e) \<or> n \<noteq> 1 \<and> dec \<noteq> VOTING_DECISION_COMMIT"
    using out' that by (auto split: sum.splits prod.splits)
  ultimately show ?thesis using run by blast
qed

end
