(* ===== verification/Cohort_Demo.thy ===== *)
theory Cohort_Demo
  imports Cohort_Lmdb
begin

text \<open>
  Concrete runs of the cohort for the witnesses: a blockchain that answers every call and has
  decided, files that can be written, and LMDB with an empty database behind the adapter.
\<close>

definition quiet_stub :: "voting_decision \<Rightarrow> unit adapter_stub" where
  "quiet_stub dec = \<lparr>stub_StartVoting = (\<lambda>_ w. Some (grpc_OK, w)), stub_Vote = (\<lambda>_ w. Some (grpc_OK, w)),
     stub_GetVotingDecision = (\<lambda>_ w. Some (grpc_OK, \<lparr>dr_decision = dec, dr_reason = []\<rparr>, w)),
     stub_GetHeartBeat = (\<lambda>w. Some (grpc_OK, True, w))\<rparr>"

definition base_env :: "'x adapter_stub \<Rightarrow> (unit, 'x) cohort_env" where
  "base_env stub = \<lparr>
     ReaderLockWhenWithDeadline = (\<lambda>_ _ w. Some (True, w)), WriterLockWhenWithDeadline = (\<lambda>_ _ w. Some (True, w)),
     ReaderUnlock = (\<lambda>_ w. w), WriterUnlock = (\<lambda>_ w. w), iter_keys = (\<lambda>ks. ks),
     db_ops = \<lparr>SupportsConcurrentWrites = (\<lambda>_. False), Begin = (\<lambda>_ _. None), BeginReadOnly = (\<lambda>_ _. None),
       Commit = (\<lambda>_ _. None), Abort = (\<lambda>_ _. None), Get = (\<lambda>_ _ _. None), Put = (\<lambda>_ _ _ _. None)\<rparr>,
     db_transaction_adapter_creator = (\<lambda>_. None), blockchain_stub = stub,
     file_write = (\<lambda>_ _ w. (True, w)), Now = (\<lambda>_. 0), sleep_for_us = (\<lambda>_ w. w), sleep_until = (\<lambda>_ w. w),
     uninit_abort_reason = (\<lambda>_. ABORT_REASON_UNSPECIFIED), db_txn_response_dir = ''d''\<rparr>"

definition demo_put :: "string \<Rightarrow> int64 \<Rightarrow> operation" where
  "demo_put k v = \<lparr>op_namespace = \<lparr>ns_identifier = [], ns_address = []\<rparr>,
     op_type = PutOp \<lparr>put_key = k, put_val = Constant (ConstantValue (Some v))\<rparr>\<rparr>"

definition demo_add :: "string \<Rightarrow> int64 \<Rightarrow> int64 option \<Rightarrow> operation" where
  "demo_add k v dflt = \<lparr>op_namespace = \<lparr>ns_identifier = [], ns_address = []\<rparr>,
     op_type = PutOp \<lparr>put_key = k, put_val = Relative \<lparr>relative_part = Some (NumericValue (Some v)),
       default_part = map_option (\<lambda>v. NumericValue (Some v)) dflt\<rparr>\<rparr>\<rparr>"

definition demo_prepare :: "transaction \<Rightarrow> participant_info \<Rightarrow> prepare_request" where
  "demo_prepare ops p = \<lparr>req_transaction_id = ''01'', req_transaction = ops,
     req_config = \<lparr>config_abort_time = None\<rparr>, participant = p\<rparr>"

lemma demo_keys [simp]:
  "op_key_ok valid_key (demo_put k v) = valid_key k" "op_key_ok valid_key (demo_add k v dflt) = valid_key k"
  "valid_key ''k''" "req_transaction (demo_prepare ops p) = ops"
  by (simp_all add: op_key_ok_def valid_key_def demo_put_def demo_add_def demo_prepare_def)

lemma creatable_empty: "creatable mdb_lib path mdb_data (\<lambda>w. mdb_writer w = None) (\<lambda>_ _. True) mdb_empty"
  by (simp add: creatable_def lmdb_create_def lmdb_Connect_def mdb_lib_def mdb_empty_def all_int64_def)

lemma base_env_simps [simp]:
  "blockchain_stub (base_env stub) = stub" "file_write (base_env stub) p c w = (True, w)"
  by (simp_all add: base_env_def)

lemma quiet_stub_vote [simp]: "bc_Vote (quiet_stub dec) tid i b w = Some (OkStatus, w)"
  by (simp add: bc_Vote_def quiet_stub_def Let_def)

lemma quiet_stub_wait:
  "definite dec \<Longrightarrow> WaitForBlockchainDecision (base_env (quiet_stub dec)) tid t waited w = Some (dec, w)"
  by (subst Wait_unfold) (simp add: bc_GetVotingDecision_def quiet_stub_def)

text \<open>A traced run on the LMDB instance, for the witnesses.\<close>

definition demo_env :: "((unit, mdb_txn, unit) lmdb_adapter, (mdb \<times> unit) traced_world) cohort_env" where
  "demo_env = traced (seq_env mdb_lib ''p'' (base_env (quiet_stub VOTING_DECISION_COMMIT)))"

lemma demo_env_locks:
  "ReaderLockWhenWithDeadline demo_env mx dl (w, tr) = Some (True, w, tr @ [LockedRead mx])"
  "WriterLockWhenWithDeadline demo_env mx dl (w, tr) = Some (True, w, tr @ [LockedWrite mx])"
  "ReaderUnlock demo_env mx (w, tr) = (w, tr @ [UnlockedRead mx])"
  "WriterUnlock demo_env mx (w, tr) = (w, tr @ [UnlockedWrite mx])"
  by (simp_all add: demo_env_def traced_def seq_env_def)

lemma demo_env_db:
  "db_ops demo_env = traced_db (lift_db (lmdb_db mdb_lib))"
  "db_transaction_adapter_creator demo_env ((m, x), tr) =
     map_option (\<lambda>(d, w). (d, (w, x), tr)) (lmdb_create mdb_lib ''p'' m)"
  by (cases "lmdb_create mdb_lib ''p'' m"; simp add: demo_env_def traced_def seq_env_def split_beta)+

lemma demo_env_vote:
  "bc_Vote (blockchain_stub demo_env) tid i b ((m, x), tr) = Some (OkStatus, (m, x), tr @ [Voted tid i b])"
  by (simp add: demo_env_def traced_stub_def lift_stub_def quiet_stub_def bc_Vote_def)

lemma demo_env_files:
  "file_write demo_env path content ((m, x), tr) = (True, (m, x), tr @ [Wrote path True])"
  "db_txn_response_dir demo_env = ''d''"
  by (simp_all add: demo_env_def traced_def seq_env_def base_env_def)

lemmas demo_env_calls = demo_env_locks demo_env_db demo_env_vote demo_env_files

lemma demo_wait:
  "WaitForBlockchainDecision demo_env tid t waited (w, tr) =
     Some (VOTING_DECISION_COMMIT, w, tr @ [Polled tid (Inr VOTING_DECISION_COMMIT)])"
  by (cases w; subst Wait_unfold)
     (simp add: demo_env_def traced_stub_def lift_stub_def quiet_stub_def bc_GetVotingDecision_def)

lemmas run_defs = ProcessTransaction_finish finish_def ProcessTransactionInDb_def AcquireDbLocks_def
  AcquireWholeDbLock_def with_db_def ProcessOperationInDb_def AbortTransaction_def CommitTransaction_def
  ReleaseLocksAndDeleteMetadata_def PersistTransaction_def WriteToFile_def unlock_keys_def
  metadata_of_def set_metadata_def fresh_metadata_def new_cohort_server_def index_default_def
  trace_db_def lift_db_def
  lmdb_db_def lmdb_create_def lmdb_Connect_def lmdb_Begin_def lmdb_Get_def lmdb_Put_def lmdb_Abort_def lmdb_Commit_def
  mdb_lib_def mdb_empty_def mdb_begin_def demo_prepare_def valid_key_def Let_def demo_env_calls demo_wait
  commit_until_ok_first [where E = demo_env]

text \<open>A sole participant whose read fails, and one of several participants that commits.\<close>

lemma demo_run_aborts:
  "\<exists>s' w'. ProcessTransaction demo_env (demo_prepare [demo_add ''k'' 5 None] (OnlyCohort True)) new_cohort_server ((mdb_empty, ()), []) =
   Some (s', w', [LockedWrite 0, DbBegan, DbGot, Voted ''01'' 0 BALLOT_ABORT, DbAborted OkStatus, UnlockedWrite 0])"
  by (simp add: run_defs demo_add_def InternalError_def cohort_index.simps)

definition demo_trace :: "nat \<Rightarrow> event list" where
  "demo_trace i = [LockedWrite 0, DbBegan, DbPut, Wrote ''d/response_01.binarypb'' True,
     Wrote ''d/request_01.binarypb'' True, Voted ''01'' (int i) BALLOT_COMMIT,
     Polled ''01'' (Inr VOTING_DECISION_COMMIT), DbCommitted OkStatus, UnlockedWrite 0]"

lemma demo_run_commits_request:
  "\<exists>s' w'. ProcessTransaction demo_env \<lparr>req_transaction_id = ''01'',
       req_transaction = [\<lparr>op_namespace = ns, op_type = PutOp \<lparr>put_key = ''k'', put_val = Constant c\<rparr>\<rparr>],
       req_config = cfg, participant = CohortIndex i\<rparr> new_cohort_server ((mdb_empty, ()), []) =
     Some (s', w', demo_trace i) \<and> final_response_by_transaction_id s' ''01'' = Some (CohortCommitted [])"
  by (simp add: run_defs demo_trace_def cohort_index.simps only_cohort.simps)

lemma demo_run_commits:
  "\<exists>s' w'. ProcessTransaction demo_env (demo_prepare [demo_put ''k'' 5] (CohortIndex i)) new_cohort_server ((mdb_empty, ()), []) =
     Some (s', w', demo_trace i) \<and> final_response_by_transaction_id s' ''01'' = Some (CohortCommitted [])"
  unfolding demo_prepare_def demo_put_def by (rule demo_run_commits_request)

end
