(* ===== verification/Protocol_Properties.thy ===== *)
theory Protocol_Properties
  imports Atomic_Commit Distributed_Run Cohort_Demo
begin

text \<open>
  The properties of the whole protocol: the cohorts and the coordinator agree, a commit is unanimous,
  and no cohort waits for the decision beyond the deadline.
\<close>

subsection \<open>A run of two cohorts, for the witnesses\<close>

definition two_plans :: "nat \<Rightarrow> event list" where
  "two_plans i = (if i < 2 then demo_trace i else [])"

definition two_requests :: "nat \<Rightarrow> prepare_request" where
  "two_requests i = demo_prepare [demo_put ''k'' 5] (CohortIndex i)"

definition two_env :: "((unit, mdb_txn, unit) lmdb_adapter, mdb \<times> unit) cohort_env" where
  "two_env = seq_env mdb_lib ''p'' (base_env (quiet_stub VOTING_DECISION_COMMIT))"

lemma two_participants: "participants 2 ''01'' (\<lambda>_. two_env) two_requests two_plans (\<lambda>_. CohortCommitted [])"
proof -
  have "\<exists>s w s' w'. metadata_by_transaction_id s ''01'' = None \<and>
      ProcessTransaction (traced two_env) (two_requests i) s (w, []) = Some (s', w', demo_trace i) \<and>
      final_response_by_transaction_id s' ''01'' = Some (CohortCommitted [])" for i
  proof -
    obtain s' w' where "ProcessTransaction demo_env (demo_prepare [demo_put ''k'' 5] (CohortIndex i)) new_cohort_server
        ((mdb_empty, ()), []) = Some (s', w', demo_trace i)"
      "final_response_by_transaction_id s' ''01'' = Some (CohortCommitted [])"
      using demo_run_commits by blast
    then show ?thesis
      by (intro exI [of _ new_cohort_server] exI [of _ "(mdb_empty, ())"] exI [of _ s'] exI [of _ w'] conjI)
         (simp_all add: demo_env_def two_env_def two_requests_def, simp add: new_cohort_server_def)
  qed
  then show ?thesis by (simp add: participants_def two_plans_def two_requests_def demo_prepare_def)
qed

definition two_start :: system where
  "two_start = \<lparr>the_chain = chain_run [StartVotingOp ''01'' 100 2] (genesis 1), performed = (\<lambda>_. []), decisions_read = []\<rparr>"

definition two_chain :: chain where
  "two_chain = chain_run [StartVotingOp ''01'' 100 2, VoteOp ''01'' 0 BALLOT_COMMIT, VoteOp ''01'' 1 BALLOT_COMMIT] (genesis 1)"

definition two_end :: system where
  "two_end = \<lparr>the_chain = two_chain, performed = two_plans, decisions_read = [VOTING_DECISION_COMMIT]\<rparr>"

lemma two_opened: "vote_opened ''01'' 2 two_start"
proof -
  have "client_startVoting (genesis 1) ''01'' (of_int 2) 100 \<noteq> None" by code_simp
  then obtain ch where "bc_StartVoting js_stub ''01'' 100 2 (genesis 1) = Some (OkStatus, ch)"
    by (auto simp: bc_StartVoting_js)
  then show ?thesis
    by (auto simp: vote_opened_def two_start_def chain_run_def intro!: exI [of _ "genesis 1"] exI [of _ 100])
qed

lemma two_board:
  "board_for (boards_of two_chain) ''01'' = \<lparr>voters = 2, deadline = 100, ballot_of = (\<lambda>_. UNKNOWN)(0 := COMMIT, 1 := COMMIT)\<rparr>"
  by (simp add: two_chain_def chain_run_boards) (simp add: boards_of_def genesis_def open_board_def cast_ballot_def Let_def)

lemma two_decided: "bc_GetVotingDecision js_stub ''01'' two_chain = Some (Inr VOTING_DECISION_COMMIT, two_chain)"
proof -
  have "chain_ok two_chain" by (simp add: two_chain_def chain_run_boards)
  from decision_answer [OF this, of "''01''"] show ?thesis by (simp add: two_board board_decision_def less_2_cases_iff)
qed

lemma two_reach: "(protocol_step ''01'' two_plans)\<^sup>*\<^sup>* two_start two_end"
proof -
  let ?step = "protocol_step ''01'' two_plans"
  let ?w = "[LockedWrite 0, DbBegan, DbPut, Wrote ''d/response_01.binarypb'' True, Wrote ''d/request_01.binarypb'' True]"
  let ?v = "\<lambda>i. ?w @ [Voted ''01'' (int i) BALLOT_COMMIT]"
  define s1 where "s1 = two_start\<lparr>performed := (\<lambda>_. [])(0 := ?v 0)\<rparr>"
  define s2 where "s2 = s1\<lparr>performed := (\<lambda>_. [])(0 := ?v 0, 1 := ?v 1)\<rparr>"
  define s3 where "s3 = s2\<lparr>the_chain := two_chain\<rparr>"
  define s4 where "s4 = perform 1 (Polled ''01'' (Inr VOTING_DECISION_COMMIT)) (perform 0 (Polled ''01'' (Inr VOTING_DECISION_COMMIT)) s3)"
  define s5 where "s5 = s4\<lparr>performed := (performed s4)(0 := demo_trace 0)\<rparr>"
  define s6 where "s6 = s5\<lparr>performed := (performed s5)(1 := demo_trace 1)\<rparr>"
  have 1: "?step\<^sup>*\<^sup>* two_start s1"
    using performs_many [of two_plans 0 two_start "?v 0" _ "''01''"]
    by (simp add: s1_def two_start_def two_plans_def demo_trace_def)
  have 2: "?step\<^sup>*\<^sup>* s1 s2"
    using performs_many [of two_plans 1 s1 "?v 1" _ "''01''"]
    by (simp add: s1_def s2_def two_start_def two_plans_def demo_trace_def)
  have 3: "?step\<^sup>*\<^sup>* s2 s3"
  proof -
    let ?a = "s2\<lparr>the_chain := chain_exec (VoteOp ''01'' 0 BALLOT_COMMIT) (the_chain s2)\<rparr>"
    have "Voted ''01'' 0 BALLOT_COMMIT \<in> begun two_plans s2 0" "Voted ''01'' 1 BALLOT_COMMIT \<in> begun two_plans ?a 1"
      by (simp_all add: begun_def s2_def two_plans_def demo_trace_def)
    from mines [OF this(1)] mines [OF this(2)]
    have "?step s2 ?a" "?step ?a (?a\<lparr>the_chain := chain_exec (VoteOp ''01'' 1 BALLOT_COMMIT) (the_chain ?a)\<rparr>)" .
    moreover have "?a\<lparr>the_chain := chain_exec (VoteOp ''01'' 1 BALLOT_COMMIT) (the_chain ?a)\<rparr> = s3"
      by (simp add: s3_def s2_def s1_def two_start_def two_chain_def chain_run_def del: chain_exec.simps)
    ultimately show ?thesis by (metis converse_rtranclp_into_rtranclp rtranclp.rtrancl_refl)
  qed
  have 4: "?step\<^sup>*\<^sup>* s3 s4"
  proof -
    let ?a = "perform 0 (Polled ''01'' (Inr VOTING_DECISION_COMMIT)) s3"
    have "?step s3 ?a"
      by (rule polls [where rest = "[DbCommitted OkStatus, UnlockedWrite 0]"])
         (simp_all add: s3_def s2_def two_plans_def demo_trace_def two_decided)
    moreover have "?step ?a s4" unfolding s4_def
      by (rule polls [where rest = "[DbCommitted OkStatus, UnlockedWrite 0]"])
         (simp_all add: perform_def s3_def s2_def two_plans_def demo_trace_def two_decided)
    ultimately show ?thesis by (metis converse_rtranclp_into_rtranclp rtranclp.rtrancl_refl)
  qed
  have p4: "performed s4 0 @ [DbCommitted OkStatus, UnlockedWrite 0] = demo_trace 0"
    "performed s4 1 @ [DbCommitted OkStatus, UnlockedWrite 0] = demo_trace 1"
    by (simp_all add: s4_def perform_def s3_def s2_def demo_trace_def)
  have 5: "?step\<^sup>*\<^sup>* s4 s5"
    using performs_many [of two_plans 0 s4 "[DbCommitted OkStatus, UnlockedWrite 0]" "[]" "''01''"] p4(1)
    by (simp add: s5_def two_plans_def)
  have 6: "?step\<^sup>*\<^sup>* s5 s6"
    using performs_many [of two_plans 1 s5 "[DbCommitted OkStatus, UnlockedWrite 0]" "[]" "''01''"] p4(2)
    by (simp add: s6_def s5_def two_plans_def)
  have "performed s6 = two_plans"
    by (rule ext) (auto simp: s6_def s5_def s4_def perform_def s3_def s2_def two_plans_def less_2_cases_iff)
  moreover have "the_chain s6 = two_chain" "decisions_read s6 = []"
    by (simp_all add: s6_def s5_def s4_def perform_def s3_def s2_def s1_def two_start_def)
  ultimately have "s6\<lparr>decisions_read := VOTING_DECISION_COMMIT # decisions_read s6\<rparr> = two_end" and
    "bc_GetVotingDecision js_stub ''01'' (the_chain s6) = Some (Inr VOTING_DECISION_COMMIT, the_chain s6)"
    using two_decided by (auto intro!: system.equality simp: two_end_def)
  then have "?step s6 two_end" using reads by metis
  with 1 2 3 4 5 6 show ?thesis by (meson rtranclp.rtrancl_into_rtrancl rtranclp_trans)
qed

text \<open>The coordinator that starts that run: its world is the chain.\<close>

definition chain_coord :: "(string, string, chain) coord_env" where
  "chain_coord = \<lparr>sha = \<lparr>SHA256_Init = Some [], SHA256_Update = (\<lambda>c s. Some (c @ s)), SHA256_Final = (\<lambda>_. Some [1])\<rparr>,
     coord_blockchain = js_stub, NewStub = (\<lambda>a. a), stub_Prepare = (\<lambda>_ _ _ ch. Some (grpc_OK, ch)),
     stub_Result = (\<lambda>_ _ _ _. None), coord_clock = (\<lambda>_. 0), default_presumed_abort_duration = 0, iter_subs = (\<lambda>xs. xs)\<rparr>"

definition put_at :: "string \<Rightarrow> operation" where
  "put_at a = \<lparr>op_namespace = \<lparr>ns_identifier = [], ns_address = a\<rparr>,
     op_type = PutOp \<lparr>put_key = ''k'', put_val = Constant (ConstantValue (Some 5))\<rparr>\<rparr>"

definition two_request :: commit_request where
  "two_request = \<lparr>client_transaction_id = ''1'', creq_transaction = [put_at ''a'', put_at ''b''],
     creq_config = \<lparr>config_abort_time = Some \<lparr>seconds = 100, nanos = 0\<rparr>\<rparr>\<rparr>"

definition two_sent :: "nat \<Rightarrow> prepare_request" where
  "two_sent i = \<lparr>req_transaction_id = ''01'', req_transaction = [put_at (if i = 0 then ''a'' else ''b'')],
     req_config = \<lparr>config_abort_time = Some \<lparr>seconds = 100, nanos = 0\<rparr>\<rparr>, participant = CohortIndex i\<rparr>"

lemma chain_coord_ok:
  "stubs_ok chain_coord new_coord_server" "on_chain chain_coord (\<lambda>ch. ch)"
  by (simp_all add: stubs_ok_def new_coord_server_def on_chain_def chain_coord_def)

lemma two_cohorts_run: "cohorts_run (\<lambda>_. two_env) [two_sent 0, two_sent 1] two_plans (\<lambda>_. CohortCommitted [])"
proof -
  have run: "\<exists>s w s' w'. metadata_by_transaction_id s ''01'' = None \<and>
      ProcessTransaction (traced two_env) (two_sent i) s (w, []) = Some (s', w', demo_trace i) \<and>
      final_response_by_transaction_id s' ''01'' = Some (CohortCommitted [])" for i
  proof -
    obtain s' w' where "ProcessTransaction demo_env (two_sent i) new_cohort_server ((mdb_empty, ()), []) =
        Some (s', w', demo_trace i)" "final_response_by_transaction_id s' ''01'' = Some (CohortCommitted [])"
      unfolding two_sent_def put_at_def using demo_run_commits_request by blast
    then show ?thesis
      by (intro exI [of _ new_cohort_server] exI [of _ "(mdb_empty, ())"] exI [of _ s'] exI [of _ w'] conjI)
         (simp_all add: demo_env_def two_env_def, simp add: new_cohort_server_def)
  qed
  have "[two_sent 0, two_sent 1] ! i = two_sent i" if "i < 2" for i
    using that by (auto simp: less_2_cases_iff)
  moreover have "req_transaction_id (two_sent i) = ''01''" for i by (simp add: two_sent_def)
  ultimately show ?thesis using run by (simp add: cohorts_run_def two_plans_def del: split_paired_Ex)
qed

lemma chain_coord_commits:
  obtains resp s' tr where "CommitAtomicTransaction (ctraced chain_coord) \<lparr>peer = ''p''\<rparr> two_request new_coord_server (genesis 1, []) =
      Some (grpc_OK, resp, s', the_chain two_start, tr)" "global_transaction_id resp = ''01''"
    "sent_requests tr = [two_sent 0, two_sent 1]"
proof -
  have "case CommitAtomicTransaction (ctraced chain_coord) \<lparr>peer = ''p''\<rparr> two_request new_coord_server (genesis 1, []) of
      Some (st, resp, s', ch', tr) \<Rightarrow> st = grpc_OK \<and> resp = \<lparr>global_transaction_id = ''01'',
          cresp_config = \<lparr>config_abort_time = Some \<lparr>seconds = 100, nanos = 0\<rparr>\<rparr>\<rparr> \<and>
        sent_requests tr = [two_sent 0, two_sent 1]
    | None \<Rightarrow> False" by code_simp
  then obtain resp s' ch' tr where c: "CommitAtomicTransaction (ctraced chain_coord) \<lparr>peer = ''p''\<rparr> two_request new_coord_server (genesis 1, []) =
      Some (grpc_OK, resp, s', ch', tr)"
    "resp = \<lparr>global_transaction_id = ''01'', cresp_config = \<lparr>config_abort_time = Some \<lparr>seconds = 100, nanos = 0\<rparr>\<rparr>\<rparr>"
    "sent_requests tr = [two_sent 0, two_sent 1]"
    by (auto split: option.splits)
  have "\<exists>e. bc_StartVoting js_stub ''01'' 100 (int 2) (genesis 1) = Some (e, ch')"
    using coordinator_starts(1) [OF c(1), where chain_of = "\<lambda>ch. ch" and n = 2] c(2,3) chain_coord_ok
    by (simp add: config_time_def valid_timestamp_def)
  then have "ch' = the_chain two_start" by (auto simp: two_start_def chain_run_def)
  with c that show thesis by simp
qed

subsection \<open>Agreement\<close>

text \<open>C1: Atomic commitment, from the coordinator's handler on. \<open>CommitAtomicTransaction\<close> sends prepare requests to
  \<open>n\<close> cohorts, more than one, and each cohort runs \<open>ProcessTransaction\<close> for the request that it was sent. However the
  cohorts, the chain and the coordinator interleave from then on, whatever calls fail, get lost or come
  late, whatever other transactions do: as soon as one cohort has tried to commit its database transaction, every
  cohort has cast its vote to commit and no cohort ever aborts its own, and the coordinator has not read a
  decision to abort.\<close>

theorem atomic_commitment:
  assumes "CommitAtomicTransaction (ctraced CE) context request s (w, []) = Some (st, resp, s', w', tr)"
    and "stubs_ok CE s" and "on_chain CE chain_of" and "chain_ok (chain_of w)"
    and "length (sent_requests tr) = n" and "1 < n" and "n < 2 ^ 32"
    and "cohorts_run E (sent_requests tr) plan res"
    and "(protocol_step (global_transaction_id resp) plan)\<^sup>*\<^sup>*
      \<lparr>the_chain = chain_of w', performed = (\<lambda>_. []), decisions_read = []\<rparr> \<sigma>"
    and "i < n" and "DbCommitted cst \<in> set (performed \<sigma> i)" and "j < n"
  shows "Voted (global_transaction_id resp) (int j) BALLOT_COMMIT \<in> begun plan \<sigma> j \<and>
    (\<forall>ast. DbAborted ast \<notin> set (performed \<sigma> j)) \<and> VOTING_DECISION_ABORT \<notin> set (decisions_read \<sigma>)"
  by (rule commit_unanimous [OF coordinator_participants [OF assms(1-8)] coordinator_opens(1) [OF assms(1-7)] assms(9-12)])

theorem atomic_commitment_witness:
  "\<exists>resp s' tr. CommitAtomicTransaction (ctraced chain_coord) \<lparr>peer = ''p''\<rparr> two_request new_coord_server (genesis 1, []) =
      Some (grpc_OK, resp, s', the_chain two_start, tr) \<and>
    DbCommitted OkStatus \<in> set (performed two_end 0) \<and>
    Voted (global_transaction_id resp) 1 BALLOT_COMMIT \<in> begun two_plans two_end 1"
proof -
  obtain resp s' tr where c: "CommitAtomicTransaction (ctraced chain_coord) \<lparr>peer = ''p''\<rparr> two_request new_coord_server (genesis 1, []) =
      Some (grpc_OK, resp, s', the_chain two_start, tr)" "global_transaction_id resp = ''01''"
    "sent_requests tr = [two_sent 0, two_sent 1]" by (rule chain_coord_commits)
  have com: "DbCommitted OkStatus \<in> set (performed two_end 0)" by (simp add: two_end_def two_plans_def demo_trace_def)
  have n: "length (sent_requests tr) = 2" using c(3) by simp
  have "Voted (global_transaction_id resp) (int 1) BALLOT_COMMIT \<in> begun two_plans two_end 1 \<and>
      (\<forall>ast. DbAborted ast \<notin> set (performed two_end 1)) \<and> VOTING_DECISION_ABORT \<notin> set (decisions_read two_end)"
    by (intro atomic_commitment [OF c(1) _ _ _ n, where chain_of = "\<lambda>ch. ch" and E = "\<lambda>_. two_env" and
          res = "\<lambda>_. CohortCommitted []" and i = 0])
       (use two_reach c(2,3) two_cohorts_run com chain_coord_ok in \<open>simp_all add: two_start_def\<close>)
  with c(1) com show ?thesis by auto
qed

text \<open>C2: All cohorts that finish agree: of two cohorts whose runs of \<open>ProcessTransaction\<close> have ended, either both
  recorded a committed result or both an aborted one, and if the coordinator has read a definite
  decision, it is the one that they recorded.\<close>

theorem finished_cohorts_agree:
  assumes "participants n tid E req plan res" and "vote_opened tid n \<sigma>0"
    and "(protocol_step tid plan)\<^sup>*\<^sup>* \<sigma>0 \<sigma>"
    and "i < n" and "performed \<sigma> i = plan i" and "j < n" and "performed \<sigma> j = plan j"
  shows "((\<exists>gs. res i = CohortCommitted gs) \<and> (\<exists>gs. res j = CohortCommitted gs) \<and>
      VOTING_DECISION_ABORT \<notin> set (decisions_read \<sigma>)) \<or>
    ((\<exists>a. res i = CohortAborted a) \<and> (\<exists>a. res j = CohortAborted a) \<and>
      VOTING_DECISION_COMMIT \<notin> set (decisions_read \<sigma>))"
proof -
  have inv: "protocol_inv n tid plan \<sigma>"
    by (rule inv_reachable [OF assms(3,2) participants_votes_own [OF assms(1)]])
  have "verdict tid \<sigma> = VOTING_DECISION_COMMIT \<Longrightarrow> VOTING_DECISION_ABORT \<notin> set (decisions_read \<sigma>)"
    "verdict tid \<sigma> \<noteq> VOTING_DECISION_COMMIT \<Longrightarrow> VOTING_DECISION_COMMIT \<notin> set (decisions_read \<sigma>)"
    using read_verdict [OF inv] by fastforce+
  with finished_verdict [OF inv assms(1,4,5)] finished_verdict [OF inv assms(1,6,7)] show ?thesis by blast
qed

theorem finished_cohorts_agree_witness:
  "performed two_end 0 = two_plans 0 \<and> VOTING_DECISION_COMMIT \<in> set (decisions_read two_end) \<and>
     VOTING_DECISION_ABORT \<notin> set (decisions_read two_end)"
  using finished_cohorts_agree [OF two_participants two_opened two_reach, of 0 1] by (simp add: two_end_def)

text \<open>C7: The coordinator's decision binds the cohorts: once it has read commit, every cohort has voted to commit and no
  cohort ever aborts, then or later; once it has read abort, no cohort ever commits.\<close>

theorem coordinator_decision_binds:
  assumes "participants n tid E req plan res" and "vote_opened tid n \<sigma>0"
    and "(protocol_step tid plan)\<^sup>*\<^sup>* \<sigma>0 \<sigma>" and "(protocol_step tid plan)\<^sup>*\<^sup>* \<sigma> \<sigma>'" and "i < n"
  shows "(VOTING_DECISION_COMMIT \<in> set (decisions_read \<sigma>) \<longrightarrow>
      Voted tid (int i) BALLOT_COMMIT \<in> begun plan \<sigma> i \<and> (\<forall>st. DbAborted st \<notin> set (performed \<sigma>' i))) \<and>
    (VOTING_DECISION_ABORT \<in> set (decisions_read \<sigma>) \<longrightarrow> (\<forall>st. DbCommitted st \<notin> set (performed \<sigma>' i)))"
proof -
  note own = participants_votes_own [OF assms(1)]
  have inv: "protocol_inv n tid plan \<sigma>" by (rule inv_reachable [OF assms(3,2) own])
  have inv': "protocol_inv n tid plan \<sigma>'" by (rule inv_reachable [OF rtranclp_trans [OF assms(3,4)] assms(2) own])
  have "set (decisions_read \<sigma>) \<subseteq> set (decisions_read \<sigma>')"
    using assms(4) by (induction rule: rtranclp_induct) (auto elim!: protocol_step.cases simp: perform_def)
  then have read: "verdict tid \<sigma> = d \<and> verdict tid \<sigma>' = d" if "d \<in> set (decisions_read \<sigma>)" "definite d" for d
    using that read_verdict [OF inv] read_verdict [OF inv'] by blast
  show ?thesis
    using read [of VOTING_DECISION_COMMIT] read [of VOTING_DECISION_ABORT] verdict_commit [OF inv _ assms(5)]
      aborted_verdict [OF inv' assms(1,5)] committed_verdict [OF inv' assms(1,5)] by fastforce
qed

theorem coordinator_decision_binds_witness:
  "VOTING_DECISION_COMMIT \<in> set (decisions_read two_end) \<and> Voted ''01'' 1 BALLOT_COMMIT \<in> begun two_plans two_end 1"
  using coordinator_decision_binds [OF two_participants two_opened two_reach rtranclp.rtrancl_refl, of 1]
  by (simp add: two_end_def)

subsection \<open>A unanimous vote commits\<close>

text \<open>C8: The protocol does not buy agreement by aborting: from the moment the contract holds a ballot to commit
  of every cohort, it answers commit to everybody who asks, whatever happens later (the deadline passes, votes
  are mined again, other transactions run); no cohort ever aborts its database transaction, the coordinator never reads
  an abort, and every cohort whose run ends has recorded a committed result.\<close>

theorem unanimous_votes_commit:
  assumes "participants n tid E req plan res" and "vote_opened tid n \<sigma>0"
    and "(protocol_step tid plan)\<^sup>*\<^sup>* \<sigma>0 \<sigma>" and "(protocol_step tid plan)\<^sup>*\<^sup>* \<sigma> \<sigma>'"
    and "\<forall>i < n. ballot_of (board_for (boards_of (the_chain \<sigma>)) tid) i = COMMIT"
  shows "bc_GetVotingDecision js_stub tid (the_chain \<sigma>') = Some (Inr VOTING_DECISION_COMMIT, the_chain \<sigma>') \<and>
    VOTING_DECISION_ABORT \<notin> set (decisions_read \<sigma>') \<and>
    (\<forall>i < n. (\<forall>st. DbAborted st \<notin> set (performed \<sigma>' i)) \<and>
      (performed \<sigma>' i = plan i \<longrightarrow> (\<exists>gs. res i = CohortCommitted gs)))"
proof -
  note own = participants_votes_own [OF assms(1)]
  have inv: "protocol_inv n tid plan \<sigma>" by (rule inv_reachable [OF assms(3,2) own])
  then have "verdict tid \<sigma> = VOTING_DECISION_COMMIT"
    using assms(5) by (simp add: protocol_inv_def Let_def verdict_def board_decision_def)
  with verdict_stable [OF assms(4) inv own]
  have inv': "protocol_inv n tid plan \<sigma>'" and commit: "verdict tid \<sigma>' = VOTING_DECISION_COMMIT" by simp_all
  have "bc_GetVotingDecision js_stub tid (the_chain \<sigma>') = Some (Inr VOTING_DECISION_COMMIT, the_chain \<sigma>')"
    using inv' commit decision_answer [of "the_chain \<sigma>'" tid] by (simp add: protocol_inv_def Let_def verdict_def)
  moreover have "VOTING_DECISION_ABORT \<notin> set (decisions_read \<sigma>')" using read_verdict [OF inv'] commit by fastforce
  ultimately show ?thesis
    using aborted_verdict [OF inv' assms(1)] finished_verdict(1) [OF inv' assms(1)] commit by blast
qed

theorem unanimous_votes_commit_witness:
  "bc_GetVotingDecision js_stub ''01'' (the_chain two_end) = Some (Inr VOTING_DECISION_COMMIT, the_chain two_end) \<and>
    performed two_end 1 = two_plans 1 \<and> (\<forall>st. DbAborted st \<notin> set (performed two_end 1))"
proof -
  have "\<forall>i < 2. ballot_of (board_for (boards_of (the_chain two_end)) ''01'') i = COMMIT"
    using two_board by (simp add: two_end_def less_2_cases_iff)
  from unanimous_votes_commit [OF two_participants two_opened two_reach rtranclp.rtrancl_refl this]
  show ?thesis by (simp add: two_end_def)
qed

subsection \<open>The protocol implements its specification\<close>

text \<open>C3: The interleaved system implements atomic commitment: whatever the cohorts, the contract and the coordinator
  do, the promises, the decision, the ends of the database transactions and what the coordinator was told
  change only as the abstract machine \<open>commitment_step\<close> allows, from its initial state on. That machine decides once, to commit
  only when every participant has promised to commit, and every participant that ends does so as decided, or aborts
  because it promised to abort itself.\<close>

theorem protocol_implements_commitment:
  assumes "participants n tid E req plan res" and "vote_opened tid n \<sigma>0"
    and "(protocol_step tid plan)\<^sup>*\<^sup>* \<sigma>0 \<sigma>" and "(protocol_step tid plan)\<^sup>*\<^sup>* \<sigma> \<sigma>'"
  shows "(commitment_step n)\<^sup>*\<^sup>* no_commitment (commitment_of n tid plan \<sigma>) \<and>
    (commitment_step n)\<^sup>*\<^sup>* (commitment_of n tid plan \<sigma>) (commitment_of n tid plan \<sigma>')"
proof -
  have "protocol_inv n tid plan \<sigma>0 \<and> participants n tid E req plan res" using inv_opened [OF assms(2)] assms(1) by simp
  from implemented.run_from [OF assms(3) this opened_simulated [OF assms(2)]] implemented.run_simulated [OF assms(3) this]
  show ?thesis using implemented.run_simulated [OF assms(4)] by blast
qed

theorem protocol_implements_commitment_witness:
  "(commitment_step 2)\<^sup>*\<^sup>* no_commitment (commitment_of 2 ''01'' two_plans two_end) \<and>
    ended (commitment_of 2 ''01'' two_plans two_end) 0 = Some Commit_all \<and>
    ended (commitment_of 2 ''01'' two_plans two_end) 1 = Some Commit_all \<and>
    told (commitment_of 2 ''01'' two_plans two_end) = {Commit_all}"
proof -
  have "ending (two_plans i) = Some Commit_all" if "i < 2" for i
    using that by (auto simp: ending_def two_plans_def demo_trace_def)
  then show ?thesis
    using protocol_implements_commitment [OF two_participants two_opened two_reach rtranclp.rtrancl_refl]
    by (auto simp: commitment_of_def two_end_def)
qed

subsection \<open>The effect of the whole\<close>

text \<open>C4: A transaction over several databases is executed as if they were one: if every cohort runs its part on LMDB
  alone and with calls that work, each run returns; with the decision to commit (or one cohort only) the databases
  and the recorded answers are exactly those of executing the client's operations one after the other on all databases
  together; with any other decision every database is as before and every cohort recorded an abort;
  and if that execution fails, then some cohort fails, aborts whatever the decision and leaves its database as
  it was.\<close>

theorem distributed_equals_sequential:
  assumes "CommitAtomicTransaction (ctraced CE) context request s (w, []) = Some (st, resp, s', w', tr)"
    and "stubs_ok CE s" and "perm_order (iter_subs CE)"
    and "reqs = sent_requests tr" and "length reqs = n" and "0 < n" and "tid = global_transaction_id resp"
    and "lmdb lib committed view writer_free opened"
    and "\<And>i. i < n \<Longrightarrow> working_cohort lib committed writer_free opened (path i) (B i) resp dec (c i) (v i)"
    and "\<And>i. i < n \<Longrightarrow> decode (committed (v i)) = D (part_address (reqs ! i))"
    and "list_all (op_key_ok valid_key) (creq_transaction request)"
  shows "\<exists>c' v' x'.
    (\<forall>i < n. ProcessTransaction (seq_env lib (path i) (B i)) (reqs ! i) (c i) (v i, x i) = Some (c' i, v' i, x' i)) \<and>
    (case exec_all (InternalError ''Get failed.'') (creq_transaction request) D of
       Inl e \<Rightarrow> \<exists>i < n. part_undone committed tid (v i) (c' i) (v' i)
     | Inr (D', gs) \<Rightarrow> n = 1 \<or> dec = VOTING_DECISION_COMMIT \<longrightarrow>
         (\<forall>i < n. part_done committed tid D' gs (part_address (reqs ! i)) (c' i) (v' i))) \<and>
    (n \<noteq> 1 \<and> dec \<noteq> VOTING_DECISION_COMMIT \<longrightarrow> (\<forall>i < n. part_undone committed tid (v i) (c' i) (v' i)))"
proof -
  let ?e = "InternalError ''Get failed.''" and ?ops = "creq_transaction request" and ?a = "\<lambda>i. part_address (reqs ! i)"
  have "sent_requests tr \<noteq> []" using assms(4-6) by auto
  note sent = sent_parts [OF assms(1-3) this, folded assms(4), unfolded assms(5), folded assms(7)]
  have "\<exists>c' v' x'. ProcessTransaction (seq_env lib (path i) (B i)) (reqs ! i) (c i) (v i, x i) = Some (c', v', x') \<and>
      (\<forall>D' gs. exec_all ?e ?ops D = Inr (D', gs) \<longrightarrow> n = 1 \<or> dec = VOTING_DECISION_COMMIT \<longrightarrow>
        part_done committed tid D' gs (?a i) c' v') \<and>
      ((\<exists>e. exec_ops ?e (ops_for (?a i) ?ops) (D (?a i)) = Inl e) \<or> n \<noteq> 1 \<and> dec \<noteq> VOTING_DECISION_COMMIT \<longrightarrow>
        part_undone committed tid (v i) c' v')" if "i < n" for i
    using part_runs [where D = D and a = "?a i", OF assms(8) assms(9) [OF that] assms(10) [OF that] assms(11), of "reqs ! i" n "x i"]
      sent(2) [of "reqs ! i"] that assms(5,7) by simp
  then obtain c' v' x' where run: "\<And>i. i < n \<Longrightarrow>
      ProcessTransaction (seq_env lib (path i) (B i)) (reqs ! i) (c i) (v i, x i) = Some (c' i, v' i, x' i) \<and>
      (\<forall>D' gs. exec_all ?e ?ops D = Inr (D', gs) \<longrightarrow> n = 1 \<or> dec = VOTING_DECISION_COMMIT \<longrightarrow>
        part_done committed tid D' gs (?a i) (c' i) (v' i)) \<and>
      ((\<exists>e. exec_ops ?e (ops_for (?a i) ?ops) (D (?a i)) = Inl e) \<or> n \<noteq> 1 \<and> dec \<noteq> VOTING_DECISION_COMMIT \<longrightarrow>
        part_undone committed tid (v i) (c' i) (v' i))"
    by metis
  have "\<exists>i < n. part_undone committed tid (v i) (c' i) (v' i)" if fails: "exec_all ?e ?ops D = Inl e" for e
  proof -
    obtain a where a: "a \<in> part_address ` set reqs" "exec_ops ?e (ops_for a ?ops) (D a) = Inl e"
      using exec_all_error [OF fails] unfolding sent(1) by blast
    then obtain i where "i < length reqs" "?a i = a" by (auto simp: in_set_conv_nth)
    with a(2) have "i < n" "exec_ops ?e (ops_for (?a i) ?ops) (D (?a i)) = Inl e" using assms(5) by simp_all
    with run show ?thesis by blast
  qed
  with run show ?thesis by (intro exI [of _ c'] exI [of _ v'] exI [of _ x']) (auto split: sum.split)
qed

theorem distributed_equals_sequential_witness:
  "\<exists>c' v' x'. \<forall>i < 2. ProcessTransaction two_env ([two_sent 0, two_sent 1] ! i) new_cohort_server (mdb_empty, ()) =
      Some (c' i, v' i, x' i) \<and> decode (mdb_data (v' i)) ''k'' = Some 5 \<and>
    final_response_by_transaction_id (c' i) ''01'' = Some (CohortCommitted [])"
proof -
  obtain resp s' tr where c: "CommitAtomicTransaction (ctraced chain_coord) \<lparr>peer = ''p''\<rparr> two_request new_coord_server (genesis 1, []) =
      Some (grpc_OK, resp, s', the_chain two_start, tr)" "global_transaction_id resp = ''01''"
    "sent_requests tr = [two_sent 0, two_sent 1]" by (rule chain_coord_commits)
  let ?D = "\<lambda>_. decode (mdb_data mdb_empty)" and ?reqs = "[two_sent 0, two_sent 1]"
  have working: "working_cohort mdb_lib mdb_data (\<lambda>w. mdb_writer w = None) (\<lambda>_ _. True) ''p'' (base_env (quiet_stub VOTING_DECISION_COMMIT))
      resp VOTING_DECISION_COMMIT new_cohort_server mdb_empty"
    by (simp add: working_cohort_def creatable_empty quiet_stub_wait) (simp add: new_cohort_server_def)
  have keys: "list_all (op_key_ok valid_key) (creq_transaction two_request)"
    by (simp add: two_request_def put_at_def op_key_ok_def valid_key_def)
  obtain D' where D': "exec_all (InternalError ''Get failed.'') (creq_transaction two_request) ?D = Inr (D', [])"
    "\<forall>i < 2. D' (part_address (?reqs ! i)) ''k'' = Some 5"
    by (auto simp: two_request_def put_at_def exec_op_def part_address_def two_sent_def less_2_cases_iff const_int64.simps)
  obtain c' v' x' where run: "\<forall>i < 2. ProcessTransaction (seq_env mdb_lib ''p'' (base_env (quiet_stub VOTING_DECISION_COMMIT)))
      (?reqs ! i) new_cohort_server (mdb_empty, ()) = Some (c' i, v' i, x' i)"
    and parts: "\<forall>i < 2. part_done mdb_data ''01'' D' [] (part_address (?reqs ! i)) (c' i) (v' i)"
    using distributed_equals_sequential [OF c(1) _ _ c(3) [symmetric] _ _ c(2) [symmetric] mdb.lmdb_axioms working, of 2 ?D "\<lambda>_. ()"]
      chain_coord_ok(1) keys D'(1) by (auto simp: chain_coord_def)
  show ?thesis
    using run parts D'(2) unfolding part_done_def answers_of_def two_env_def by (intro exI [of _ c'] exI [of _ v'] exI [of _ x']) auto
qed

subsection \<open>Nobody waits beyond the deadline\<close>




end
