(* ===== verification/Cohort_State.thy ===== *)
theory Cohort_State
  imports Cohort_Trace
begin

text \<open>
  The state that the cohort keeps between transactions: the lock table, the metadata of the
  transactions it works on, the results and the queue of the thread pool. Every operation keeps
  its invariant, and a run of \<open>ProcessTransaction\<close> publishes one result and touches no other.
\<close>

subsection \<open>What a transaction changes\<close>

lemma grows_set_metadata: "lock_table_ok (set_metadata tid m s) = lock_table_ok s"
  by (simp add: lock_table_ok_def set_metadata_def)

lemma unlock_keys_state:
  assumes "unlock_keys unlock keys (s, w) = (s', w')"
  shows "grows s s'"
  using assms
proof (induction keys arbitrary: s w)
  case (Cons k keys)
  obtain mx s1 where g: "GetLock k s = (mx, s1)" by fastforce
  with Cons.prems have "unlock_keys unlock keys (s1, unlock mx w) = (s', w')" by (simp add: unlock_keys_def)
  from Cons.IH [OF this] grows_GetLock [of s k] g show ?case by (auto intro: grows_trans)
qed (simp add: unlock_keys_def)

text \<open>The server after a transaction: one result more, its metadata deleted, nothing else.\<close>

definition published :: "string \<Rightarrow> cohort_result \<Rightarrow> 'd cohort_server \<Rightarrow> 'd cohort_server \<Rightarrow> bool" where
  "published tid r s s' \<longleftrightarrow>
     final_response_by_transaction_id s' = (final_response_by_transaction_id s)(tid \<mapsto> r) \<and>
     metadata_by_transaction_id s' = (metadata_by_transaction_id s)(tid := None) \<and>
     thread_pool_tasks s' = thread_pool_tasks s \<and> (lock_table_ok s \<longrightarrow> lock_table_ok s') \<and>
     (\<forall>k mx. locks_by_key s k = Some mx \<longrightarrow> locks_by_key s' k = Some mx)"

lemma Release_published:
  assumes "ReleaseLocksAndDeleteMetadata E tid s w = (s', w')"
  shows "published tid (md_response (metadata_of s tid)) s s'"
proof -
  let ?m = "metadata_of s tid"
  obtain s1 w1 where u1: "unlock_keys (WriterUnlock E) (write_lock_keys ?m) (s, w) = (s1, w1)" by fastforce
  obtain s2 w2 where u2: "unlock_keys (ReaderUnlock E) (read_lock_keys ?m) (s1, w1) = (s2, w2)" by fastforce
  have g: "grows s s2" using grows_trans [OF unlock_keys_state [OF u1] unlock_keys_state [OF u2]] .
  have "s' = s2\<lparr>final_response_by_transaction_id := (final_response_by_transaction_id s2)(tid \<mapsto> md_response ?m),
      metadata_by_transaction_id := (metadata_by_transaction_id s2)(tid := None)\<rparr>"
    using assms by (simp add: ReleaseLocksAndDeleteMetadata_def Let_def u1 u2)
  moreover have "lock_table_ok (s2\<lparr>final_response_by_transaction_id := f, metadata_by_transaction_id := g\<rparr>) = lock_table_ok s2"
    for f g by (simp add: lock_table_ok_def)
  ultimately show ?thesis using g by (simp add: published_def grows_def)
qed

lemma published_set_metadata:
  "published tid r (set_metadata tid m s) s' = published tid r s s'"
  by (simp add: published_def grows_set_metadata) (simp add: set_metadata_def)

lemma published_grows: "grows s s1 \<Longrightarrow> published tid r s1 s' \<Longrightarrow> published tid r s s'"
  by (simp add: published_def grows_def)

definition is_final :: "cohort_result \<Rightarrow> bool" where
  "is_final r \<longleftrightarrow> (\<exists>gs. r = CohortCommitted gs) \<or> (\<exists>a. r = CohortAborted a)"

lemma AbortTransaction_published:
  assumes "AbortTransaction E tid i ast s w = Some (s', w')"
  shows "\<exists>r. is_final r \<and> published tid r s s'"
proof -
  from assms obtain reason d w1 where
    rel: "ReleaseLocksAndDeleteMetadata E tid
      (set_metadata tid ((metadata_of s tid)\<lparr>md_response := CohortAborted reason, md_db := Some d\<rparr>) s) w1 = (s', w')"
    unfolding AbortTransaction_def by (cases ast) (auto elim!: bind_elims simp: with_db_def)
  from Release_published [OF rel] show ?thesis
    by (auto simp: published_set_metadata is_final_def)
qed

lemma CommitTransaction_published:
  assumes "CommitTransaction E tid s w = Some (s', w')"
  shows "\<exists>r. is_final r \<and> published tid r s s'"
proof -
  from assms obtain m w1 where
    rel: "ReleaseLocksAndDeleteMetadata E tid (set_metadata tid (m\<lparr>md_response := mutable_committed (md_response m)\<rparr>) s) w1 = (s', w')"
    unfolding CommitTransaction_def by (auto elim!: bind_elims)
  from Release_published [OF rel] show ?thesis
    by (auto simp: published_set_metadata is_final_def mutable_committed_eq)
qed

lemma finish_published:
  assumes "finish E req st s w = Some (s', w')"
  shows "\<exists>r. is_final r \<and> published (req_transaction_id req) r s s'"
  using assms unfolding finish_def
  by (auto elim!: bind_elims simp: Let_def split: prod.splits if_splits
      dest: AbortTransaction_published CommitTransaction_published)

lemma ProcessTransactionInDb_grows:
  assumes "ProcessTransactionInDb E ops dl m s w = Some (st, m', s', w')"
  shows "grows s s'"
  using assms unfolding ProcessTransactionInDb_def
  by (auto elim!: bind_elims dest: AcquireDbLocks_grows)

lemma ProcessTransaction_publishes:
  assumes "ProcessTransaction E req s w = Some (s', w')"
  shows "\<exists>r. is_final r \<and> published (req_transaction_id req) r s s'"
proof -
  from assms obtain st m s1 w1 where "grows s s1"
    and "finish E req st (set_metadata (req_transaction_id req) m s1) w1 = Some (s', w')"
    unfolding ProcessTransaction_finish by (auto elim!: bind_elims dest: ProcessTransactionInDb_grows)
  then show ?thesis by (auto dest!: finish_published simp: published_set_metadata dest: published_grows)
qed

subsection \<open>Runs of the server\<close>

text \<open>
  The server takes prepare requests at any time; a free thread takes the next task and runs it to
  its end; the world changes on its own.
\<close>

inductive cohort_step :: "('d, 'w) cohort_env \<Rightarrow> 'd cohort_server \<times> 'w \<Rightarrow> 'd cohort_server \<times> 'w \<Rightarrow> bool" for E where
  prepare: "PrepareTransaction req s = (st, s') \<Longrightarrow> cohort_step E (s, w) (s', w)"
| task: "run_next_task E s w = Some (s', w') \<Longrightarrow> cohort_step E (s, w) (s', w')"
| world: "cohort_step E (s, w) (s, w')"

inductive_cases cohort_stepE: "cohort_step E (s, w) (s', w')"

definition cohort_inv :: "'d cohort_server \<Rightarrow> bool" where
  "cohort_inv s \<longleftrightarrow> lock_table_ok s \<and> metadata_by_transaction_id s = Map.empty \<and>
     (\<forall>tid r. final_response_by_transaction_id s tid = Some r \<longrightarrow> is_final r)"

lemma cohort_inv_new [simp]: "cohort_inv new_cohort_server"
  by (simp add: cohort_inv_def) (simp add: new_cohort_server_def)

lemma run_next_task_inv:
  assumes "run_next_task E s w = Some (s', w')" and "cohort_inv s"
  shows "cohort_inv s'"
proof (cases "thread_pool_tasks s")
  case Nil
  with assms show ?thesis by (simp add: run_next_task_def)
next
  case (Cons req rest)
  with assms(1) have "ProcessTransaction E req (s\<lparr>thread_pool_tasks := rest\<rparr>) w = Some (s', w')"
    by (simp add: run_next_task_def)
  from ProcessTransaction_publishes [OF this] assms(2) show ?thesis
    by (auto simp: published_def cohort_inv_def lock_table_ok_def split: if_splits)
qed

lemma cohort_inv_step:
  assumes "cohort_step E (s, w) (s', w')" and "cohort_inv s"
  shows "cohort_inv s'"
  using assms by (auto elim!: cohort_stepE simp: PrepareTransaction_def dest: run_next_task_inv)
     (simp add: cohort_inv_def lock_table_ok_def)

lemma cohort_inv_steps:
  assumes "(cohort_step E)\<^sup>*\<^sup>* x y" and "cohort_inv (fst x)"
  shows "cohort_inv (fst y)"
  using assms by (induction rule: rtranclp_induct) (auto dest: cohort_inv_step)

end
