(* ===== verification/Cohort_Locked_Run.thy ===== *)
theory Cohort_Locked_Run
  imports Cohort_State "HOL-Library.Sublist"
begin

text \<open>
  The order of the events of a run of \<open>ProcessTransaction\<close> when every mutex is granted in the end: first
  all locks, in the iteration order of the two sets of keys, then the work, then all unlocks.
  \<open>LockWhenWithDeadline\<close> returns whether its condition holds; the cohort passes a condition that is
  always true, so the call returns true, whatever the deadline.
\<close>

definition locks_granted :: "('d, 'w) cohort_env \<Rightarrow> bool" where
  "locks_granted E \<longleftrightarrow> (\<forall>mx dl w w'.
     ReaderLockWhenWithDeadline E mx dl w \<noteq> Some (False, w') \<and>
     WriterLockWhenWithDeadline E mx dl w \<noteq> Some (False, w'))"

lemma granted_read:
  "ReaderLockWhenWithDeadline (traced E) mx dl (w, tr) = Some (got, x) \<Longrightarrow> locks_granted E \<Longrightarrow>
   (\<And>w'. got \<Longrightarrow> x = (w', tr @ [LockedRead mx]) \<Longrightarrow> P) \<Longrightarrow> P"
  by (cases got) (auto simp: traced_def locks_granted_def)

lemma granted_write:
  "WriterLockWhenWithDeadline (traced E) mx dl (w, tr) = Some (got, x) \<Longrightarrow> locks_granted E \<Longrightarrow>
   (\<And>w'. got \<Longrightarrow> x = (w', tr @ [LockedWrite mx]) \<Longrightarrow> P) \<Longrightarrow> P"
  by (cases got) (auto simp: traced_def locks_granted_def)

subsection \<open>Locking\<close>

text \<open>The mutexes of the keys, as the lock table \<open>L\<close> knows them.\<close>

definition in_table :: "(string \<Rightarrow> nat) \<Rightarrow> 'd cohort_server \<Rightarrow> bool" where
  "in_table L s \<longleftrightarrow> (\<forall>k mx. locks_by_key s k = Some mx \<longrightarrow> L k = mx)"

lemma in_table_grows: "in_table L s' \<Longrightarrow> grows s s' \<Longrightarrow> in_table L s"
  by (simp add: in_table_def growsD)

lemma lock_for_read_order:
  assumes "lock_for_read (traced E) dl keys (m, s, w, tr) = Some (st, m', s', w', tr')"
    and "locks_granted E" and "in_table L s'"
  shows "absl_ok st \<and> tr' = tr @ map (LockedRead \<circ> L) keys"
  using assms(1)
proof (induction keys arbitrary: m s w tr)
  case (Cons k keys)
  obtain mx s1 where g: "GetLock k s = (mx, s1)" by fastforce
  from Cons.prems g obtain got x where l: "ReaderLockWhenWithDeadline (traced E) mx dl (w, tr) = Some (got, x)"
    by (cases "ReaderLockWhenWithDeadline (traced E) mx dl (w, tr)") auto
  from granted_read [OF l assms(2)] obtain w1 where got "x = (w1, tr @ [LockedRead mx])" by blast
  with Cons.prems g l have rest: "lock_for_read (traced E) dl keys
      (m\<lparr>read_lock_keys := read_lock_keys m @ [k]\<rparr>, s1, w1, tr @ [LockedRead mx]) = Some (st, m', s', w', tr')"
    by simp
  have "locks_by_key s1 k = Some mx" using GetLock_maps [where s = s and k = k] g by simp
  then have "L k = mx" using lock_for_read_result [OF rest] assms(3) by (auto simp: in_table_def dest: growsD)
  with Cons.IH [OF rest] show ?case by simp
qed simp

lemma lock_for_write_order:
  assumes "lock_for_write (traced E) dl keys (m, s, w, tr) = Some (st, m', s', w', tr')"
    and "locks_granted E" and "in_table L s'"
  shows "absl_ok st \<and> tr' = tr @ map (LockedWrite \<circ> L) keys"
  using assms(1)
proof (induction keys arbitrary: m s w tr)
  case (Cons k keys)
  obtain mx s1 where g: "GetLock k s = (mx, s1)" by fastforce
  from Cons.prems g obtain got x where l: "WriterLockWhenWithDeadline (traced E) mx dl (w, tr) = Some (got, x)"
    by (cases "WriterLockWhenWithDeadline (traced E) mx dl (w, tr)") auto
  from granted_write [OF l assms(2)] obtain w1 where got "x = (w1, tr @ [LockedWrite mx])" by blast
  with Cons.prems g l have rest: "lock_for_write (traced E) dl keys
      (m\<lparr>write_lock_keys := write_lock_keys m @ [k]\<rparr>, s1, w1, tr @ [LockedWrite mx]) = Some (st, m', s', w', tr')"
    by simp
  have "locks_by_key s1 k = Some mx" using GetLock_maps [where s = s and k = k] g by simp
  then have "L k = mx" using lock_for_write_result [OF rest] assms(3) by (auto simp: in_table_def dest: growsD)
  with Cons.IH [OF rest] show ?case by simp
qed simp

text \<open>
  The lock events of a transaction. \<open>c\<close> says whether the database runs write transactions side by
  side.
\<close>

definition lock_events :: "bool \<Rightarrow> (string list \<Rightarrow> string list) \<Rightarrow> (string \<Rightarrow> nat) \<Rightarrow> transaction \<Rightarrow> event list" where
  "lock_events c iter L ops =
     (if c then (let (wk, rk) = split_keys ops [] [] in
                 map (LockedRead \<circ> L) (iter rk) @ map (LockedWrite \<circ> L) (iter wk))
      else if list_ex has_put ops then [LockedWrite whole_db_mutex]
      else if list_ex has_get ops then [LockedRead whole_db_mutex] else [])"

lemma AcquireWholeDbLock_order:
  assumes "AcquireWholeDbLock (traced E) ops dl m (w, tr) = Some (st, m', w', tr')" and g: "locks_granted E"
  shows "absl_ok st \<and> tr' = tr @ lock_events False iter L ops"
proof (cases "list_ex has_put ops \<or> list_ex has_get ops")
  case False
  with assms(1) show ?thesis
    by (auto simp: AcquireWholeDbLock_def scan_ops_eq lock_events_def list_ex_iff simp del: has_put.simps has_get.simps)
next
  case True
  let ?lock = "if list_ex has_put ops then WriterLockWhenWithDeadline (traced E) else ReaderLockWhenWithDeadline (traced E)"
  from assms(1) True obtain got x where l: "?lock whole_db_mutex dl (w, tr) = Some (got, x)"
    by (cases "?lock whole_db_mutex dl (w, tr)")
       (auto simp: AcquireWholeDbLock_def scan_ops_eq list_ex_iff simp del: has_put.simps has_get.simps split: if_splits)
  obtain w1 where "got" "x = (w1, tr @ lock_events False iter L ops)"
  proof (cases "list_ex has_put ops")
    case True
    with l have "WriterLockWhenWithDeadline (traced E) whole_db_mutex dl (w, tr) = Some (got, x)" by simp
    with True that show thesis by (auto elim: granted_write [OF _ g] simp: lock_events_def)
  next
    case False
    with l have "ReaderLockWhenWithDeadline (traced E) whole_db_mutex dl (w, tr) = Some (got, x)" by simp
    with False True that show thesis by (auto elim: granted_read [OF _ g] simp: lock_events_def)
  qed
  with assms(1) l True show ?thesis
    by (auto simp: AcquireWholeDbLock_def scan_ops_eq list_ex_iff simp del: has_put.simps has_get.simps split: if_splits)
qed

lemma AcquireDbLocks_order:
  assumes acq: "AcquireDbLocks (traced E) ops dl m s (w, tr) = Some (st, m', s', w', tr')"
    and "locks_granted E" and "in_table L s'" and c: "\<And>d. SupportsConcurrentWrites (db_ops E) d = c"
  shows "absl_ok st \<and> tr' = tr @ lock_events c (iter_keys E) L ops"
proof -
  obtain d where d: "md_db m = Some d" using acq by (auto simp: AcquireDbLocks_def elim!: bind_elims)
  obtain wk rk where sk: "split_keys ops [] [] = (wk, rk)" by fastforce
  show ?thesis
  proof (cases c)
    case False
    with acq c d have "AcquireWholeDbLock (traced E) ops dl m (w, tr) = Some (st, m', w', tr')"
      by (auto simp: AcquireDbLocks_def elim!: bind_elims)
    from AcquireWholeDbLock_order [OF this assms(2)] False show ?thesis by simp
  next
    case True
    with acq c d sk have "return_if_error (lock_for_read (traced E) dl (iter_keys E rk) (m, s, w, tr))
        (lock_for_write (traced E) dl (iter_keys E wk)) = Some (st, m', s', w', tr')"
      by (auto simp: AcquireDbLocks_def)
    then obtain st1 m1 s1 w1 tr1 where r: "lock_for_read (traced E) dl (iter_keys E rk) (m, s, w, tr) = Some (st1, m1, s1, w1, tr1)"
      and wr: "if absl_ok st1 then lock_for_write (traced E) dl (iter_keys E wk) (m1, s1, w1, tr1) = Some (st, m', s', w', tr')
        else s1 = s'"
      by (auto elim!: bind_elims)
    have "in_table L s1"
      using wr assms(3) by (auto split: if_splits dest!: lock_for_write_result intro: in_table_grows)
    from lock_for_read_order [OF r assms(2) this]
    have rd: "absl_ok st1" "tr1 = tr @ map (LockedRead \<circ> L) (iter_keys E rk)" by simp_all
    with wr have "lock_for_write (traced E) dl (iter_keys E wk) (m1, s1, w1, tr1) = Some (st, m', s', w', tr')" by simp
    from lock_for_write_order [OF this assms(2,3)] rd True sk show ?thesis by (simp add: lock_events_def)
  qed
qed

subsection \<open>The whole run\<close>

lemma is_unlock_not_lock: "is_unlock e \<Longrightarrow> \<not> is_lock e"
  by (cases e) auto

lemma is_work_not_lock: "is_work e \<Longrightarrow> \<not> is_lock e \<and> \<not> is_unlock e"
  by (cases e) auto

text \<open>A run first does what it does in the database, then finishes; the events only grow.\<close>

lemma finish_extends:
  assumes ret: "finish (traced E) req st (set_metadata (req_transaction_id req) m s) (w, tr) = Some (s', w', tr')"
    and known: "keys_known m s"
  shows "prefix tr tr'"
proof -
  let ?s = "set_metadata (req_transaction_id req) m s"
  have "keys_known (metadata_of ?s (req_transaction_id req)) ?s" using known by simp
  note ends = AbortTransaction_traced [OF _ this] CommitTransaction_traced [OF _ this]
  have ab: "prefix t tr'" if "AbortTransaction (traced E) (req_transaction_id req) i ast ?s (x, t) = Some (s', w', tr')"
    for i ast x t using ends(1) [OF that] by auto
  have co: "prefix t tr'" if "CommitTransaction (traced E) (req_transaction_id req) ?s (x, t) = Some (s', w', tr')"
    for x t using ends(2) [OF that] by auto
  have pe: "prefix t t'" if "PersistTransaction (traced E) req ?s (x, t) = (pst, x', t')" for pst x x' t t'
    using PersistTransaction_traced [OF that] by (auto simp: extends_def)
  obtain pst w2 tr2 where persist: "PersistTransaction (traced E) req ?s (w, tr) = (pst, w2, tr2)"
    by (metis prod_cases3)
  have voted: "prefix tr2 tr'"
    if "bc_Vote (traced_stub (blockchain_stub E)) (req_transaction_id req) (int (cohort_index req)) BALLOT_COMMIT (w2, tr2) =
        Some (st1, x)"
      and "WaitForBlockchainDecision (traced E) (req_transaction_id req) t False x = Some (dec, y)"
      and "(if dec = VOTING_DECISION_COMMIT then CommitTransaction (traced E) (req_transaction_id req) ?s y
        else AbortTransaction (traced E) (req_transaction_id req) (int (cohort_index req)) None ?s y) = Some (s', w', tr')"
    for st1 x t dec y
  proof -
    from that(1) obtain w3 where x: "x = (w3, tr2 @ [own_vote req BALLOT_COMMIT])" by (auto elim: traced_vote)
    obtain w4 tr4 where y: "y = (w4, tr4)" by fastforce
    from Wait_traced [OF that(2) [unfolded x y]] have "prefix tr2 tr4" by (auto simp: prefix_def)
    moreover have "prefix tr4 tr'" using that(3) ab co by (auto simp: y split: if_splits)
    ultimately show ?thesis by (rule prefix_order.trans)
  qed
  from ret persist ab co pe [OF persist] voted show ?thesis
    by (auto simp: finish_def Let_def elim!: bind_returns bind_pair_returns split: if_splits
        intro: prefix_order.trans)
qed

lemma commit_tries_events:
  assumes "commit_tries es"
  shows "\<exists>es0 st. es = es0 @ [DbCommitted st] \<and> absl_ok st \<and> (\<forall>e \<in> set es0. \<exists>st. e = DbCommitted st \<and> \<not> absl_ok st)"
  using assms
proof (induction es rule: commit_tries.induct)
  case (1 st es)
  show ?case
  proof (cases "absl_ok st")
    case True
    with 1 show ?thesis by (intro exI [of _ "[]"]) auto
  next
    case False
    with 1 obtain es0 st' where "es = es0 @ [DbCommitted st']" "absl_ok st'"
      "\<forall>e \<in> set es0. \<exists>st. e = DbCommitted st \<and> \<not> absl_ok st" by auto
    with False show ?thesis by (intro exI [of _ "DbCommitted st # es0"]) auto
  qed
qed simp_all

lemma cohort_run_no_locks:
  assumes "cohort_run req fin committed" and "e \<in> set fin"
  shows "\<not> is_lock e \<and> \<not> is_unlock e"
proof -
  have ps: "\<not> is_lock e \<and> \<not> is_unlock e" if "undecided tid e" for tid e using that by (cases e) auto
  have es: "\<not> is_lock e \<and> \<not> is_unlock e" if "commit_tries es" "e \<in> set es" for es e
    using commit_tries_events [OF that(1)] that(2) by fastforce
  from assms show ?thesis by (cases rule: cohort_run.cases) (auto dest: ps es)
qed

text \<open>
  A run that takes the locks \<open>ls\<close>: the locks first, then no lock and no unlock, then every unlock.
\<close>

definition locked_run :: "event list \<Rightarrow> event list \<Rightarrow> bool" where
  "locked_run ls tr \<longleftrightarrow> (\<exists>mid us. tr = ls @ mid @ us \<and> (\<forall>e \<in> set ls. is_lock e) \<and>
     (\<forall>e \<in> set mid. \<not> is_lock e \<and> \<not> is_unlock e) \<and> (\<forall>e \<in> set us. is_unlock e) \<and>
     mset us = image_mset unlock_of (mset ls))"

lemma lock_events_locks: "e \<in> set (lock_events c iter L ops) \<Longrightarrow> is_lock e"
  by (auto simp: lock_events_def split: prod.splits if_splits)

lemma in_table_finish:
  assumes "finish E req st (set_metadata (req_transaction_id req) m s) w = Some (s', w')" and "in_table L s'"
  shows "in_table L s"
  using finish_published [OF assms(1)] assms(2) by (auto simp: published_set_metadata published_def in_table_def)

text \<open>Locks at the front of a run are the locks of its prepared part.\<close>

lemma locks_in_front:
  assumes tr: "tr = prep @ rest" and "prefix ls tr" and ls: "\<forall>e \<in> set ls. is_lock e"
    and rest: "\<forall>e \<in> set rest. \<not> is_lock e" and same: "filter_mset is_lock (mset prep) = mset ls"
  obtains ws where "prep = ls @ ws" "\<forall>e \<in> set ws. \<not> is_lock e"
proof -
  have "prefix ls prep"
  proof (rule ccontr)
    assume no: "\<not> prefix ls prep"
    with assms(1,2) obtain q where q: "ls = prep @ q" "prefix q rest" by (auto simp: prefix_append)
    with ls rest have "q = []" by (cases q) (auto dest: set_mono_prefix)
    with q no show False by simp
  qed
  then obtain ws where ws: "prep = ls @ ws" by (auto simp: prefix_def)
  have "filter_mset is_lock (mset ls) = mset ls" using ls by (simp add: filter_mset_eq_conv)
  with same ws have "filter_mset is_lock (mset ws) = {#}" by simp
  then have "\<forall>e \<in> set ws. \<not> is_lock e" by simp
  with ws show thesis by (rule that)
qed

lemma ProcessTransaction_locked_run:
  assumes ret: "ProcessTransaction (traced E) req s (w, []) = Some (s', w', tr')"
    and fresh: "metadata_by_transaction_id s (req_transaction_id req) = None"
    and granted: "locks_granted E" and table: "in_table L s'"
    and c: "\<And>d. SupportsConcurrentWrites (db_ops E) d = c"
  shows "locked_run (lock_events c (iter_keys E) L (req_transaction req)) tr'"
proof -
  let ?m0 = "\<lambda>d. fresh_metadata\<lparr>md_response := CohortPending, md_db := Some d\<rparr>"
    and ?ls = "lock_events c (iter_keys E) L (req_transaction req)"
  have m0: "metadata_of s (req_transaction_id req) = fresh_metadata"
    using fresh by (simp add: metadata_of_def index_default_def)
  from ret obtain d w0 st m s1 w1 tr1 where
    p: "ProcessTransactionInDb (traced E) (req_transaction req)
      (time_of_timestamp (config_time (req_config req))) (?m0 d) s (w0, []) = Some (st, m, s1, w1, tr1)"
    and rest: "finish (traced E) req st (set_metadata (req_transaction_id req) m s1) (w1, tr1) = Some (s', w', tr')"
    unfolding ProcessTransaction_finish m0 by (auto elim!: bind_elims)
  have "holds (?m0 d) s []" by (simp add: holds_def keys_known_def held_def fresh_metadata_def)
  then have h: "holds m s1 tr1" using ProcessTransactionInDb_holds [OF p] by (simp add: fresh_metadata_def)
  have began: "extends is_work t t'" if "extends is_work (t @ [DbBegan]) t'" for t t'
    using that extends_trans [of is_work t "t @ [DbBegan]"] by simp
  from p obtain st1 m1 w2 tr2 where "AcquireDbLocks (traced E) (req_transaction req)
      (time_of_timestamp (config_time (req_config req))) (?m0 d) s (w0, []) = Some (st1, m1, s1, w2, tr2)"
    and "extends is_work tr2 tr1"
    unfolding ProcessTransactionInDb_def
    by (auto elim!: bind_elims dest!: process_ops_traced began split: if_splits)
  with AcquireDbLocks_order [OF this(1) granted in_table_finish [OF rest table] c]
  obtain ws where tr1: "tr1 = ?ls @ ws" "\<forall>e \<in> set ws. is_work e" by (auto simp: extends_def)
  have "filter_mset is_lock (mset ?ls) = mset ?ls" "filter_mset is_lock (mset ws) = {#}"
    using lock_events_locks tr1(2) is_work_not_lock by (auto simp: filter_mset_eq_conv)
  with h tr1 have held: "held m s1 = mset ?ls" by (simp add: holds_def)
  from finish_traced [OF rest h] obtain prep fin us committed where
    o: "tr' = prep @ fin @ us" "holds m s1 prep" "cohort_run req fin committed" "unlocks us (held m s1)"
    by (auto simp: run_outcome_def)
  have "prefix tr1 tr'" using finish_extends [OF rest] h by (simp add: holds_def)
  then have "prefix ?ls tr'" using tr1(1) by (auto simp: prefix_def)
  moreover have "\<forall>e \<in> set (fin @ us). \<not> is_lock e"
    using cohort_run_no_locks [OF o(3)] o(4) is_unlock_not_lock by (auto simp: unlocks_def)
  moreover have "filter_mset is_lock (mset prep) = mset ?ls" using o(2) held by (simp add: holds_def)
  ultimately obtain mid where mid: "prep = ?ls @ mid" "\<forall>e \<in> set mid. \<not> is_lock e"
    using locks_in_front [OF o(1)] lock_events_locks by metis
  have "\<forall>e \<in> set mid. \<not> is_unlock e" using o(2) mid is_work_not_lock by (auto simp: holds_def)
  then show ?thesis unfolding locked_run_def
    using o mid held lock_events_locks cohort_run_no_locks [OF o(3)]
    by (intro exI [of _ "mid @ fin"] exI [of _ us]) (auto simp: unlocks_def)
qed

end
