(* ===== verification/Cohort_Properties.thy ===== *)
theory Cohort_Properties
  imports Cohort_Demo Cohort_Locked_Run
begin

text \<open>
  The properties of the cohort server and of its database adapter, with concrete runs on the LMDB
  instance.
\<close>

subsection \<open>The effect of a transaction\<close>

text \<open>C5: On the LMDB adapter a cohort's transaction is atomic and functionally right: run alone on a database with
  contents \<open>m0\<close>, \<open>ProcessTransaction\<close> returns, and either the database afterwards and the recorded answer
  are exactly those of interpreting the operations on \<open>m0\<close> (when every read succeeds and it is the only
  cohort or the decision is to commit), or the database is unchanged and the recorded answer is an abort.\<close>

theorem transaction_all_or_nothing:
  assumes "lmdb lib committed view writer_free opened"
    and "creatable lib path committed writer_free opened w"
    and "metadata_by_transaction_id s (req_transaction_id req) = None"
    and "\<And>path content x. fst (file_write B path content x)"
    and "\<And>i b x. bc_Vote (blockchain_stub B) (req_transaction_id req) i b x \<noteq> None"
    and "\<And>x. \<exists>x'. WaitForBlockchainDecision B (req_transaction_id req)
      (time_of_timestamp (config_time (req_config req))) False x = Some (dec, x')"
    and "list_all (op_key_ok valid_key) (req_transaction req)"
  shows "\<exists>s' w' x'. ProcessTransaction (seq_env lib path B) req s (w, x) = Some (s', w', x') \<and>
    (case exec_ops (InternalError ''Get failed.'') (req_transaction req) (decode (committed w)) of
       Inl e \<Rightarrow> decode (committed w') = decode (committed w) \<and>
         final_response_by_transaction_id s' (req_transaction_id req) = Some (CohortAborted (abort_reason_for e))
     | Inr (m, gs) \<Rightarrow>
         if only_cohort req \<or> dec = VOTING_DECISION_COMMIT
         then decode (committed w') = m \<and>
           final_response_by_transaction_id s' (req_transaction_id req) = Some (CohortCommitted gs)
         else decode (committed w') = decode (committed w) \<and>
           (\<exists>reason. final_response_by_transaction_id s' (req_transaction_id req) = Some (CohortAborted reason)))"
  using assms by (rule seq_outcome)

theorem transaction_all_or_nothing_witness:
  "\<exists>s' w' x'. ProcessTransaction (seq_env mdb_lib ''p'' (base_env (quiet_stub VOTING_DECISION_COMMIT)))
      (demo_prepare [demo_put ''k'' 5, demo_add ''k'' 3 None] (CohortIndex 0)) new_cohort_server (mdb_empty, ()) =
      Some (s', w', x') \<and> decode (mdb_data w') ''k'' = Some 8 \<and>
    final_response_by_transaction_id s' ''01'' = Some (CohortCommitted [])"
proof -
  let ?req = "demo_prepare [demo_put ''k'' 5, demo_add ''k'' 3 None] (CohortIndex 0)"
  have ops: "exec_ops (InternalError ''Get failed.'') (req_transaction ?req) m = Inr (m(''k'' \<mapsto> 8), [])" for m
    by (simp add: demo_prepare_def demo_put_def demo_add_def exec_op_def relative_base_def)
  note run = transaction_all_or_nothing [OF mdb.lmdb_axioms creatable_empty, where s = new_cohort_server and req = ?req
        and B = "base_env (quiet_stub VOTING_DECISION_COMMIT)" and dec = VOTING_DECISION_COMMIT and path = "''p''" and x = "()"]
  have "metadata_by_transaction_id new_cohort_server (req_transaction_id ?req) = None" "req_transaction_id ?req = ''01''"
    by (simp_all add: new_cohort_server_def demo_prepare_def)
  with run ops obtain s' w' x' where
    "ProcessTransaction (seq_env mdb_lib ''p'' (base_env (quiet_stub VOTING_DECISION_COMMIT))) ?req new_cohort_server
       (mdb_empty, ()) = Some (s', w', x')"
    "decode (mdb_data w') = (decode (mdb_data mdb_empty))(''k'' \<mapsto> 8)" and
    "final_response_by_transaction_id s' ''01'' = Some (CohortCommitted [])"
    by (auto simp: quiet_stub_wait)
  moreover from this(2) have "decode (mdb_data w') ''k'' = Some 8" by (rule ssubst) (rule fun_upd_same)
  ultimately show ?thesis by blast
qed

subsection \<open>Locks and the commit protocol\<close>



text \<open>C11: What one run of \<open>ProcessTransaction\<close> tells the world. After locking, working in the database and writing
  files, it does one of four things: votes to abort and aborts; as the only participant, commits without
  a vote; or, with its answers and the request saved in files, votes to commit once, asks for the decision of
  its own transaction until there is one, and commits or aborts accordingly. The published result says
  which, commits are retried until one succeeds, and nothing but unlocking follows.\<close>

theorem vote_then_obey:
  assumes "ProcessTransaction (traced E) req s (w, []) = Some (s', w', tr)"
    and "metadata_by_transaction_id s (req_transaction_id req) = None"
  shows "\<exists>prep fin us. tr = prep @ fin @ us \<and>
    list_all (\<lambda>e. is_lock e \<or> is_work e) prep \<and> list_all is_unlock us \<and>
    (case snd (GetTransactionResult (req_transaction_id req) s') of
       CohortAborted reason \<Rightarrow>
         (\<exists>st. fin = [own_vote req BALLOT_ABORT, DbAborted st]) \<or>
         \<not> only_cohort req \<and> persisted req prep \<and> (\<exists>ps st. list_all (undecided (req_transaction_id req)) ps \<and>
            fin = own_vote req BALLOT_COMMIT # ps @ [own_poll req VOTING_DECISION_ABORT, DbAborted st])
     | CohortCommitted gs \<Rightarrow>
         only_cohort req \<and> commit_tries fin \<or>
         \<not> only_cohort req \<and> persisted req prep \<and> (\<exists>ps es. list_all (undecided (req_transaction_id req)) ps \<and>
            commit_tries es \<and> fin = own_vote req BALLOT_COMMIT # ps @ own_poll req VOTING_DECISION_COMMIT # es)
     | _ \<Rightarrow> False)"
proof -
  from ProcessTransaction_traced [OF assms] obtain m s1 where "run_outcome req m s1 s' tr" by blast
  then obtain prep fin us committed r where o: "tr = prep @ fin @ us" "holds m s1 prep" "cohort_run req fin committed"
    "own_vote req BALLOT_COMMIT \<in> set fin \<longrightarrow> persisted req prep" "unlocks us (held m s1)"
    "final_response_by_transaction_id s' = (final_response_by_transaction_id s1)(req_transaction_id req \<mapsto> r)"
    "if committed then r = mutable_committed (md_response m) else \<exists>a. r = CohortAborted a"
    by (auto simp: run_outcome_def)
  have "list_all (\<lambda>e. is_lock e \<or> is_work e) prep" "list_all is_unlock us"
    using o(2,5) by (simp_all add: holds_def unlocks_def list_all_iff)
  moreover have "snd (GetTransactionResult (req_transaction_id req) s') = r" by (simp add: GetTransactionResult_def o(6))
  moreover from o(3) have "case r of
       CohortAborted reason \<Rightarrow>
         (\<exists>st. fin = [own_vote req BALLOT_ABORT, DbAborted st]) \<or>
         \<not> only_cohort req \<and> persisted req prep \<and> (\<exists>ps st. list_all (undecided (req_transaction_id req)) ps \<and>
            fin = own_vote req BALLOT_COMMIT # ps @ [own_poll req VOTING_DECISION_ABORT, DbAborted st])
     | CohortCommitted gs \<Rightarrow>
         only_cohort req \<and> commit_tries fin \<or>
         \<not> only_cohort req \<and> persisted req prep \<and> (\<exists>ps es. list_all (undecided (req_transaction_id req)) ps \<and>
            commit_tries es \<and> fin = own_vote req BALLOT_COMMIT # ps @ own_poll req VOTING_DECISION_COMMIT # es)
     | _ \<Rightarrow> False"
    using o(4,7) by cases (auto simp: mutable_committed_eq list_all_iff)
  ultimately show ?thesis using o(1) by (intro exI [of _ prep] exI [of _ fin] exI [of _ us]) simp
qed

theorem vote_then_obey_witness:
  "\<exists>s' w'. ProcessTransaction demo_env (demo_prepare [demo_put ''k'' 5] (CohortIndex 0)) new_cohort_server ((mdb_empty, ()), []) =
     Some (s', w', demo_trace 0) \<and> (\<exists>prep fin us. demo_trace 0 = prep @ fin @ us \<and> persisted (demo_prepare [demo_put ''k'' 5] (CohortIndex 0)) prep)"
proof -
  let ?req = "demo_prepare [demo_put ''k'' 5] (CohortIndex 0)"
  obtain s' w' where run: "ProcessTransaction demo_env ?req new_cohort_server ((mdb_empty, ()), []) = Some (s', w', demo_trace 0)"
    and r: "final_response_by_transaction_id s' ''01'' = Some (CohortCommitted [])" using demo_run_commits by blast
  have "\<not> only_cohort ?req" "req_transaction_id ?req = ''01''" by (simp_all add: demo_prepare_def only_cohort.simps)
  then have "\<exists>prep fin us. demo_trace 0 = prep @ fin @ us \<and> persisted ?req prep"
    using vote_then_obey [OF run [unfolded demo_env_def]] r by (auto simp: GetTransactionResult_def new_cohort_server_def)
  with run show ?thesis by blast
qed


subsection \<open>The state of the server\<close>



text \<open>The result of a transaction is published once and completely: until the run of \<open>ProcessTransaction\<close> ends,
  \<open>GetTransactionResult\<close> says pending; when it ends, the answer is committed or aborted, and the answers for all
  other transactions and the queue of tasks are as before. Accepting a request only queues it.\<close>

lemma result_published_once:
  assumes "ProcessTransaction E req s w = Some (s', w')"
    and "final_response_by_transaction_id s (req_transaction_id req) = None"
  shows "snd (GetTransactionResult (req_transaction_id req) s) = CohortPending \<and>
    snd (GetTransactionResult (req_transaction_id req) (snd (PrepareTransaction req s))) = CohortPending \<and>
    is_final (snd (GetTransactionResult (req_transaction_id req) s')) \<and>
    (\<forall>tid. tid \<noteq> req_transaction_id req \<longrightarrow> GetTransactionResult tid s' = GetTransactionResult tid s) \<and>
    thread_pool_tasks s' = thread_pool_tasks s"
  using ProcessTransaction_publishes [OF assms(1)] assms(2)
  by (auto simp: GetTransactionResult_def PrepareTransaction_def published_def)

subsection \<open>Which locks\<close>




subsection \<open>Failures\<close>




text \<open>On the LMDB adapter a missing key is never reported as such: a get of a missing key, or a relative put on it even
  with a default value, which the message format says stands in for the missing value, aborts the
  whole transaction with the reason \<open>ABORT_REASON_UNSPECIFIED\<close>, because the adapter answers with an internal error
  where the cohort expects "not found".\<close>

lemma missing_key_unspecified:
  assumes "lmdb lib committed view writer_free opened"
    and "creatable lib path committed writer_free opened w"
    and "metadata_by_transaction_id s (req_transaction_id req) = None"
    and "\<And>path content x. fst (file_write B path content x)"
    and "\<And>i b x. bc_Vote (blockchain_stub B) (req_transaction_id req) i b x \<noteq> None"
    and "\<And>x. \<exists>x'. WaitForBlockchainDecision B (req_transaction_id req)
      (time_of_timestamp (config_time (req_config req))) False x = Some (dec, x')"
    and "list_all (op_key_ok valid_key) (req_transaction req)" and "req_transaction req = op # ops"
    and "decode (committed w) k = None"
    and "op_type op = GetOp \<lparr>get_key = k\<rparr> \<or> (\<exists>r. op_type op = PutOp \<lparr>put_key = k, put_val = Relative r\<rparr>)"
  shows "\<exists>s' w' x'. ProcessTransaction (seq_env lib path B) req s (w, x) = Some (s', w', x') \<and>
    snd (GetTransactionResult (req_transaction_id req) s') = CohortAborted ABORT_REASON_UNSPECIFIED \<and>
    decode (committed w') = decode (committed w)"
proof -
  have "exec_ops (InternalError ''Get failed.'') (req_transaction req) (decode (committed w)) = Inl (InternalError ''Get failed.'')"
    using assms(8-10) by (auto simp: exec_op_def relative_base_def InternalError_def mk_absl_status_def absl_code_def)
  moreover have "abort_reason_for (InternalError ''Get failed.'') = ABORT_REASON_UNSPECIFIED"
    by (simp add: abort_reason_for_def InternalError_def mk_absl_status_def absl_code_def)
  ultimately show ?thesis
    using seq_outcome [OF assms(1-7), of x] by (auto simp: GetTransactionResult_def)
qed

lemma missing_key_unspecified_example:
  "\<exists>s' w' x'. ProcessTransaction (seq_env mdb_lib ''p'' (base_env (quiet_stub VOTING_DECISION_ABORT)))
      (demo_prepare [demo_add ''k'' 3 (Some 7)] (CohortIndex 0)) new_cohort_server (mdb_empty, ()) = Some (s', w', x') \<and>
    snd (GetTransactionResult ''01'' s') = CohortAborted ABORT_REASON_UNSPECIFIED"
proof -
  let ?req = "demo_prepare [demo_add ''k'' 3 (Some 7)] (CohortIndex 0)"
  have "decode (mdb_data mdb_empty) ''k'' = None" by (simp add: mdb_empty_def decode_def)
  moreover have "req_transaction ?req = demo_add ''k'' 3 (Some 7) # []" "req_transaction_id ?req = ''01''"
    "\<exists>r. op_type (demo_add ''k'' 3 (Some 7)) = PutOp \<lparr>put_key = ''k'', put_val = Relative r\<rparr>"
    "metadata_by_transaction_id new_cohort_server (req_transaction_id ?req) = None"
    by (simp_all add: demo_prepare_def demo_add_def new_cohort_server_def)
  ultimately have "\<exists>s' w' x'. ProcessTransaction (seq_env mdb_lib ''p'' (base_env (quiet_stub VOTING_DECISION_ABORT)))
      ?req new_cohort_server (mdb_empty, ()) = Some (s', w', x') \<and>
    snd (GetTransactionResult (req_transaction_id ?req) s') = CohortAborted ABORT_REASON_UNSPECIFIED \<and>
    decode (mdb_data w') = decode (mdb_data mdb_empty)"
    by (intro missing_key_unspecified [OF mdb.lmdb_axioms creatable_empty, where k = "''k''" and dec = VOTING_DECISION_ABORT
        and op = "demo_add ''k'' 3 (Some 7)" and ops = "[]"]) (auto simp: quiet_stub_wait)
  with \<open>req_transaction_id ?req = ''01''\<close> show ?thesis by auto
qed

lemma sint_add_wraps:
  fixes a b :: int64
  shows "sint (a + b) = (if sint a + sint b < - (2 ^ 63) then sint a + sint b + 2 ^ 64
    else if sint a + sint b < 2 ^ 63 then sint a + sint b else sint a + sint b - 2 ^ 64)"
proof -
  have "- (2 ^ 63) \<le> sint a" "sint a < 2 ^ 63" "- (2 ^ 63) \<le> sint b" "sint b < 2 ^ 63"
    using sint_range_size [of a] sint_range_size [of b] by (simp_all add: word_size)
  moreover have s: "sint (a + b) = (sint a + sint b + 2 ^ 63) mod 2 ^ 64 - 2 ^ 63"
    by (simp add: sint_word_ariths signed_take_bit_eq_take_bit_shift take_bit_eq_mod)
  moreover have "(x + 2 ^ 63) mod 2 ^ 64 = (if x < - (2 ^ 63) then x + 2 ^ 63 + 2 ^ 64 else if x < 2 ^ 63 then x + 2 ^ 63
      else x + 2 ^ 63 - 2 ^ 64)" if "- (2 ^ 64) \<le> x" "x < 2 ^ 64" for x :: int
  proof -
    consider "x < - (2 ^ 63)" | "- (2 ^ 63) \<le> x" "x < 2 ^ 63" | "2 ^ 63 \<le> x" by linarith
    then show ?thesis
    proof cases
      case 1
      then have "(x + 2 ^ 63 + 2 ^ 64) mod 2 ^ 64 = x + 2 ^ 63 + 2 ^ 64" using that by (intro mod_pos_pos_trivial) simp_all
      with 1 show ?thesis by (simp only: mod_add_self2 if_True)
    next
      case 2
      then show ?thesis using that by (simp add: mod_pos_pos_trivial)
    next
      case 3
      then have "(x + 2 ^ 63 - 2 ^ 64) mod 2 ^ 64 = x + 2 ^ 63 - 2 ^ 64" using that by (intro mod_pos_pos_trivial) simp_all
      with 3 show ?thesis by (simp only: minus_mod_self2) simp
    qed
  qed
  ultimately show ?thesis by simp
qed

text \<open>A relative put adds as 64-bit integers do: the new value is the old one plus the given one when that fits, and
  is off by exactly two to the power of 64, with the wrong sign and no error, when it does not. (The
  addition in the code overflows a signed integer there, which C++ leaves undefined; the model wraps around.)\<close>

lemma relative_put_wraps:
  assumes "lmdb lib committed view writer_free opened"
    and "creatable lib path committed writer_free opened w"
    and "metadata_by_transaction_id s (req_transaction_id req) = None"
    and "\<And>path content x. fst (file_write B path content x)"
    and "\<And>i b x. bc_Vote (blockchain_stub B) (req_transaction_id req) i b x \<noteq> None"
    and "\<And>x. \<exists>x'. WaitForBlockchainDecision B (req_transaction_id req)
      (time_of_timestamp (config_time (req_config req))) False x = Some (VOTING_DECISION_COMMIT, x')"
    and "valid_key k" and "req_transaction req = [op]" and "op_type op = PutOp \<lparr>put_key = k, put_val = Relative r\<rparr>"
    and "decode (committed w) k = Some v"
  shows "\<exists>s' w' x' v'. ProcessTransaction (seq_env lib path B) req s (w, x) = Some (s', w', x') \<and>
    snd (GetTransactionResult (req_transaction_id req) s') = CohortCommitted [] \<and>
    decode (committed w') = (decode (committed w))(k \<mapsto> v') \<and>
    (let sum = sint v + sint (num_int64 (relative_part r)) in
     sint v' = (if sum < - (2 ^ 63) then sum + 2 ^ 64 else if sum < 2 ^ 63 then sum else sum - 2 ^ 64))"
proof -
  let ?v = "v + num_int64 (relative_part r)"
  have "exec_ops (InternalError ''Get failed.'') (req_transaction req) (decode (committed w)) =
      Inr ((decode (committed w))(k \<mapsto> ?v), [])"
    using assms(8-10) by (simp add: exec_op_def relative_base_def)
  moreover have "list_all (op_key_ok valid_key) (req_transaction req)" using assms(7-9) by (simp add: op_key_ok_def)
  ultimately show ?thesis using seq_outcome [OF assms(1-6), of x] sint_add_wraps [of v "num_int64 (relative_part r)"]
    by (auto simp: GetTransactionResult_def Let_def intro!: exI [of _ ?v])
qed

lemma relative_put_wraps_example:
  "\<exists>m s' w' x' v'. decode (mdb_data m) ''k'' = Some (2 ^ 63 - 1) \<and>
    ProcessTransaction (seq_env mdb_lib ''p'' (base_env (quiet_stub VOTING_DECISION_COMMIT)))
      (demo_prepare [demo_add ''k'' 1 None] (CohortIndex 0)) new_cohort_server (m, ()) = Some (s', w', x') \<and>
    decode (mdb_data w') ''k'' = Some v' \<and> sint v' = - (2 ^ 63)"
proof -
  define m where "m = mdb_empty\<lparr>mdb_data := [''k'' \<mapsto> bytes_of_int64 (2 ^ 63 - 1)]\<rparr>"
  let ?req = "demo_prepare [demo_add ''k'' 1 None] (CohortIndex 0)"
    and ?r = "\<lparr>relative_part = Some (NumericValue (Some 1)), default_part = None\<rparr>"
  have d: "decode (mdb_data m) ''k'' = Some (2 ^ 63 - 1)" by (simp add: m_def decode_def)
  have "creatable mdb_lib ''p'' mdb_data (\<lambda>w. mdb_writer w = None) (\<lambda>_ _. True) m"
    by (auto simp: m_def creatable_def lmdb_create_def lmdb_Connect_def mdb_lib_def mdb_empty_def all_int64_def)
  moreover have "req_transaction ?req = [demo_add ''k'' 1 None]"
    "op_type (demo_add ''k'' 1 None) = PutOp \<lparr>put_key = ''k'', put_val = Relative ?r\<rparr>"
    "metadata_by_transaction_id new_cohort_server (req_transaction_id ?req) = None"
    by (simp_all add: demo_prepare_def demo_add_def new_cohort_server_def)
  ultimately have "\<exists>s' w' x' v'. ProcessTransaction (seq_env mdb_lib ''p'' (base_env (quiet_stub VOTING_DECISION_COMMIT)))
      ?req new_cohort_server (m, ()) = Some (s', w', x') \<and>
    snd (GetTransactionResult (req_transaction_id ?req) s') = CohortCommitted [] \<and>
    decode (mdb_data w') = (decode (mdb_data m))(''k'' \<mapsto> v') \<and>
    (let sum = sint (2 ^ 63 - 1 :: int64) + sint (num_int64 (relative_part ?r)) in
     sint v' = (if sum < - (2 ^ 63) then sum + 2 ^ 64 else if sum < 2 ^ 63 then sum else sum - 2 ^ 64))"
    by (intro relative_put_wraps [OF mdb.lmdb_axioms _ _ _ _ _ _ _ _ d]) (simp_all add: quiet_stub_wait)
  then obtain s' w' x' v' where run: "ProcessTransaction (seq_env mdb_lib ''p'' (base_env (quiet_stub VOTING_DECISION_COMMIT)))
      ?req new_cohort_server (m, ()) = Some (s', w', x')" and
    w': "decode (mdb_data w') = (decode (mdb_data m))(''k'' \<mapsto> v')" and
    v': "let sum = sint (2 ^ 63 - 1 :: int64) + sint (num_int64 (relative_part ?r)) in
     sint v' = (if sum < - (2 ^ 63) then sum + 2 ^ 64 else if sum < 2 ^ 63 then sum else sum - 2 ^ 64)"
    by blast
  have "sint v' = - (2 ^ 63)" using v' by (simp add: Let_def)
  moreover have "decode (mdb_data w') ''k'' = Some v'" using w' by simp
  ultimately show ?thesis using d run by blast
qed

end
