(* ===== verification/Cohort_Threads.thy ===== *)
theory Cohort_Threads
  imports Cohort_Locked_Run
begin

text \<open>
  Several transactions at a time on one cohort server: the threads of its pool, interleaved event by
  event. A thread performs the events of a run of \<open>ProcessTransaction\<close>; it takes a mutex only when
  the other threads leave it free, as \<open>absl::Mutex\<close> does (a writer alone, or any number of readers),
  and otherwise waits. All threads share the lock table of the server.
\<close>

type_synonym schedule = "(nat \<times> event) list"

definition done_by :: "nat \<Rightarrow> schedule \<Rightarrow> event list" where
  "done_by i log = map snd (filter (\<lambda>x. fst x = i) log)"

text \<open>Thread \<open>i\<close> has taken the lock of the event \<open>l\<close> and not released it.\<close>

definition holding :: "schedule \<Rightarrow> nat \<Rightarrow> event \<Rightarrow> bool" where
  "holding log i l \<longleftrightarrow> count_list (done_by i log) (unlock_of l) < count_list (done_by i log) l"

fun may_proceed :: "schedule \<Rightarrow> event \<Rightarrow> bool" where
  "may_proceed log (LockedWrite m) = list_all (\<lambda>x. \<not> holding log (fst x) (LockedWrite m) \<and> \<not> holding log (fst x) (LockedRead m)) log"
| "may_proceed log (LockedRead m) = list_all (\<lambda>x. \<not> holding log (fst x) (LockedWrite m)) log"
| "may_proceed log _ = True"

inductive thread_step :: "(nat \<Rightarrow> event list) \<Rightarrow> schedule \<Rightarrow> schedule \<Rightarrow> bool" for plan where
  "plan i = done_by i log @ e # rest \<Longrightarrow> may_proceed log e \<Longrightarrow> thread_step plan log (log @ [(i, e)])"

inductive_cases thread_stepE: "thread_step plan log log'"

text \<open>
  The threads: thread \<open>i\<close> runs \<open>ProcessTransaction\<close> for its prepare request, with the events
  \<open>plan i\<close>. \<open>L\<close> is the lock table, from which \<open>GetLock\<close> never removes an entry.
\<close>

definition threads ::
  "nat \<Rightarrow> (nat \<Rightarrow> ('d, 'w) cohort_env) \<Rightarrow> (nat \<Rightarrow> prepare_request) \<Rightarrow> (string \<Rightarrow> nat) \<Rightarrow> (nat \<Rightarrow> event list) \<Rightarrow> bool" where
  "threads n E req L plan \<longleftrightarrow>
     (\<forall>i < n. locks_granted (E i) \<and> perm_order (iter_keys (E i)) \<and>
        (\<exists>s w s' w'. metadata_by_transaction_id s (req_transaction_id (req i)) = None \<and> in_table L s' \<and>
           ProcessTransaction (traced (E i)) (req i) s (w, []) = Some (s', w', plan i))) \<and>
     (\<forall>i \<ge> n. plan i = [])"

fun is_db :: "event \<Rightarrow> bool" where
  "is_db DbBegan = True" | "is_db DbGot = True" | "is_db DbPut = True" | "is_db (DbCommitted _) = True"
| "is_db (DbAborted _) = True" | "is_db _ = False"

text \<open>Two transactions conflict when one puts a key that the other puts or gets.\<close>

definition conflict :: "transaction \<Rightarrow> transaction \<Rightarrow> bool" where
  "conflict ops ops' \<longleftrightarrow> put_keys ops \<inter> (put_keys ops' \<union> get_keys ops') \<noteq> {} \<or> get_keys ops \<inter> put_keys ops' \<noteq> {}"

subsection \<open>Schedules\<close>

lemma done_by_simps [simp]:
  "done_by i [] = []"
  "done_by i (x # log) = (if fst x = i then snd x # done_by i log else done_by i log)"
  "done_by i (log @ log') = done_by i log @ done_by i log'"
  by (simp_all add: done_by_def)

lemma set_done_by [simp]: "e \<in> set (done_by i log) \<longleftrightarrow> (i, e) \<in> set log"
  by (force simp: done_by_def)

lemma schedule_split:
  assumes "(thread_step plan)\<^sup>*\<^sup>* [] log" and "log = A @ (j, e) # B"
  shows "may_proceed A e \<and> (\<exists>rest. plan j = done_by j A @ e # rest)"
  using assms
proof (induction arbitrary: B rule: rtranclp_induct)
  case (step log log')
  from step.hyps(2) obtain i e' where log': "log' = log @ [(i, e')]" and "may_proceed log e'"
    and "\<exists>rest. plan i = done_by i log @ e' # rest" by (auto elim: thread_stepE)
  with step.prems step.IH show ?case by (cases B rule: rev_cases) auto
qed simp

lemma schedule_prefix: "(thread_step plan)\<^sup>*\<^sup>* [] log \<Longrightarrow> prefix (done_by i log) (plan i)"
  by (induction rule: rtranclp_induct) (auto elim!: thread_stepE simp: prefix_def)

lemma schedule_thread: "(thread_step plan)\<^sup>*\<^sup>* [] log \<Longrightarrow> (i, e) \<in> set log \<Longrightarrow> e \<in> set (plan i)"
  using schedule_prefix [of plan log i] by (metis set_done_by set_mono_prefix subsetD)

subsection \<open>Runs in a schedule\<close>

fun clash :: "event \<Rightarrow> event \<Rightarrow> bool" where
  "clash (LockedWrite m) (LockedWrite m') = (m = m')"
| "clash (LockedWrite m) (LockedRead m') = (m = m')"
| "clash (LockedRead m) (LockedWrite m') = (m = m')"
| "clash _ _ = False"

lemma clash_sym: "clash l l' = clash l' l"
  by (cases "(l, l')" rule: clash.cases) auto

lemma not_is_db: "is_lock e \<Longrightarrow> \<not> is_db e" "is_unlock e \<Longrightarrow> \<not> is_db e" "is_lock e \<Longrightarrow> \<not> is_unlock e"
  by (cases e; simp)+

text \<open>A lock that clashes with one taken before is granted only after that one was released.\<close>

lemma released_before_clash:
  assumes "may_proceed A l'" and "(i, l) \<in> set A" and "clash l l'"
  shows "(i, unlock_of l) \<in> set A"
proof -
  from assms have "\<not> holding A i l"
    by (cases "(l, l')" rule: clash.cases) (auto simp: list_all_iff)
  moreover have "count_list (done_by i A) l > 0" using assms(2) by (simp flip: count_mset)
  ultimately have "count_list (done_by i A) (unlock_of l) > 0" by (simp add: holding_def)
  then show ?thesis by (metis set_done_by count_list_0_iff less_irrefl)
qed

text \<open>A run that has unlocked has no work left to do; one that is about to lock has not begun.\<close>

lemma unlocked_no_work:
  assumes run: "locked_run ls (p @ q)" and u: "u \<in> set p" "is_unlock u" and e: "e \<in> set q"
  shows "\<not> is_db e"
proof -
  from run obtain mid us where "p @ q = ls @ mid @ us" "\<forall>e \<in> set ls. is_lock e"
    "\<forall>e \<in> set mid. \<not> is_lock e \<and> \<not> is_unlock e" and us: "\<forall>e \<in> set us. is_unlock e"
    unfolding locked_run_def by blast
  then have r: "p @ q = (ls @ mid) @ us" "\<forall>e \<in> set (ls @ mid). \<not> is_unlock e" using not_is_db(3) by auto
  then have "suffix q us"
    using u by (auto simp: append_eq_append_conv2 suffix_def)
  with e us show ?thesis using not_is_db(2) set_mono_suffix by blast
qed

lemma locking_not_begun:
  assumes run: "locked_run ls (p @ l # q)" and "is_lock l" and e: "e \<in> set p"
  shows "is_lock e"
proof -
  from run obtain mid us where "p @ l # q = ls @ mid @ us" "\<forall>e \<in> set mid. \<not> is_lock e" "\<forall>e \<in> set us. is_unlock e"
    and ls: "\<forall>e \<in> set ls. is_lock e" unfolding locked_run_def by blast
  then obtain rest where r: "p @ l # q = ls @ rest" "\<forall>e \<in> set rest. \<not> is_lock e"
    using is_unlock_not_lock by (metis Un_iff set_append)
  then have "prefix p ls"
    using assms(2) by (auto simp: append_eq_append_conv2 prefix_def Cons_eq_append_conv)
  with e ls show ?thesis by (auto dest: set_mono_prefix)
qed

lemma begun_has_locks:
  assumes run: "locked_run ls (p @ q)" and "e \<in> set p" and "\<not> is_lock e"
  shows "set ls \<subseteq> set p"
proof -
  from run obtain rest where r: "p @ q = ls @ rest" "\<forall>e \<in> set ls. is_lock e"
    unfolding locked_run_def by auto
  then have "prefix ls p" using assms(2,3) by (auto simp: append_eq_append_conv2)
  then show ?thesis by (rule set_mono_prefix)
qed

subsection \<open>Clashing runs do not overlap\<close>

text \<open>The moment of a thread's first unlock.\<close>

definition release_point :: "schedule \<Rightarrow> nat \<Rightarrow> nat" where
  "release_point log i = length (takeWhile (\<lambda>x. \<not> (fst x = i \<and> is_unlock (snd x))) log)"

lemma clashing_runs:
  assumes reach: "(thread_step plan)\<^sup>*\<^sup>* [] log"
    and runs: "locked_run ls (plan i)" "locked_run ls' (plan j)"
    and split: "log = A @ (j, l') # B" and l: "(i, l) \<in> set A" and clash: "clash l l'"
  shows "\<And>e. (i, e) \<in> set ((j, l') # B) \<Longrightarrow> \<not> is_db e" and "\<And>e. (j, e) \<in> set A \<Longrightarrow> \<not> is_db e"
    and "release_point log i < release_point log j"
proof -
  from schedule_split [OF reach split] obtain rest
    where free: "may_proceed A l'" and j: "plan j = done_by j A @ l' # rest" by blast
  have lock: "is_lock l" "is_lock l'" using clash by (cases "(l, l')" rule: clash.cases; simp)+
  have un: "(i, unlock_of l) \<in> set A" "is_unlock (unlock_of l)"
    using released_before_clash [OF free l clash] lock by (auto elim: is_lock.elims)
  obtain q where i: "plan i = done_by i A @ done_by i ((j, l') # B) @ q"
    using schedule_prefix [OF reach, of i] split by (auto simp: prefix_def)
  show "\<not> is_db e" if "(i, e) \<in> set ((j, l') # B)" for e
  proof (rule unlocked_no_work [OF runs(1) [unfolded i]])
    show "unlock_of l \<in> set (done_by i A)" using un(1) by (simp only: set_done_by)
    show "e \<in> set (done_by i ((j, l') # B) @ q)" using that unfolding set_append Un_iff set_done_by ..
  qed (rule un(2))
  have lockA: "is_lock e" if "(j, e) \<in> set A" for e
    using locking_not_begun [OF runs(2) [unfolded j] lock(2)] that by simp
  then show "\<not> is_db e" if "(j, e) \<in> set A" for e
    using that not_is_db(1) by blast
  obtain A1 A2 where "A = A1 @ (i, unlock_of l) # A2" using un(1) by (meson split_list)
  then have "release_point log i < length A"
    using un(2) by (auto simp: release_point_def split takeWhile_append intro: le_less_trans [OF length_takeWhile_le])
  also have "length A \<le> release_point log j"
  proof -
    have "\<not> (fst x = j \<and> is_unlock (snd x))" if "x \<in> set A" for x
      using lockA [of "snd x"] that not_is_db(3) by (metis prod.collapse)
    then show ?thesis unfolding release_point_def split by (subst takeWhile_append2) auto
  qed
  finally show "release_point log i < release_point log j" .
qed

text \<open>So the first of them to reach the database ends its work there before the other begins.\<close>

lemma clashing_order:
  assumes reach: "(thread_step plan)\<^sup>*\<^sup>* [] log"
    and runs: "locked_run ls (plan i)" "locked_run ls' (plan j)"
    and l: "l \<in> set ls" "l' \<in> set ls'" "clash l l'"
    and "i \<noteq> j" and p: "p < q" "q < length log" "log ! p = (i, e)" "log ! q = (j, f)" "is_db e" "is_db f"
  shows "release_point log i < release_point log j"
proof -
  have in_log: "(k, m) \<in> set log" if "locked_run ms (plan k)" "m \<in> set ms" "(k, d) \<in> set log" "is_db d" for k m ms d
  proof -
    obtain r where "plan k = done_by k log @ r" using schedule_prefix [OF reach] by (auto simp: prefix_def)
    moreover have "\<not> is_lock d" using that(4) not_is_db(1) by blast
    ultimately have "set ms \<subseteq> set (done_by k log)" using begun_has_locks [of ms "done_by k log" r d] that by simp
    with that(2) show ?thesis by auto
  qed
  have pq: "(i, e) \<in> set log" "(j, f) \<in> set log" using p by (metis nth_mem less_trans)+
  obtain A B where AB: "log = A @ (j, l') # B" using in_log [OF runs(2) l(2) pq(2) p(6)] by (meson split_list)
  have "(i, l) \<in> set log" by (rule in_log [OF runs(1) l(1) pq(1) p(5)])
  with AB \<open>i \<noteq> j\<close> consider "(i, l) \<in> set A" | "(i, l) \<in> set B" by auto
  then show ?thesis
  proof cases
    case 1
    then show ?thesis by (rule clashing_runs(3) [OF reach runs AB _ l(3)])
  next
    case 2
    then obtain B1 B2 where "B = B1 @ (i, l) # B2" by (meson split_list)
    with AB have split: "log = (A @ (j, l') # B1) @ (i, l) # B2" (is "_ = ?A @ ?B") by simp
    have "(j, l') \<in> set ?A" and "clash l' l" using l(3) clash_sym by auto
    note apart = clashing_runs(1,2) [OF reach runs(2,1) split this]
    have "length ?A \<le> p" using apart(2) [of e] p(3,5) split by (metis not_le nth_append nth_mem)
    then have "length ?A \<le> q" using p(1) by simp
    then have "log ! q \<in> set ?B" using nth_mem [of "q - length ?A" ?B] p(2) unfolding split nth_append by simp
    with apart(1) p(4,6) show ?thesis by metis
  qed
qed

subsection \<open>The threads of a cohort\<close>

lemma threads_run:
  assumes "threads n E req L plan" and "i < n" and c: "\<And>d. SupportsConcurrentWrites (db_ops (E i)) d = c"
  shows "locked_run (lock_events c (iter_keys (E i)) L (req_transaction (req i))) (plan i)"
proof -
  from assms(1,2) obtain s w s' w' where "ProcessTransaction (traced (E i)) (req i) s (w, []) = Some (s', w', plan i)"
    and "metadata_by_transaction_id s (req_transaction_id (req i)) = None" "locks_granted (E i)" "in_table L s'"
    unfolding threads_def by blast
  then show ?thesis by (rule ProcessTransaction_locked_run [OF _ _ _ _ c])
qed

lemma thread_in_range:
  assumes "threads n E req L plan" and "(thread_step plan)\<^sup>*\<^sup>* [] log" and "(i, e) \<in> set log"
  shows "i < n"
  using schedule_thread [OF assms(2,3)] assms(1) by (cases "i < n") (auto simp: threads_def)

lemma keys_exist:
  "list_ex has_put ops \<longleftrightarrow> put_keys ops \<noteq> {}" "list_ex has_get ops \<longleftrightarrow> get_keys ops \<noteq> {}"
  by (auto simp: list_ex_iff put_keys_def get_keys_def)

lemma lock_events_cases:
  assumes "perm_order iter"
  shows "k \<in> put_keys ops \<Longrightarrow> LockedWrite (if c then L k else whole_db_mutex) \<in> set (lock_events c iter L ops)"
    and "k \<in> get_keys ops \<Longrightarrow> LockedRead (if c then L k else whole_db_mutex) \<in> set (lock_events c iter L ops) \<or>
      LockedWrite (if c then L k else whole_db_mutex) \<in> set (lock_events c iter L ops)"
proof -
  obtain wk rk where sk: "split_keys ops [] [] = (wk, rk)" by fastforce
  note spec = split_keys_spec [OF sk] perm_order_set [OF assms]
  show "k \<in> put_keys ops \<Longrightarrow> LockedWrite (if c then L k else whole_db_mutex) \<in> set (lock_events c iter L ops)"
    using sk spec by (auto simp: lock_events_def keys_exist)
  show "k \<in> get_keys ops \<Longrightarrow> LockedRead (if c then L k else whole_db_mutex) \<in> set (lock_events c iter L ops) \<or>
      LockedWrite (if c then L k else whole_db_mutex) \<in> set (lock_events c iter L ops)"
    using sk spec by (cases "k \<in> put_keys ops") (auto simp: lock_events_def keys_exist)
qed

text \<open>Transactions that conflict take locks that clash.\<close>

lemma conflict_clash:
  assumes "conflict ops ops'" and "perm_order iter" and "perm_order iter'"
  obtains l l' where "l \<in> set (lock_events c iter L ops)" "l' \<in> set (lock_events c iter' L ops')" "clash l l'"
proof -
  note locks = lock_events_cases [OF assms(2)] lock_events_cases [OF assms(3)]
  from assms(1) consider k where "k \<in> put_keys ops" "k \<in> put_keys ops'" | k where "k \<in> put_keys ops" "k \<in> get_keys ops'"
    | k where "k \<in> get_keys ops" "k \<in> put_keys ops'" by (auto simp: conflict_def)
  then show thesis
  proof cases
    case 1
    with locks(1,3) that show ?thesis by (metis clash.simps(1))
  next
    case 2
    with locks(1,4) that show ?thesis by (metis clash.simps(1,2))
  next
    case 3
    with locks(2,3) that show ?thesis by (metis clash.simps(1,3))
  qed
qed

subsection \<open>A serial order\<close>

definition earlier :: "'a list \<Rightarrow> 'a \<Rightarrow> 'a \<Rightarrow> bool" where
  "earlier xs x y \<longleftrightarrow> (\<exists>q < length xs. \<exists>p < q. xs ! p = x \<and> xs ! q = y)"

lemma earlier_sort_key:
  assumes "x \<in> set xs" and "y \<in> set xs" and "f x < f y"
  shows "earlier (sort_key f xs) x y"
proof -
  let ?ys = "sort_key f xs"
  have "x \<in> set ?ys" "y \<in> set ?ys" using assms by simp_all
  then obtain p q where pq: "p < length ?ys" "?ys ! p = x" "q < length ?ys" "?ys ! q = y" by (metis in_set_conv_nth)
  have "p < q"
  proof (rule ccontr)
    assume "\<not> p < q"
    then have "map f ?ys ! q \<le> map f ?ys ! p" using pq by (intro sorted_nth_mono) simp_all
    with pq assms(3) show False by simp
  qed
  with pq show ?thesis unfolding earlier_def by blast
qed

subsection \<open>Progress under one lock\<close>

text \<open>Without concurrent writes a run takes one lock at most, so it holds nothing when it waits for one.\<close>

lemma lock_events_one: "length (lock_events False iter L ops) \<le> 1"
  by (simp add: lock_events_def)

lemma single_lock_balanced:
  assumes run: "locked_run ls tr" and "length ls \<le> 1" and "is_lock l"
  shows "count_list tr (unlock_of l) = count_list tr l"
proof -
  from run obtain mid us where r: "tr = ls @ mid @ us" "\<forall>e \<in> set ls. is_lock e" "\<forall>e \<in> set mid. \<not> is_lock e \<and> \<not> is_unlock e"
    "\<forall>e \<in> set us. is_unlock e" "mset us = image_mset unlock_of (mset ls)"
    by (auto simp: locked_run_def)
  have un: "is_unlock (unlock_of l)" using assms(3) by (auto elim: is_lock.elims)
  have mid: "count_list mid (unlock_of l) = 0" "count_list mid l = 0"
    using r(3) assms(3) un by (auto simp: count_list_0_iff)
  show ?thesis
  proof (cases ls)
    case Nil
    with r mid show ?thesis by simp
  next
    case (Cons x xs)
    with assms(2) have x: "ls = [x]" by simp
    with r(5) have us: "us = [unlock_of x]" by simp
    have "is_lock x" using r(2) x by simp
    then have "unlock_of x = unlock_of l \<longleftrightarrow> x = l" "unlock_of x \<noteq> l" "x \<noteq> unlock_of l" "unlock_of l \<noteq> l"
      using assms(3) by (cases x; cases l; simp)+
    with r(1) x us mid show ?thesis by simp
  qed
qed

lemma waiting_holds_nothing:
  assumes "locked_run ls (p @ e # q)" and "length ls \<le> 1" and "is_lock e"
  shows "p = []"
proof (rule ccontr)
  assume "p \<noteq> []"
  then obtain x where x: "x \<in> set p" "is_lock x" using locking_not_begun [OF assms(1,3)] by (cases p) auto
  from assms(1) obtain mid us where r: "p @ e # q = ls @ mid @ us" "\<forall>e \<in> set mid. \<not> is_lock e" "\<forall>e \<in> set us. \<not> is_lock e"
    using is_unlock_not_lock unfolding locked_run_def by blast
  have "length (filter is_lock (p @ e # q)) \<le> length ls"
    unfolding r(1) using r(2,3) by (simp add: filter_False)
  moreover have "length (filter is_lock p) > 0" using x by (auto simp: filter_empty_conv)
  ultimately show False using assms(2,3) by simp
qed

lemma one_lock_progress:
  assumes reach: "(thread_step plan)\<^sup>*\<^sup>* [] log"
    and runs: "\<And>k. \<exists>ls. locked_run ls (plan k) \<and> length ls \<le> 1"
    and unfinished: "done_by i log \<noteq> plan i"
  shows "\<exists>log'. thread_step plan log log'"
proof -
  have next_event: "\<exists>e rest. plan k = done_by k log @ e # rest" if "done_by k log \<noteq> plan k" for k
    using schedule_prefix [OF reach, of k] that by (auto simp: prefix_def neq_Nil_conv)
  show ?thesis
  proof (cases "\<exists>k e rest. plan k = done_by k log @ e # rest \<and> \<not> is_lock e")
    case True
    then obtain k e rest where "plan k = done_by k log @ e # rest" "may_proceed log e" by (metis is_lock.simps(1,2) may_proceed.elims(3))
    then show ?thesis by (blast intro: thread_step.intros)
  next
    case False
    have free: "\<not> holding log k l" if "is_lock l" for k l
    proof (cases "done_by k log = plan k")
      case True
      with runs [of k] single_lock_balanced [OF _ _ that] show ?thesis by (metis holding_def less_irrefl)
    next
      case waits: False
      obtain e rest where "plan k = done_by k log @ e # rest" using next_event [OF waits] by blast
      with runs [of k] False have "done_by k log = []" by (metis waiting_holds_nothing)
      then show ?thesis by (simp add: holding_def)
    qed
    obtain e rest where e: "plan i = done_by i log @ e # rest" using next_event [OF unfinished] by blast
    have "may_proceed log e" using free by (cases e) (simp_all add: list_all_iff)
    with e show ?thesis by (blast intro: thread_step.intros)
  qed
qed

lemma schedule_length:
  assumes "\<And>x. x \<in> set log \<Longrightarrow> fst x < n"
  shows "length log = (\<Sum>i < n. length (done_by i log))"
  using assms
proof (induction log)
  case (Cons x log)
  have "(\<Sum>i < n. length (done_by i (x # log))) = (\<Sum>i < n. (if i = fst x then 1 else 0) + length (done_by i log))"
    by (rule sum.cong) auto
  also have "\<dots> = (\<Sum>i < n. if i = fst x then 1 else 0) + (\<Sum>i < n. length (done_by i log))"
    by (rule sum.distrib)
  also have "(\<Sum>i < n. if i = fst x then 1 else 0 :: nat) = 1" using Cons.prems by (simp add: sum.delta)
  finally show ?case using Cons by simp
qed simp

text \<open>A schedule that can be checked event by event.\<close>

fun schedulable :: "(nat \<Rightarrow> event list) \<Rightarrow> schedule \<Rightarrow> schedule \<Rightarrow> bool" where
  "schedulable plan log [] = True"
| "schedulable plan log ((i, e) # es) =
     (take (Suc (length (done_by i log))) (plan i) = done_by i log @ [e] \<and> may_proceed log e \<and>
      schedulable plan (log @ [(i, e)]) es)"

lemma schedulable_steps: "schedulable plan log es \<Longrightarrow> (thread_step plan)\<^sup>*\<^sup>* log (log @ es)"
proof (induction plan log es rule: schedulable.induct)
  case (2 plan log i e es)
  from 2(2) have "plan i = done_by i log @ e # drop (Suc (length (done_by i log))) (plan i)"
    by (metis append.assoc append_Cons append_Nil append_take_drop_id schedulable.simps(2))
  then have "thread_step plan log (log @ [(i, e)])" using 2(2) by (intro thread_step.intros) simp_all
  with 2 show ?case by (auto intro: converse_rtranclp_into_rtranclp)
qed simp

end
