(* ===== verification/Thread_Properties.thy ===== *)
theory Thread_Properties
  imports Cohort_Threads Cohort_Demo
begin

text \<open>
  The properties of transactions that run side by side on one cohort server: conflicting ones are
  serialised, one lock for the whole database never blocks for ever, locks per key may.
\<close>

text \<open>C9: Conflicting transactions are serialised. Whenever the threads of a cohort interleave, there is an order of the
  transactions such that of any two that conflict (one puts a key that the other puts or gets), every event in
  the database of the one comes before every event in the database of the other, as the order says; this
  holds at every moment, for the lock on the whole database and for the locks on keys.\<close>

theorem conflicting_transactions_serialised:
  assumes "threads n E req L plan" and "\<And>i d. i < n \<Longrightarrow> SupportsConcurrentWrites (db_ops (E i)) d = c"
    and "(thread_step plan)\<^sup>*\<^sup>* [] log"
  shows "\<exists>serial. distinct serial \<and> set serial = {..<n} \<and>
    (\<forall>i j p q e f. i \<noteq> j \<and> conflict (req_transaction (req i)) (req_transaction (req j)) \<and>
       p < q \<and> q < length log \<and> log ! p = (i, e) \<and> log ! q = (j, f) \<and> is_db e \<and> is_db f \<longrightarrow> earlier serial i j)"
proof (intro exI conjI allI impI)
  let ?serial = "sort_key (release_point log) [0 ..< n]"
  show "distinct ?serial" "set ?serial = {..<n}" by auto
  fix i j p q e f
  assume H: "i \<noteq> j \<and> conflict (req_transaction (req i)) (req_transaction (req j)) \<and>
       p < q \<and> q < length log \<and> log ! p = (i, e) \<and> log ! q = (j, f) \<and> is_db e \<and> is_db f"
  have "(i, e) \<in> set log" "(j, f) \<in> set log" using H by (metis nth_mem less_trans)+
  then have ij: "i < n" "j < n" using thread_in_range [OF assms(1,3)] by blast+
  then have iter: "perm_order (iter_keys (E i))" "perm_order (iter_keys (E j))" using assms(1) by (simp_all add: threads_def)
  obtain l l' where "l \<in> set (lock_events c (iter_keys (E i)) L (req_transaction (req i)))"
    "l' \<in> set (lock_events c (iter_keys (E j)) L (req_transaction (req j)))" "clash l l'"
    using H conflict_clash [OF _ iter] by metis
  from clashing_order [OF assms(3) threads_run [OF assms(1) ij(1) assms(2) [OF ij(1)]]
      threads_run [OF assms(1) ij(2) assms(2) [OF ij(2)]] this] H
  have "release_point log i < release_point log j" by blast
  then show "earlier ?serial i j" using ij by (intro earlier_sort_key) simp_all
qed

subsection \<open>Two writers on LMDB\<close>

definition put_request :: "string \<Rightarrow> operation list \<Rightarrow> prepare_request" where
  "put_request tid ops = \<lparr>req_transaction_id = tid, req_transaction = ops,
     req_config = \<lparr>config_abort_time = None\<rparr>, participant = CohortIndex 0\<rparr>"

definition put_trace :: "string \<Rightarrow> event list" where
  "put_trace tid = [LockedWrite 0, DbBegan, DbPut, Wrote (''d/response_'' @ tid @ ''.binarypb'') True,
     Wrote (''d/request_'' @ tid @ ''.binarypb'') True, Voted tid 0 BALLOT_COMMIT,
     Polled tid (Inr VOTING_DECISION_COMMIT), DbCommitted OkStatus, UnlockedWrite 0]"

lemma put_run:
  "\<exists>s' w'. ProcessTransaction demo_env (put_request tid [demo_put ''k'' v]) new_cohort_server ((mdb_empty, ()), []) =
     Some (s', w', put_trace tid) \<and> locks_by_key s' = Map.empty"
  by (simp add: run_defs put_request_def put_trace_def demo_put_def cohort_index.simps only_cohort.simps)

definition writers_req :: "nat \<Rightarrow> prepare_request" where
  "writers_req i = (if i = 0 then put_request ''01'' [demo_put ''k'' 1] else put_request ''02'' [demo_put ''k'' 2])"

definition writers_plan :: "nat \<Rightarrow> event list" where
  "writers_plan i = (if i = 0 then put_trace ''01'' else if i = 1 then put_trace ''02'' else [])"

lemma writers_threads:
  "threads 2 (\<lambda>_. seq_env mdb_lib ''p'' (base_env (quiet_stub VOTING_DECISION_COMMIT))) writers_req (\<lambda>_. 0) writers_plan"
proof -
  let ?E = "seq_env mdb_lib ''p'' (base_env (quiet_stub VOTING_DECISION_COMMIT))"
  have "locks_granted ?E" "perm_order (iter_keys ?E)"
    by (simp_all add: locks_granted_def seq_env_def base_env_def split_beta)
  moreover have "\<exists>s w s' w'. metadata_by_transaction_id s tid = None \<and> in_table (\<lambda>_. 0) s' \<and>
      ProcessTransaction (traced ?E) (put_request tid [demo_put ''k'' v]) s (w, []) = Some (s', w', put_trace tid)" for tid v
  proof -
    obtain s' w' where "ProcessTransaction demo_env (put_request tid [demo_put ''k'' v]) new_cohort_server ((mdb_empty, ()), []) =
        Some (s', w', put_trace tid)" "locks_by_key s' = Map.empty" using put_run by blast
    then show ?thesis unfolding demo_env_def
      by (intro exI [of _ new_cohort_server] exI [of _ "(mdb_empty, ())"] exI [of _ s'] exI [of _ w'])
         (simp add: in_table_def new_cohort_server_def)
  qed
  ultimately show ?thesis
    by (auto simp: threads_def writers_req_def writers_plan_def less_2_cases_iff put_request_def)
qed

definition writers_log :: schedule where
  "writers_log = map (Pair 1) (put_trace ''02'') @ map (Pair 0) (take 2 (put_trace ''01''))"

lemma writers_reach: "(thread_step writers_plan)\<^sup>*\<^sup>* [] writers_log"
proof -
  have "schedulable writers_plan [] writers_log"
    by (simp add: writers_log_def writers_plan_def put_trace_def holding_def numeral_2_eq_2)
  from schedulable_steps [OF this] show ?thesis by simp
qed

lemma mdb_one_writer:
  "\<not> SupportsConcurrentWrites (db_ops (seq_env mdb_lib path B)) d"
  by (simp add: seq_env_def lift_db_def lmdb_db_def)

theorem conflicting_transactions_serialised_witness:
  "\<exists>serial. distinct serial \<and> set serial = {..<2::nat} \<and> earlier serial 1 0"
proof -
  have one_writer: "SupportsConcurrentWrites (db_ops (seq_env mdb_lib ''p'' (base_env (quiet_stub VOTING_DECISION_COMMIT)))) d = False"
    for d by (simp only: mdb_one_writer)
  have "conflict (req_transaction (writers_req 1)) (req_transaction (writers_req 0))"
    by (simp add: conflict_def writers_req_def put_request_def demo_put_def)
  then have both: "(1::nat) \<noteq> 0 \<and> conflict (req_transaction (writers_req 1)) (req_transaction (writers_req 0)) \<and>
      1 < (10::nat) \<and> 10 < length writers_log \<and> writers_log ! 1 = (1, DbBegan) \<and> writers_log ! 10 = (0, DbBegan) \<and>
      is_db DbBegan \<and> is_db DbBegan"
    by (simp add: writers_log_def put_trace_def)
  obtain serial where "distinct serial" "set serial = {..<2::nat}" and
    ordered: "\<forall>i j p q e f. i \<noteq> j \<and> conflict (req_transaction (writers_req i)) (req_transaction (writers_req j)) \<and>
       p < q \<and> q < length writers_log \<and> writers_log ! p = (i, e) \<and> writers_log ! q = (j, f) \<and> is_db e \<and> is_db f \<longrightarrow>
       earlier serial i j"
    using conflicting_transactions_serialised [OF writers_threads one_writer writers_reach]
    by (elim exE conjE) (rule that)
  moreover have "earlier serial 1 0" by (rule ordered [rule_format, OF both])
  ultimately show ?thesis by blast
qed

subsection \<open>Progress\<close>

text \<open>C23: A database without concurrent writes, as LMDB is, needs one lock per transaction, and threads that use it
  never deadlock: as long as a thread has not finished, some thread can go on, and after as many steps as
  the runs have events all have finished. The calls of a thread other than taking a mutex are taken to return.\<close>

theorem whole_db_lock_never_deadlocks:
  assumes "threads n E req L plan" and "\<And>i d. i < n \<Longrightarrow> \<not> SupportsConcurrentWrites (db_ops (E i)) d"
    and "(thread_step plan)\<^sup>*\<^sup>* [] log"
  shows "((\<forall>i < n. done_by i log = plan i) \<or> (\<exists>log'. thread_step plan log log')) \<and>
    length log \<le> (\<Sum>i < n. length (plan i))"
proof
  have one: "\<exists>ls. locked_run ls (plan k) \<and> length ls \<le> 1" for k
  proof (cases "k < n")
    case True
    with threads_run [OF assms(1), of k False] assms(2) lock_events_one show ?thesis by blast
  next
    case False
    then have "plan k = []" using assms(1) by (simp add: threads_def)
    then show ?thesis by (intro exI [of _ "[]"]) (simp add: locked_run_def)
  qed
  show "(\<forall>i < n. done_by i log = plan i) \<or> (\<exists>log'. thread_step plan log log')"
    using one_lock_progress [OF assms(3) one] by blast
  have "length log = (\<Sum>i < n. length (done_by i log))"
    using thread_in_range [OF assms(1,3)] by (intro schedule_length) (metis prod.collapse)
  also have "\<dots> \<le> (\<Sum>i < n. length (plan i))"
    by (intro sum_mono prefix_length_le schedule_prefix [OF assms(3)])
  finally show "length log \<le> (\<Sum>i < n. length (plan i))" .
qed

theorem whole_db_lock_never_deadlocks_witness:
  "\<exists>log'. thread_step writers_plan writers_log log'"
proof -
  from whole_db_lock_never_deadlocks [OF writers_threads mdb_one_writer writers_reach]
  have "(\<forall>i < 2. done_by i writers_log = writers_plan i) \<or> (\<exists>log'. thread_step writers_plan writers_log log')" ..
  moreover have "done_by 0 writers_log \<noteq> writers_plan 0"
    by (simp add: writers_log_def writers_plan_def put_trace_def numeral_2_eq_2)
  ultimately show ?thesis by (metis zero_less_numeral)
qed

subsection \<open>Deadlock\<close>

text \<open>
  The first locks of two runs are taken and each waits for the other, whatever the other threads do.
\<close>

lemma crossed_locks:
  assumes steps: "(thread_step plan)\<^sup>*\<^sup>* log log'" and "i \<noteq> j"
    and "plan i = LockedWrite a # LockedWrite b # ps" and "plan j = LockedWrite b # LockedWrite a # qs"
    and "done_by i log = [LockedWrite a]" and "done_by j log = [LockedWrite b]"
  shows "done_by i log' = [LockedWrite a] \<and> done_by j log' = [LockedWrite b]"
  using steps
proof (induction rule: rtranclp_induct)
  case (step log1 log2)
  then obtain k e rest where k: "log2 = log1 @ [(k, e)]" "plan k = done_by k log1 @ e # rest" "may_proceed log1 e"
    by (auto elim: thread_stepE)
  have "holding log1 i (LockedWrite a)" "holding log1 j (LockedWrite b)" using step.IH by (simp_all add: holding_def)
  moreover have "(i, LockedWrite a) \<in> set log1" "(j, LockedWrite b) \<in> set log1"
    using step.IH by (metis set_done_by list.set_intros(1))+
  ultimately have "\<not> may_proceed log1 (LockedWrite a)" "\<not> may_proceed log1 (LockedWrite b)"
    by (force simp: list_all_iff)+
  with k step.IH assms(3,4) have "k \<noteq> i" "k \<noteq> j" by auto
  with k(1) step.IH show ?case by simp
qed (use assms in simp)

text \<open>C35: Locks per key can deadlock, for ever. When a database runs write transactions side by side, the cohort locks
  the keys of a transaction in the iteration order of a hash set. If two transactions put the same two keys and the
  iteration orders differ, a schedule exists after which neither ever takes another step, whatever the other
  threads do. The deadline of the lock calls does not help: they wait for a condition that is
  always true.\<close>

theorem key_locks_deadlock:
  assumes "threads n E req L plan" and "i < n" "j < n" "i \<noteq> j"
    and "\<And>k d. k < n \<Longrightarrow> SupportsConcurrentWrites (db_ops (E k)) d"
    and "split_keys (req_transaction (req i)) [] [] = (wi, [])" and "split_keys (req_transaction (req j)) [] [] = (wj, [])"
    and "iter_keys (E i) wi = [k1, k2]" and "iter_keys (E j) wj = [k2, k1]" and "L k1 \<noteq> L k2"
  shows "\<exists>log. (thread_step plan)\<^sup>*\<^sup>* [] log \<and> (\<forall>log'. (thread_step plan)\<^sup>*\<^sup>* log log' \<longrightarrow>
    done_by i log' = [LockedWrite (L k1)] \<and> done_by j log' = [LockedWrite (L k2)])"
proof -
  have iter: "iter_keys (E k) [] = []" if "k < n" for k
    using that assms(1) perm_order_Nil by (auto simp: threads_def)
  have "\<exists>ps. plan i = LockedWrite (L k1) # LockedWrite (L k2) # ps"
    using threads_run [OF assms(1,2), of True] assms(5) [OF assms(2)] assms(6,8) iter [OF assms(2)]
    by (auto simp: lock_events_def locked_run_def)
  moreover have "\<exists>qs. plan j = LockedWrite (L k2) # LockedWrite (L k1) # qs"
    using threads_run [OF assms(1,3), of True] assms(5) [OF assms(3)] assms(7,9) iter [OF assms(3)]
    by (auto simp: lock_events_def locked_run_def)
  ultimately obtain ps qs where plans: "plan i = LockedWrite (L k1) # LockedWrite (L k2) # ps"
    "plan j = LockedWrite (L k2) # LockedWrite (L k1) # qs" by blast
  let ?log = "[(i, LockedWrite (L k1)), (j, LockedWrite (L k2))]"
  have "schedulable plan [] ?log" using plans assms(4,10) by (simp add: holding_def)
  from schedulable_steps [OF this] have "(thread_step plan)\<^sup>*\<^sup>* [] ?log" by simp
  moreover have "done_by i ?log = [LockedWrite (L k1)]" "done_by j ?log = [LockedWrite (L k2)]" using assms(4) by simp_all
  ultimately show ?thesis using crossed_locks [OF _ assms(4) plans] by blast
qed

text \<open>A database that runs any number of write transactions, and two transactions on its keys \<open>a\<close> and \<open>b\<close>.\<close>

definition side_by_side_env :: "(unit, unit) cohort_env" where
  "side_by_side_env = (base_env (quiet_stub VOTING_DECISION_COMMIT))\<lparr>
     db_ops := \<lparr>SupportsConcurrentWrites = (\<lambda>_. True), Begin = (\<lambda>d w. Some (OkStatus, d, w)),
       BeginReadOnly = (\<lambda>d w. Some (OkStatus, d, w)), Commit = (\<lambda>d w. Some (OkStatus, d, w)),
       Abort = (\<lambda>d w. Some (OkStatus, d, w)), Get = (\<lambda>d k w. Some (Inr 0, d, w)), Put = (\<lambda>d k v w. Some (OkStatus, d, w))\<rparr>,
     db_transaction_adapter_creator := (\<lambda>w. Some ((), w))\<rparr>"

definition crossed_req :: "nat \<Rightarrow> prepare_request" where
  "crossed_req i = (if i = 0 then put_request ''01'' [demo_put ''a'' 1, demo_put ''b'' 1]
     else put_request ''02'' [demo_put ''b'' 2, demo_put ''a'' 2])"

definition key_table :: "string \<Rightarrow> nat" where
  "key_table k = (if k = ''a'' then 1 else 2)"

definition crossed_plan :: "nat \<Rightarrow> event list" where
  "crossed_plan i = (if i \<ge> 2 then [] else
     (let tid = (if i = 0 then ''01'' else ''02''); ms = (if i = 0 then [1, 2] else [2, 1]) in
     map LockedWrite ms @ [DbBegan, DbPut, DbPut, Wrote (''d/response_'' @ tid @ ''.binarypb'') True,
     Wrote (''d/request_'' @ tid @ ''.binarypb'') True, Voted tid 0 BALLOT_COMMIT,
     Polled tid (Inr VOTING_DECISION_COMMIT), DbCommitted OkStatus] @ map UnlockedWrite ms))"

lemma side_by_side_calls:
  "ReaderLockWhenWithDeadline (traced side_by_side_env) mx dl (w, tr) = Some (True, w, tr @ [LockedRead mx])"
  "WriterLockWhenWithDeadline (traced side_by_side_env) mx dl (w, tr) = Some (True, w, tr @ [LockedWrite mx])"
  "db_transaction_adapter_creator (traced side_by_side_env) (w, tr) = Some ((), w, tr)"
  "db_ops side_by_side_env = \<lparr>SupportsConcurrentWrites = (\<lambda>_. True), Begin = (\<lambda>d w. Some (OkStatus, d, w)),
       BeginReadOnly = (\<lambda>d w. Some (OkStatus, d, w)), Commit = (\<lambda>d w. Some (OkStatus, d, w)),
       Abort = (\<lambda>d w. Some (OkStatus, d, w)), Get = (\<lambda>d k w. Some (Inr 0, d, w)), Put = (\<lambda>d k v w. Some (OkStatus, d, w))\<rparr>"
  "iter_keys side_by_side_env ks = ks" "db_txn_response_dir side_by_side_env = ''d''"
  "file_write (traced side_by_side_env) path content (w, tr) = (True, w, tr @ [Wrote path True])"
  "bc_Vote (traced_stub (blockchain_stub side_by_side_env)) tid i b (w, tr) = Some (OkStatus, w, tr @ [Voted tid i b])"
  by (simp_all add: traced_def side_by_side_env_def base_env_def bc_Vote_def traced_stub_def quiet_stub_def)

lemma side_by_side_wait:
  "WaitForBlockchainDecision (traced side_by_side_env) tid t waited (w, tr) =
     Some (VOTING_DECISION_COMMIT, w, tr @ [Polled tid (Inr VOTING_DECISION_COMMIT)])"
  by (subst Wait_unfold)
     (simp add: side_by_side_env_def base_env_def traced_stub_def quiet_stub_def bc_GetVotingDecision_def)

lemma side_by_side_run:
  "\<exists>s' w'. ProcessTransaction (traced side_by_side_env) (crossed_req 0)
     (new_cohort_server\<lparr>locks_by_key := [''a'' \<mapsto> 1, ''b'' \<mapsto> 2], next_mutex := 3\<rparr>) ((), []) =
     Some (s', w', crossed_plan 0) \<and> locks_by_key s' = [''a'' \<mapsto> 1, ''b'' \<mapsto> 2]"
  "\<exists>s' w'. ProcessTransaction (traced side_by_side_env) (crossed_req 1)
     (new_cohort_server\<lparr>locks_by_key := [''a'' \<mapsto> 1, ''b'' \<mapsto> 2], next_mutex := 3\<rparr>) ((), []) =
     Some (s', w', crossed_plan 1) \<and> locks_by_key s' = [''a'' \<mapsto> 1, ''b'' \<mapsto> 2]"
  by (simp_all add: ProcessTransaction_finish finish_def ProcessTransactionInDb_def AcquireDbLocks_def
      with_db_def ProcessOperationInDb_def CommitTransaction_def commit_until_ok_first [where E = "traced side_by_side_env"]
      ReleaseLocksAndDeleteMetadata_def PersistTransaction_def WriteToFile_def unlock_keys_def metadata_of_def
      set_metadata_def fresh_metadata_def new_cohort_server_def index_default_def trace_db_def Let_def GetLock_def
      hs_emplace_def hs_erase_def side_by_side_calls side_by_side_wait crossed_req_def crossed_plan_def put_request_def
      demo_put_def cohort_index.simps only_cohort.simps)

lemma crossed_threads: "threads 2 (\<lambda>_. side_by_side_env) crossed_req key_table crossed_plan"
proof -
  let ?s = "new_cohort_server\<lparr>locks_by_key := [''a'' \<mapsto> 1, ''b'' \<mapsto> 2], next_mutex := 3\<rparr> :: unit cohort_server"
  have "locks_granted side_by_side_env" "perm_order (iter_keys side_by_side_env)"
    by (simp_all add: locks_granted_def side_by_side_env_def base_env_def)
  moreover have "\<exists>s w s' w'. metadata_by_transaction_id s (req_transaction_id (crossed_req i)) = None \<and> in_table key_table s' \<and>
      ProcessTransaction (traced side_by_side_env) (crossed_req i) s (w, []) = Some (s', w', crossed_plan i)" if "i < 2" for i
  proof -
    from that obtain s' w' where "ProcessTransaction (traced side_by_side_env) (crossed_req i) ?s ((), []) = Some (s', w', crossed_plan i)"
      "locks_by_key s' = [''a'' \<mapsto> 1, ''b'' \<mapsto> 2]"
      using side_by_side_run by (auto simp: less_2_cases_iff)
    moreover from this(2) have "in_table key_table s'" by (auto simp: in_table_def key_table_def split: if_splits)
    moreover have "metadata_by_transaction_id ?s (req_transaction_id (crossed_req i)) = None" by (simp add: new_cohort_server_def)
    ultimately show ?thesis by blast
  qed
  moreover have "\<forall>i \<ge> 2. crossed_plan i = []" by (simp add: crossed_plan_def)
  ultimately show ?thesis by (simp add: threads_def)
qed

theorem key_locks_deadlock_witness:
  "\<exists>log. (thread_step crossed_plan)\<^sup>*\<^sup>* [] log \<and> done_by 0 log = [LockedWrite 1] \<and> done_by 1 log = [LockedWrite 2] \<and>
     (\<forall>log'. (thread_step crossed_plan)\<^sup>*\<^sup>* log log' \<longrightarrow> done_by 0 log' = [LockedWrite 1] \<and> done_by 1 log' = [LockedWrite 2])"
proof -
  have keys: "split_keys (req_transaction (crossed_req 0)) [] [] = ([''a'', ''b''], [])"
    "split_keys (req_transaction (crossed_req 1)) [] [] = ([''b'', ''a''], [])"
    by (simp_all add: crossed_req_def put_request_def demo_put_def hs_emplace_def hs_erase_def)
  have both: "SupportsConcurrentWrites (db_ops side_by_side_env) d" for d by (simp add: side_by_side_calls)
  have L: "key_table ''a'' = 1" "key_table ''b'' = 2" by (simp_all add: key_table_def)
  have "\<exists>log. (thread_step crossed_plan)\<^sup>*\<^sup>* [] log \<and> (\<forall>log'. (thread_step crossed_plan)\<^sup>*\<^sup>* log log' \<longrightarrow>
      done_by 0 log' = [LockedWrite (key_table ''a'')] \<and> done_by 1 log' = [LockedWrite (key_table ''b'')])"
    by (rule key_locks_deadlock [OF crossed_threads _ _ _ both keys]) (simp_all add: side_by_side_calls L)
  then show ?thesis unfolding L by blast
qed

end
