(* ===== verification/Chain_Properties.thy ===== *)
theory Chain_Properties
  imports Chain_Runs
begin

text \<open>
  The properties of the contract, of the adapter server in front of it and of the C++ client, over
  every run of calls from the deployed contract on.
\<close>

definition demo_votes :: "chain_op list" where
  "demo_votes = [StartVotingOp ''t'' 100 2, VoteOp ''t'' 0 BALLOT_COMMIT, BlockOp 50, VoteOp ''t'' 1 BALLOT_COMMIT]"

lemma demo_board:
  "board_for (fold boards_exec demo_votes (boards_of (genesis 1))) ''t'' =
     \<lparr>voters = 2, deadline = 100, ballot_of = (\<lambda>_. UNKNOWN)(0 := COMMIT, 1 := COMMIT)\<rparr> \<and>
   clock (fold boards_exec demo_votes (boards_of (genesis 1))) = 50"
  by (simp add: demo_votes_def boards_of_def genesis_def open_board_def cast_ballot_def Let_def)

lemma demo_decision: "bc_GetVotingDecision js_stub ''t'' (chain_run demo_votes (genesis 1)) =
    Some (Inr VOTING_DECISION_COMMIT, chain_run demo_votes (genesis 1))"
  by (simp add: decision_answer chain_run_boards demo_board board_decision_def less_2_cases_iff)

lemma clock_genesis [simp]: "clock (boards_of (genesis t)) = unat t"
  by (simp add: boards_of_def genesis_def)

subsection \<open>The contract as a voting board\<close>

text \<open>C6: The contract, called by the C++ client through the adapter server, refines a board with one ballot per
  cohort: opening a vote, casting ballots and new blocks do to it what they do to the board, and the decision
  that the client reads is the decision of the board; before the vote is opened the client gets no
  answer at all. The encoding of up to 120 ballots in one 256-bit word is invisible.\<close>

theorem contract_refines_boards:
  "boards_of (chain_run ops (genesis t)) = fold boards_exec ops (boards_of (genesis t)) \<and>
   bc_GetVotingDecision js_stub tid (chain_run ops (genesis t)) =
     (let B = fold boards_exec ops (boards_of (genesis t)) in
      if voters (board_for B tid) = 0 then None
      else Some (Inr (board_decision (clock B) (board_for B tid)), chain_run ops (genesis t)))"
  by (simp add: chain_run_boards decision_answer Let_def)

theorem contract_refines_boards_witness:
  "bc_GetVotingDecision js_stub ''t'' (chain_run demo_votes (genesis 1)) =
     Some (Inr VOTING_DECISION_COMMIT, chain_run demo_votes (genesis 1))"
  using contract_refines_boards [of demo_votes 1 "''t''"]
  by (simp add: demo_board board_decision_def less_2_cases_iff Let_def)


text \<open>C33: A ballot that the contract encodes is read back, and no other ballot changes: for up to 120 cohorts,
  writing ballot \<open>b\<close> at position \<open>i\<close> and reading position \<open>j\<close> gives \<open>b\<close> when \<open>i = j\<close> and the old ballot otherwise,
  and the new encoding is again in range.\<close>

theorem ballot_encoding_roundtrip:
  assumes "n \<le> 120" and "unat encoded < 3 ^ n" and "unat i < n" and "unat j < n"
  shows "getCohortBallot (getNewCohortBallot encoded i b) j = (if j = i then b else getCohortBallot encoded j) \<and>
    unat (getNewCohortBallot encoded i b) < 3 ^ n"
proof -
  have new: "unat (getNewCohortBallot encoded i b) = set_digit3 (unat encoded) (unat i) (ballot_uint b)"
    by (rule unat_getNewCohortBallot [OF assms(2,3,1)])
  have "j \<noteq> i \<longleftrightarrow> unat j \<noteq> unat i" by (simp add: word_unat_eq_iff)
  moreover have "unat j \<le> 120" using assms by simp
  ultimately have "getCohortBallot (getNewCohortBallot encoded i b) j = (if j = i then b else getCohortBallot encoded j)"
    by (simp add: getCohortBallot_digit new del: ballot_of_uint.simps)
  with new assms show ?thesis by (simp add: set_digit3_bound)
qed

theorem ballot_encoding_roundtrip_witness:
  "getCohortBallot (getNewCohortBallot 5 1 ABORT) 1 = ABORT \<and>
   getCohortBallot (getNewCohortBallot 5 1 ABORT) 0 = getCohortBallot 5 0"
  using ballot_encoding_roundtrip [of 2 5 1 1 ABORT] ballot_encoding_roundtrip [of 2 5 1 0 ABORT] by simp

subsection \<open>The decision\<close>

text \<open>C18: What the C++ client is told: nothing when the vote was never opened; otherwise abort exactly when a
  cohort voted to abort or the deadline passed before all voted to commit, commit exactly when all
  cohorts voted to commit, and pending in between. The string that the contract returns survives the
  parsing of the adapter server.\<close>

theorem decision_of_ballots:
  assumes "contract_inv (deployed ch)"
  shows "case bc_GetVotingDecision js_stub tid ch of
      None \<Rightarrow> num_cohorts (deployed ch) tid = 0
    | Some (r, ch') \<Rightarrow> ch' = ch \<and> 0 < num_cohorts (deployed ch) tid \<and>
        (r = Inr VOTING_DECISION_COMMIT \<longleftrightarrow> all_commit (deployed ch) tid) \<and>
        (r = Inr VOTING_DECISION_ABORT \<longleftrightarrow> some_abort (deployed ch) tid \<or>
           \<not> all_commit (deployed ch) tid \<and> timed_out (deployed ch) (block_now ch) tid) \<and>
        (r = Inr VOTING_DECISION_PENDING \<longleftrightarrow> \<not> some_abort (deployed ch) tid \<and>
           \<not> all_commit (deployed ch) tid \<and> \<not> timed_out (deployed ch) (block_now ch) tid)"
proof (cases "num_cohorts (deployed ch) tid = 0")
  case True
  then show ?thesis
    using decide_None [of "deployed ch" "block_now ch" tid] by (simp add: bc_GetVotingDecision_js decision_option_def)
next
  case False
  have "\<not> (all_commit (deployed ch) tid \<and> some_abort (deployed ch) tid)"
    by (auto simp: all_commit_def some_abort_def)
  with False show ?thesis
    using decide_cases [OF assms, of tid "block_now ch"]
    by (auto simp: bc_GetVotingDecision_js decision_option_def)
qed

theorem decision_of_ballots_witness:
  "\<exists>ch'. bc_GetVotingDecision js_stub ''t'' (chain_run [StartVotingOp ''t'' 100 2, VoteOp ''t'' 1 BALLOT_ABORT] (genesis 1)) =
     Some (Inr VOTING_DECISION_ABORT, ch')"
proof -
  let ?ch = "chain_run [StartVotingOp ''t'' 100 2, VoteOp ''t'' 1 BALLOT_ABORT] (genesis 1)"
  have "chain_ok ?ch" by (simp add: chain_run_boards)
  moreover have "0 < num_cohorts (deployed ?ch) ''t''" by code_simp
  moreover have "ballot_at (deployed ?ch) ''t'' 1 = ABORT" "num_cohorts (deployed ?ch) ''t'' = 2" by code_simp+
  then have "some_abort (deployed ?ch) ''t''" unfolding some_abort_def by (intro exI [of _ 1]) simp
  ultimately show ?thesis
    using decision_of_ballots [of ?ch "''t''"] by (auto simp: chain_ok_def split: option.splits)
qed

text \<open>C17: A definite decision is final: after commit or abort has been decided, whatever calls and blocks follow,
  as long as nobody opens the vote again and every cohort sticks to its ballot, the client reads the
  same decision.\<close>

theorem definite_decision_stable:
  assumes "chain_ok ch"
    and "bc_GetVotingDecision js_stub tid ch = Some (Inr d, ch)" and "definite d"
    and "list_all (faithful tid f) ops" and "ballots_from f (board_for (boards_of ch) tid)"
  shows "bc_GetVotingDecision js_stub tid (chain_run ops ch) = Some (Inr d, chain_run ops ch)"
proof -
  have ok: "chain_ok (chain_run ops ch)" using assms(1) by (rule chain_run_boards)
  have ask: "ask_chain tid ch = Some (d, ch)" using assms(2) by (simp add: ask_chain_def)
  have "evolves (clock (boards_of ch)) (board_for (boards_of ch) tid)
      (clock (boards_of (chain_run ops ch))) (board_for (boards_of (chain_run ops ch)) tid)"
    using boards_run_evolves [OF assms(4,5)] chain_run_boards(1) [OF assms(1)] by simp
  from chain_vote.answer_stays [OF assms(1) ok ask assms(3) this]
  show ?thesis by (auto simp: ask_chain_def split: option.splits sum.splits)
qed

theorem definite_decision_stable_witness:
  "bc_GetVotingDecision js_stub ''t'' (chain_run [BlockOp 200, VoteOp ''t'' 0 BALLOT_COMMIT] (chain_run demo_votes (genesis 1))) =
   Some (Inr VOTING_DECISION_COMMIT, chain_run [BlockOp 200, VoteOp ''t'' 0 BALLOT_COMMIT] (chain_run demo_votes (genesis 1)))"
proof (rule definite_decision_stable)
  let ?ch = "chain_run demo_votes (genesis 1)"
  show "chain_ok ?ch" by (simp add: chain_run_boards)
  show "bc_GetVotingDecision js_stub ''t'' ?ch = Some (Inr VOTING_DECISION_COMMIT, ?ch)" by (rule demo_decision)
  show "definite VOTING_DECISION_COMMIT" by simp
  show "list_all (faithful ''t'' (\<lambda>_. BALLOT_COMMIT)) [BlockOp 200, VoteOp ''t'' 0 BALLOT_COMMIT]" by simp
  show "ballots_from (\<lambda>_. BALLOT_COMMIT) (board_for (boards_of ?ch) ''t'')"
    by (simp add: ballots_from_def chain_run_boards demo_board)
qed

subsection \<open>The deadline\<close>

text \<open>C29: At the deadline the vote closes: from the first block at or after it, no vote for the transaction ever gets
  an answer, so a cohort that votes late is blocked although the code ignores the outcome of its vote, every
  question for the decision gets a definite answer, and all answers agree, whatever else happens, unless
  somebody opens the vote again.\<close>

theorem deadline_closes_vote:
  assumes "chain_ok ch" and "0 < num_cohorts (deployed ch) tid" and "timed_out (deployed ch) (block_now ch) tid"
    and "list_all (\<lambda>op. \<not> opens tid op) ops"
  shows "bc_Vote js_stub tid i b (chain_run ops ch) = None \<and>
    (\<exists>d. definite d \<and> bc_GetVotingDecision js_stub tid ch = Some (Inr d, ch) \<and>
      bc_GetVotingDecision js_stub tid (chain_run ops ch) = Some (Inr d, chain_run ops ch))"
proof -
  let ?bd = "board_for (boards_of ch) tid"
  have ok: "chain_ok (chain_run ops ch)" using assms(1) by (rule chain_run_boards)
  have late: "deadline ?bd \<le> clock (boards_of ch)"
    using assms(3) contract_time_ok [OF assms(1), of "block_now ch"]
    by (simp add: timed_out_def boards_of_def contract_time_def word_le_nat_alt)
  from boards_run_closed [OF late assms(4)] chain_run_boards(1) [OF assms(1)]
  have same: "board_for (boards_of (chain_run ops ch)) tid = ?bd"
    and later: "clock (boards_of ch) \<le> clock (boards_of (chain_run ops ch))" by simp_all
  have "bc_Vote js_stub tid i b (chain_run ops ch) = None"
    using bc_Vote_boards [OF ok, where tid = tid and i = i and b = b] late later
    by (auto simp: same cast_ballot_def split: option.splits)
  moreover have "evolves (clock (boards_of ch)) ?bd (clock (boards_of (chain_run ops ch)))
      (board_for (boards_of (chain_run ops ch)) tid)"
    using later by (simp add: same evolves_time)
  from evolves_decision [OF this decision_after_deadline [OF late]]
  have "board_decision (clock (boards_of (chain_run ops ch))) ?bd = board_decision (clock (boards_of ch)) ?bd"
    by (simp add: same)
  then have "\<exists>d. definite d \<and> bc_GetVotingDecision js_stub tid ch = Some (Inr d, ch) \<and>
      bc_GetVotingDecision js_stub tid (chain_run ops ch) = Some (Inr d, chain_run ops ch)"
    using decision_answer [OF assms(1), of tid] decision_answer [OF ok, of tid] assms(2)
      decision_after_deadline [OF late] by (simp add: same) (simp add: boards_of_def)
  ultimately show ?thesis by blast
qed

theorem deadline_closes_vote_witness:
  "bc_Vote js_stub ''t'' 1 BALLOT_ABORT
     (chain_run [BlockOp 120] (chain_run [StartVotingOp ''t'' 100 2, VoteOp ''t'' 0 BALLOT_COMMIT, BlockOp 100] (genesis 1))) = None"
proof -
  let ?ch = "chain_run [StartVotingOp ''t'' 100 2, VoteOp ''t'' 0 BALLOT_COMMIT, BlockOp 100] (genesis 1)"
  have "chain_ok ?ch" by (simp add: chain_run_boards)
  moreover have "0 < num_cohorts (deployed ?ch) ''t''" "timed_out (deployed ?ch) (block_now ?ch) ''t''" by code_simp+
  ultimately show ?thesis
    using deadline_closes_vote [of ?ch "''t''" "[BlockOp 120]" 1 BALLOT_ABORT] by simp
qed

text \<open>C37: Opening a vote a second time erases its ballots, because the contract does not check whether the
  transaction is known: a decision to commit that was already read, and acted upon, becomes pending again
  and can end as an abort.\<close>

theorem restart_erases_votes:
  assumes "chain_ok ch" and "bc_GetVotingDecision js_stub tid ch = Some (Inr VOTING_DECISION_COMMIT, ch)"
    and "bc_StartVoting js_stub tid timeout n ch = Some (st, ch')"
  shows "bc_GetVotingDecision js_stub tid ch' = Some (Inr VOTING_DECISION_PENDING, ch') \<and>
    (\<exists>t. bc_GetVotingDecision js_stub tid (chain_run [BlockOp t] ch') =
       Some (Inr VOTING_DECISION_ABORT, chain_run [BlockOp t] ch'))"
proof -
  let ?B = "boards_of ch" and ?B' = "boards_of ch'"
  obtain c' where c': "sol_startVoting (deployed ch) (block_now ch) tid (of_int n) (of_int timeout) = Some c'"
    and ch': "ch' = ch\<lparr>deployed := c'\<rparr>" and enc: "encodes_uint 256 timeout"
    using assms(3) by (auto simp: bc_StartVoting_js client_startVoting_def split: if_splits)
  have t: "unat (of_int timeout :: uint256) = nat timeout" using enc by (rule unat_of_int) simp
  have acc: "0 < unat (of_int n :: uint32)" "clock ?B < nat timeout"
    using c' startVoting_accepts [of "deployed ch" "block_now ch" tid "of_int n" "of_int timeout"] assms(1) t
    by (auto simp: chain_ok_def boards_of_def getNow_def word_less_nat_alt)
  have bd: "board_for ?B' tid = open_board (unat (of_int n :: uint32)) (nat timeout)" "clock ?B' = clock ?B"
    using startVoting_board(1) [OF c'] t by (simp_all add: boards_of_def ch')
  have ok': "chain_ok ch'"
    using chain_exec_start [OF assms(1), of tid timeout n] assms(3) by simp
  have "board_decision (clock ?B') (board_for ?B' tid) = VOTING_DECISION_PENDING"
    using acc by (auto simp: bd board_decision_def)
  then have "bc_GetVotingDecision js_stub tid ch' = Some (Inr VOTING_DECISION_PENDING, ch')"
    using acc decision_answer [OF ok', of tid] by (simp add: bd)
  moreover
  let ?ch2 = "chain_run [BlockOp (of_int timeout)] ch'"
  have ok2: "chain_ok ?ch2" using ok' by (rule chain_run_boards)
  have "board_for (boards_of ?ch2) tid = board_for ?B' tid" "nat timeout \<le> clock (boards_of ?ch2)"
    using t by (simp_all add: chain_run_boards(1) [OF ok'])
  then have "bc_GetVotingDecision js_stub tid ?ch2 = Some (Inr VOTING_DECISION_ABORT, ?ch2)"
    using acc decision_answer [OF ok2, of tid] by (auto simp: bd board_decision_def)
  ultimately show ?thesis by blast
qed

theorem restart_erases_votes_witness:
  "\<exists>ch'. bc_StartVoting js_stub ''t'' 150 2 (chain_run demo_votes (genesis 1)) = Some (OkStatus, ch') \<and>
     bc_GetVotingDecision js_stub ''t'' ch' = Some (Inr VOTING_DECISION_PENDING, ch')"
proof -
  let ?ch = "chain_run demo_votes (genesis 1)"
  have ok: "chain_ok ?ch" by (simp add: chain_run_boards)
  have "client_startVoting ?ch ''t'' (of_int 2) 150 \<noteq> None" by code_simp
  then obtain ch' where ch': "bc_StartVoting js_stub ''t'' 150 2 ?ch = Some (OkStatus, ch')"
    by (auto simp: bc_StartVoting_js)
  from restart_erases_votes [OF ok demo_decision ch'] ch' show ?thesis by blast
qed

subsection \<open>Waiting for the adapter server\<close>

text \<open>The constructor of the C++ client returns if and only if the adapter server answers a heartbeat: after exactly
  \<open>k\<close> pauses of a second when its first \<open>k\<close> answers fail and the next succeeds; behind a channel
  that delivers it returns at once.\<close>

lemma constructor_returns:
  "(\<exists>logged. wait_for_adapter stub sleep 0 0 w = Some (k, logged, w')) \<longleftrightarrow> heartbeat_after stub sleep k w = Some w'"
  "wait_for_adapter js_stub sleep' 0 0 ch = Some (0, 0, ch)"
  using wait_for_adapter_returns_iff [of stub sleep 0 0 w k w']
  by (auto intro: trans [OF wait_for_adapter.simps] simp: bc_GetHeartBeat_js OkStatus_def absl_ok_def)

end
