(* ===== verification/Lmdb_Properties.thy ===== *)
theory Lmdb_Properties
  imports Cohort_Demo
begin

text \<open>
  The properties of the LMDB adapter, for every library that behaves as LMDB documents.
\<close>

text \<open>C26: The LMDB adapter keeps the contract of a database adapter: its transactions are those of a finite map from
  keys to 64-bit integers, with one committed state, a private copy for the writer, a snapshot for a reader, and
  "failed precondition" for a call outside a transaction; a missing key is reported as an internal error.\<close>

theorem lmdb_adapter_refines_map:
  assumes "lmdb lib committed view writer_free opened"
  shows "db_contract (lmdb_db lib) (\<lambda>w. decode (committed w)) (lmdb.txn_of view)
    (lmdb.good committed view writer_free opened) (InternalError ''Get failed.'') valid_key"
  by (rule lmdb.axioms_db [OF assms])

theorem lmdb_adapter_refines_map_witness:
  "db_contract (lmdb_db mdb_lib) (\<lambda>w. decode (mdb_data w)) (lmdb.txn_of mdb_view)
    (lmdb.good mdb_data mdb_view (\<lambda>w. mdb_writer w = None) (\<lambda>_ _. True)) (InternalError ''Get failed.'') valid_key"
  by (rule lmdb_adapter_refines_map [OF mdb.lmdb_axioms])

text \<open>One transaction that puts a value, ended by a commit or an abort, and a read-only one after it.\<close>

definition put_then_read ::
  "('env, 'txn, 'dbi, 'w) lmdb_lib \<Rightarrow> string \<Rightarrow> string \<Rightarrow> int64 \<Rightarrow> bool \<Rightarrow> string \<Rightarrow> 'w \<Rightarrow>
   (absl_status list \<times> (absl_status + int64)) option" where
  "put_then_read lib path k v keep k' w = do {
     (d, w) \<leftarrow> lmdb_create lib path w;
     (st1, d, w) \<leftarrow> lmdb_Begin lib d w;
     (st2, d, w) \<leftarrow> lmdb_Put lib d k v w;
     (st3, d, w) \<leftarrow> (if keep then lmdb_Commit lib d w else lmdb_Abort lib d w);
     (st4, d, w) \<leftarrow> lmdb_BeginReadOnly lib d w;
     (r, d, w) \<leftarrow> lmdb_Get lib d k' w;
     Some ([st1, st2, st3, st4], r)
   }"

text \<open>C25: What is put is read back: a 64-bit integer stored under a key in a transaction that commits is read back, bit for
  bit, by a later transaction, and so are all other keys as they were; after an abort every key is as it was.\<close>

theorem lmdb_put_read_roundtrip:
  assumes "lmdb lib committed view writer_free opened"
    and "creatable lib path committed writer_free opened w" and "valid_key k" and "valid_key k'"
  shows "put_then_read lib path k v keep k' w = Some ([OkStatus, OkStatus, OkStatus, OkStatus],
    if keep \<and> k' = k then Inr v
    else case decode (committed w) k' of None \<Rightarrow> Inl (InternalError ''Get failed.'') | Some u \<Rightarrow> Inr u)"
proof -
  note db = lmdb.axioms_db [OF assms(1)]
  let ?good = "lmdb.good committed view writer_free opened" and ?txn_of = "lmdb.txn_of view"
    and ?stored = "\<lambda>w. decode (committed w)"
  from assms(2) obtain d e w0 where c: "lmdb_create lib path w = Some (d, w0)" "env d = Some e" "opened e w0"
    "writer_free w0" "committed w0 = committed w" "all_int64 (committed w)" by (auto simp: creatable_def)
  then have g0: "?good d w0" "?txn_of d w0 = NoTxn"
    using created_txn [OF c(1)] by (simp_all add: lmdb.good_def [OF assms(1)] lmdb.txn_of_def [OF assms(1)])
  obtain d1 w1 where b: "lmdb_Begin lib d w0 = Some (OkStatus, d1, w1)" "?good d1 w1" "?stored w1 = ?stored w"
    "?txn_of d1 w1 = WriteTxn (?stored w)"
    using db_contract.begin_write [OF db g0] c(5) by auto
  obtain d2 w2 where p: "lmdb_Put lib d1 k v w1 = Some (OkStatus, d2, w2)" "?good d2 w2" "?stored w2 = ?stored w"
    "?txn_of d2 w2 = WriteTxn ((?stored w)(k \<mapsto> v))"
    using db_contract.put_write [OF db b(2,4) assms(3), of v] b(3) by auto
  obtain d3 w3 where e: "(if keep then lmdb_Commit lib d2 w2 else lmdb_Abort lib d2 w2) = Some (OkStatus, d3, w3)"
    "?good d3 w3" "?txn_of d3 w3 = NoTxn" "?stored w3 = (if keep then (?stored w)(k \<mapsto> v) else ?stored w)"
    using db_contract.commit_write [OF db p(2,4)] db_contract.abort_open [OF db p(2)] p(3,4) by (cases keep) (auto simp del: fun_upd_apply)
  obtain d4 w4 where r: "lmdb_BeginReadOnly lib d3 w3 = Some (OkStatus, d4, w4)" "?good d4 w4"
    "?txn_of d4 w4 = ReadTxn (?stored w3)"
    using db_contract.begin_read [OF db e(2,3)] by auto
  then have "lmdb_Get lib d4 k' w4 = Some (case ?stored w3 k' of None \<Rightarrow> Inl (InternalError ''Get failed.'') | Some u \<Rightarrow> Inr u, d4, w4)"
    using db_contract.get_present [OF db r(2) _ assms(4)] db_contract.get_absent [OF db r(2) _ assms(4)]
    by (auto split: option.split)
  then show ?thesis using c(1) b(1) p(1) e(1,4) r(1) by (cases keep) (simp_all add: put_then_read_def)
qed

theorem lmdb_put_read_roundtrip_witness:
  "put_then_read mdb_lib ''p'' ''k'' (- (2 ^ 63)) True ''k'' mdb_empty =
    Some ([OkStatus, OkStatus, OkStatus, OkStatus], Inr (- (2 ^ 63)))"
  by (subst lmdb_put_read_roundtrip [OF mdb.lmdb_axioms creatable_empty]) simp_all

end
