(* ===== verification/Client_Model.thy ===== *)
theory Client_Model
  imports Messages Status_Utils Retry_Loop
begin

text \<open>
  \<open>client::Client\<close> (\<open>src/client/client.{h,cc}\<close>): committing a transaction through the coordinator and
  polling for its result. A record \<open>client_env\<close> over a world \<open>'w\<close> holds the coordinator's stub, the
  clock and the two ways to sleep. A call that never returns has the result \<^term>\<open>None\<close>; a loop that
  may run for ever is a \<open>partial_function\<close>. Logging is left out.
\<close>

record 'w coordinator_stub =
  cs_CommitAtomicTransaction :: "commit_request \<Rightarrow> 'w \<Rightarrow> (grpc_status \<times> commit_response \<times> 'w) option"
  cs_GetTransactionResult :: "string \<Rightarrow> 'w \<Rightarrow> (grpc_status \<times> coord_result \<times> 'w) option"

record 'w client_env =
  client_stub :: "'w coordinator_stub"
  client_now :: "'w \<Rightarrow> time"
  client_sleep_until :: "time \<Rightarrow> 'w \<Rightarrow> 'w"
  client_sleep_for :: "duration \<Rightarrow> 'w \<Rightarrow> 'w"

type_synonym response_or_status = "grpc_status + coord_result"

text \<open>A future is set already, or belongs to a task that was submitted to the thread pool.\<close>

datatype future = Promised response_or_status | Submitted commit_response

subsection \<open>The operations\<close>

definition TryGetTransactionResults ::
  "'w client_env \<Rightarrow> string \<Rightarrow> 'w \<Rightarrow> (bool \<times> coord_result \<times> 'w) option" where
  "TryGetTransactionResults E tid w = do {
     (get_status, response, w) \<leftarrow> cs_GetTransactionResult (client_stub E) tid w;
     Some (if \<not> grpc_ok get_status then False
           else (case response of
               CoordPending \<Rightarrow> False
             | CoordCommitted c \<Rightarrow> complete_flag c
             | _ \<Rightarrow> True), response, w)
   }"

partial_function (option) poll_results ::
  "'w client_env \<Rightarrow> string \<Rightarrow> time \<Rightarrow> 'w \<Rightarrow> (coord_result \<times> 'w) option" where
  "poll_results E tid presumed_abort_time w = do {
     (final, response, w) \<leftarrow> TryGetTransactionResults E tid w;
     if final then Some (response, w)
     else poll_results E tid presumed_abort_time
            (client_sleep_until E (client_now E w + (client_now E w - presumed_abort_time)) w)
   }"

declare poll_results.simps [code]

definition GetTransactionResults ::
  "'w client_env \<Rightarrow> commit_response \<Rightarrow> 'w \<Rightarrow> (response_or_status \<times> 'w) option" where
  "GetTransactionResults E prepare_response w =
     (let presumed_abort_time = FromUnixSeconds (seconds (config_time (cresp_config prepare_response))) +
            Nanoseconds (nanos (config_time (cresp_config prepare_response)))
      in do {
        (response, w) \<leftarrow> poll_results E (global_transaction_id prepare_response) presumed_abort_time
          (client_sleep_until E presumed_abort_time w);
        Some (Inr response, w)
      })"

definition probe_request :: commit_request where
  "probe_request = \<lparr>client_transaction_id = ''id'', creq_transaction = [],
     creq_config = \<lparr>config_abort_time = None\<rparr>\<rparr>"

partial_function (option) WaitForCoordinator :: "'w client_env \<Rightarrow> 'w \<Rightarrow> 'w option" where
  "WaitForCoordinator E w = do {
     (prepare_status, response, w) \<leftarrow> cs_CommitAtomicTransaction (client_stub E) probe_request w;
     if error_code prepare_status \<noteq> kUnavailable then Some w
     else WaitForCoordinator E (client_sleep_for E (Seconds 1) w)
   }"

declare WaitForCoordinator.simps [code]

definition CommitAsync :: "'w client_env \<Rightarrow> commit_request \<Rightarrow> 'w \<Rightarrow> (future \<times> 'w) option" where
  "CommitAsync E request w = do {
     (prepare_status, prepare_response, w) \<leftarrow> cs_CommitAtomicTransaction (client_stub E) request w;
     Some (if \<not> grpc_ok prepare_status then Promised (Inl prepare_status) else Submitted prepare_response, w)
   }"

text \<open>\<open>future.get()\<close> of a task that the pool runs while the caller waits.\<close>

fun future_get :: "'w client_env \<Rightarrow> future \<Rightarrow> 'w \<Rightarrow> (response_or_status \<times> 'w) option" where
  "future_get E (Promised r) w = Some (r, w)"
| "future_get E (Submitted prepare_response) w = GetTransactionResults E prepare_response w"

definition CommitSync :: "'w client_env \<Rightarrow> commit_request \<Rightarrow> 'w \<Rightarrow> (response_or_status \<times> 'w) option" where
  "CommitSync E request w = do {
     (future_response, w) \<leftarrow> CommitAsync E request w;
     future_get E future_response w
   }"

subsection \<open>The two loops\<close>

definition poll_attempt ::
  "'w client_env \<Rightarrow> string \<Rightarrow> time \<Rightarrow> 'w \<Rightarrow> ((coord_result \<times> 'w) + 'w) option" where
  "poll_attempt E tid t w = map_option (\<lambda>(final, response, w).
     if final then Inl (response, w)
     else Inr (client_sleep_until E (client_now E w + (client_now E w - t)) w)) (TryGetTransactionResults E tid w)"

interpretation polling: retry_loop "poll_results E tid t" "poll_attempt E tid t" for E tid t
proof
  fix w :: 'a and r and P :: "'a \<Rightarrow> coord_result \<times> 'a \<Rightarrow> bool"
  show "poll_results E tid t w = (case poll_attempt E tid t w of None \<Rightarrow> None | Some (Inl r) \<Rightarrow> Some r
      | Some (Inr w') \<Rightarrow> poll_results E tid t w')"
    by (subst poll_results.simps) (auto simp: poll_attempt_def split: option.split)
  assume ret: "poll_results E tid t w = Some r"
    and good: "\<And>w r. poll_attempt E tid t w = Some (Inl r) \<Longrightarrow> P w r"
    and again: "\<And>w w' r. poll_attempt E tid t w = Some (Inr w') \<Longrightarrow> P w' r \<Longrightarrow> P w r"
  have "E' = E \<and> tid' = tid \<and> t' = t \<longrightarrow> P w' r'" if "poll_results E' tid' t' w' = Some r'" for E' tid' t' w' r'
  proof (rule poll_results.raw_induct [OF _ that], intro impI)
    fix f :: "'a client_env \<Rightarrow> string \<Rightarrow> time \<Rightarrow> 'a \<Rightarrow> (coord_result \<times> 'a) option" and E' tid' t' w' r'
    assume IH: "\<And>E' tid' t' w' r'. f E' tid' t' w' = Some r' \<Longrightarrow> E' = E \<and> tid' = tid \<and> t' = t \<longrightarrow> P w' r'"
      and body: "TryGetTransactionResults E' tid' w' \<bind> (\<lambda>(final, response, w). if final then Some (response, w)
        else f E' tid' t' (client_sleep_until E' (client_now E' w + (client_now E' w - t')) w)) = Some r'"
      and eqs: "E' = E \<and> tid' = tid \<and> t' = t"
    from body eqs obtain final response w1 where "TryGetTransactionResults E tid w' = Some (final, response, w1)"
      and "(if final then Some (response, w1)
        else f E tid t (client_sleep_until E (client_now E w1 + (client_now E w1 - t)) w1)) = Some r'"
      by (auto elim!: bind_elims)
    then show "P w' r'"
      using good [of w' r'] again [of w' _ r'] IH by (cases final) (auto simp: poll_attempt_def)
  qed
  with ret show "P w r" by blast
qed

definition probe_attempt :: "'w client_env \<Rightarrow> 'w \<Rightarrow> ('w + 'w) option" where
  "probe_attempt E w = map_option (\<lambda>(status, response, w).
     if error_code status \<noteq> kUnavailable then Inl w else Inr (client_sleep_for E (Seconds 1) w))
     (cs_CommitAtomicTransaction (client_stub E) probe_request w)"

interpretation probing: retry_loop "WaitForCoordinator E" "probe_attempt E" for E
proof
  fix w r :: 'a and P :: "'a \<Rightarrow> 'a \<Rightarrow> bool"
  show "WaitForCoordinator E w = (case probe_attempt E w of None \<Rightarrow> None | Some (Inl r) \<Rightarrow> Some r
      | Some (Inr w') \<Rightarrow> WaitForCoordinator E w')"
    by (subst WaitForCoordinator.simps) (auto simp: probe_attempt_def split: option.split)
  assume ret: "WaitForCoordinator E w = Some r"
    and good: "\<And>w r. probe_attempt E w = Some (Inl r) \<Longrightarrow> P w r"
    and again: "\<And>w w' r. probe_attempt E w = Some (Inr w') \<Longrightarrow> P w' r \<Longrightarrow> P w r"
  have "E' = E \<longrightarrow> P w' r'" if "WaitForCoordinator E' w' = Some r'" for E' w' r'
  proof (rule WaitForCoordinator.raw_induct [OF _ that], intro impI)
    fix f :: "'a client_env \<Rightarrow> 'a \<Rightarrow> 'a option" and E' w' r'
    assume IH: "\<And>E' w' r'. f E' w' = Some r' \<Longrightarrow> E' = E \<longrightarrow> P w' r'"
      and body: "cs_CommitAtomicTransaction (client_stub E') probe_request w' \<bind> (\<lambda>(prepare_status, response, w).
        if error_code prepare_status \<noteq> kUnavailable then Some w else f E' (client_sleep_for E' (Seconds 1) w)) = Some r'"
      and E': "E' = E"
    from body obtain st resp w1 where
      "cs_CommitAtomicTransaction (client_stub E) probe_request w' = Some (st, resp, w1)"
      and "(if error_code st \<noteq> kUnavailable then Some w1 else f E (client_sleep_for E (Seconds 1) w1)) = Some r'"
      unfolding E' by (auto elim!: bind_elims)
    then show "P w' r'"
      using good [of w' r'] again [of w' _ r'] IH
      by (cases "error_code st \<noteq> kUnavailable") (auto simp: probe_attempt_def)
  qed
  with ret show "P w r" by blast
qed

end
