(* ===== verification/Client_Program.thy ===== *)
theory Client_Program
  imports Client_Model
begin

text \<open>
  The client program (\<open>src/client/client_main.cc\<close>) and the transaction files it reads
  (\<open>src/client/client.proto\<close>): building the requests of a file and sending them. A record
  \<open>program_env\<close> over a world \<open>'w\<close> holds what the program calls: \<open>rand()\<close> (a number from 0 to
  \<open>RAND_MAX\<close>), the iteration order of a hash set, protobuf's serializer, \<open>absl::CEscape\<close>, the
  parser of the file, and the clock and stub of the client library.
\<close>

subsection \<open>client.proto\<close>

datatype client_op_type = OP_TYPE_UNSPECIFIED | OP_TYPE_GET | OP_TYPE_PUT

datatype address_type = AddressTypeNotSet | kAddress string | kRandomAddress bool
datatype key_type = KeyTypeNotSet | kKey string | kRandomKey bool | kRandomPutKey bool
datatype value_type = ValueTypeNotSet | kValue int64 | kRelativeValue int64 | kRandomValue bool | kRandomRelativeValue bool

record client_op =
  co_type :: client_op_type
  address_type :: address_type
  key_type :: key_type
  value_type :: value_type
  repeat_count :: int

record simple_transaction =
  time_before_abort :: "timestamp option"
  st_op :: "client_op list"
  st_async :: bool

record simple_transactions =
  initial_transaction :: "simple_transaction list"
  cycle_transaction :: "simple_transaction list"
  cycle_length :: int

text \<open>The accessors \<open>op.address()\<close>, \<open>op.key()\<close> and \<open>op.value()\<close>, with protobuf's defaults.\<close>

fun the_address :: "address_type \<Rightarrow> string" where
  "the_address (kAddress a) = a" | "the_address _ = []"

fun the_key :: "key_type \<Rightarrow> string" where
  "the_key (kKey k) = k" | "the_key _ = []"

fun the_value :: "value_type \<Rightarrow> int64" where
  "the_value (kValue v) = v" | "the_value _ = 0"

subsection \<open>State and environment\<close>

record run_info =
  cohort_addresses :: "string list"
  run_requests :: "(commit_request \<times> bool) list"

type_synonym put_keys = "string \<rightharpoonup> string list"

record 'w program_env =
  rand :: "'w \<Rightarrow> nat \<times> 'w"
  iter_put_keys :: "string list \<Rightarrow> string list"
  SerializeAsString :: "commit_request \<Rightarrow> string"
  CEscape :: "string \<Rightarrow> string"
  parse_file :: "string \<Rightarrow> simple_transactions option"
  client_lib :: "'w client_env"

subsection \<open>Building requests\<close>

definition empty_request :: commit_request where
  "empty_request = \<lparr>client_transaction_id = [], creq_transaction = [], creq_config = \<lparr>config_abort_time = None\<rparr>\<rparr>"

definition CreateRequest :: "string \<Rightarrow> time \<Rightarrow> commit_request" where
  "CreateRequest transaction_id now =
     \<lparr>client_transaction_id = transaction_id, creq_transaction = [],
      creq_config = \<lparr>config_abort_time = Some (ToTimespec (now + Seconds 5))\<rparr>\<rparr>"

definition add_op :: "op_type \<Rightarrow> string \<Rightarrow> commit_request \<Rightarrow> commit_request" where
  "add_op t address request = request\<lparr>creq_transaction := creq_transaction request @
     [\<lparr>op_namespace = \<lparr>ns_identifier = [], ns_address = address\<rparr>, op_type = t\<rparr>]\<rparr>"

definition AddGetOp :: "commit_request \<Rightarrow> string \<Rightarrow> string \<Rightarrow> commit_request" where
  "AddGetOp request address key = add_op (GetOp \<lparr>get_key = key\<rparr>) address request"

definition AddPutOp :: "commit_request \<Rightarrow> string \<Rightarrow> string \<Rightarrow> int64 \<Rightarrow> commit_request" where
  "AddPutOp request address key value =
     add_op (PutOp \<lparr>put_key = key, put_val = Constant (ConstantValue (Some value))\<rparr>) address request"

definition AddRelativePutOp :: "commit_request \<Rightarrow> string \<Rightarrow> string \<Rightarrow> int64 \<Rightarrow> commit_request" where
  "AddRelativePutOp request address key relative_value =
     add_op (PutOp \<lparr>put_key = key, put_val = Relative \<lparr>relative_part = Some (NumericValue (Some relative_value)),
       default_part = None\<rparr>\<rparr>) address request"

definition random_addresses :: "string list" where
  "random_addresses = [''0.0.0.0:60000'', ''0.0.0.0:60001'', ''0.0.0.0:60002'', ''0.0.0.0:60003'',
     ''0.0.0.0:60004'', ''0.0.0.0:60005'', ''0.0.0.0:60006'', ''0.0.0.0:60007'', ''0.0.0.0:60008'',
     ''0.0.0.0:60009'']"

definition GetRandomAddress :: "'w program_env \<Rightarrow> 'w \<Rightarrow> string \<times> 'w" where
  "GetRandomAddress E w =
     (let (r, w) = rand E w in (random_addresses ! (r mod length random_addresses), w))"

primrec random_chars :: "'w program_env \<Rightarrow> nat \<Rightarrow> 'w \<Rightarrow> string \<times> 'w" where
  "random_chars E 0 w = ([], w)"
| "random_chars E (Suc n) w =
     (let (r, w) = rand E w; (chars, w) = random_chars E n w in (char_of (97 + r mod 26) # chars, w))"

definition GetRandomKey :: "'w program_env \<Rightarrow> 'w \<Rightarrow> string \<times> 'w" where
  "GetRandomKey E w = random_chars E 3 w"

text \<open>With no keys the division \<open>rand() % keys.size()\<close> is by zero: the program dies.\<close>

definition GetRandomKey_of :: "'w program_env \<Rightarrow> string list \<Rightarrow> 'w \<Rightarrow> (string \<times> 'w) option" where
  "GetRandomKey_of E keys w =
     (let (r, w) = rand E w
      in if length keys = 0 then None else Some (iter_put_keys E keys ! (r mod length keys), w))"

definition GetRandomValue :: "'w program_env \<Rightarrow> 'w \<Rightarrow> int64 \<times> 'w" where
  "GetRandomValue E w = (let (r, w) = rand E w in (word_of_int (int (r mod 50) - 10), w))"

definition AddOperation ::
  "'w program_env \<Rightarrow> client_op \<Rightarrow> commit_request \<times> run_info \<times> put_keys \<Rightarrow> 'w \<Rightarrow>
   ((commit_request \<times> run_info \<times> put_keys) \<times> 'w) option" where
  "AddOperation E op = (\<lambda>(request, run_info, put_keys_by_address) w. do {
     let (address, w) = (case address_type op of
           kRandomAddress _ \<Rightarrow> GetRandomAddress E w | _ \<Rightarrow> (the_address (address_type op), w));
     let run_info = run_info\<lparr>cohort_addresses := hs_emplace address (cohort_addresses run_info)\<rparr>;
     let keys = index_default [] put_keys_by_address address;
     (key, w) \<leftarrow> (case key_type op of
           kRandomKey _ \<Rightarrow> Some (GetRandomKey E w)
         | kRandomPutKey _ \<Rightarrow> GetRandomKey_of E keys w
         | _ \<Rightarrow> Some (the_key (key_type op), w));
     Some (if co_type op = OP_TYPE_PUT
       then let put_keys_by_address = put_keys_by_address(address \<mapsto> hs_emplace key keys);
                (request, w) = (case value_type op of
                     kRandomRelativeValue _ \<Rightarrow>
                       (let (v, w) = GetRandomValue E w in (AddRelativePutOp request address key v, w))
                   | kRelativeValue v \<Rightarrow> (AddRelativePutOp request address key v, w)
                   | kRandomValue _ \<Rightarrow> (let (v, w) = GetRandomValue E w in (AddPutOp request address key v, w))
                   | _ \<Rightarrow> (AddPutOp request address key (the_value (value_type op)), w))
            in ((request, run_info, put_keys_by_address), w)
       else ((AddGetOp request address key, run_info, put_keys_by_address), w))
   })"

text \<open>The loop over the operations, each repeated; a negative count repeats it no time.\<close>

primrec repeat_operation ::
  "'w program_env \<Rightarrow> client_op \<Rightarrow> nat \<Rightarrow> commit_request \<times> run_info \<times> put_keys \<Rightarrow> 'w \<Rightarrow>
   ((commit_request \<times> run_info \<times> put_keys) \<times> 'w) option" where
  "repeat_operation E op 0 x w = Some (x, w)"
| "repeat_operation E op (Suc n) x w = do { (x, w) \<leftarrow> AddOperation E op x w; repeat_operation E op n x w }"

definition repeats :: "client_op \<Rightarrow> nat" where
  "repeats op = nat (if repeat_count op \<noteq> 0 then repeat_count op else 1)"

primrec add_operations ::
  "'w program_env \<Rightarrow> client_op list \<Rightarrow> commit_request \<times> run_info \<times> put_keys \<Rightarrow> 'w \<Rightarrow>
   ((commit_request \<times> run_info \<times> put_keys) \<times> 'w) option" where
  "add_operations E [] x w = Some (x, w)"
| "add_operations E (op # ops) x w = do {
     (x, w) \<leftarrow> repeat_operation E op (repeats op) x w;
     add_operations E ops x w
   }"

definition AddTransaction ::
  "'w program_env \<Rightarrow> simple_transaction \<Rightarrow> run_info \<times> put_keys \<Rightarrow> 'w \<Rightarrow> ((run_info \<times> put_keys) \<times> 'w) option" where
  "AddTransaction E transaction = (\<lambda>(run_info, put_keys_by_address) w. do {
     let request = (case time_before_abort transaction of
           None \<Rightarrow> empty_request
         | Some d \<Rightarrow> empty_request\<lparr>creq_config := \<lparr>config_abort_time = Some \<lparr>seconds = seconds d, nanos = nanos d\<rparr>\<rparr>\<rparr>);
     ((request, run_info, put_keys_by_address), w) \<leftarrow>
       add_operations E (st_op transaction) (request, run_info, put_keys_by_address) w;
     let request = request\<lparr>client_transaction_id := CEscape E (SerializeAsString E request)\<rparr>;
     Some ((run_info\<lparr>run_requests := run_requests run_info @ [(request, st_async transaction)]\<rparr>,
            put_keys_by_address), w)
   })"

primrec add_transactions ::
  "'w program_env \<Rightarrow> simple_transaction list \<Rightarrow> run_info \<times> put_keys \<Rightarrow> 'w \<Rightarrow> ((run_info \<times> put_keys) \<times> 'w) option" where
  "add_transactions E [] x w = Some (x, w)"
| "add_transactions E (t # ts) x w = do { (x, w) \<leftarrow> AddTransaction E t x w; add_transactions E ts x w }"

definition CreateRunInfoFromFile ::
  "'w program_env \<Rightarrow> string \<Rightarrow> 'w \<Rightarrow> ((absl_status + run_info) \<times> 'w) option" where
  "CreateRunInfoFromFile E filename w = (case parse_file E filename of
       None \<Rightarrow> Some (Inl (mk_absl_status kInvalidArgument ''File could not be parsed as transactions''), w)
     | Some transactions \<Rightarrow> do {
         let run_info = \<lparr>cohort_addresses = [], run_requests = []\<rparr>;
         (x, w) \<leftarrow> add_transactions E (initial_transaction transactions) (run_info, Map.empty) w;
         (x, w) \<leftarrow> add_transactions E
           (concat (replicate (nat (cycle_length transactions)) (cycle_transaction transactions))) x w;
         Some (Inr (fst x), w)
       })"

subsection \<open>Sending them\<close>

text \<open>
  \<open>SendRequests\<close> as steps: the main thread sends the requests one after another, waiting for the answer
  of a synchronous one; a task of the thread pool may run at any time; at the end the main
  thread collects the futures in order. \<open>logged\<close> is what was passed to \<open>LogResponseOrStatus\<close>.
\<close>

record 'w sending =
  todo :: "(commit_request \<times> bool) list"
  futures :: "future list"
  collected_futures :: nat
  logged :: "response_or_status list"
  send_world :: 'w

definition absolute_config :: "'w client_env \<Rightarrow> 'w \<Rightarrow> commit_request \<Rightarrow> commit_request" where
  "absolute_config E w request = (case config_abort_time (creq_config request) of
     None \<Rightarrow> request
   | Some ts \<Rightarrow> request\<lparr>creq_config := \<lparr>config_abort_time =
       Some (ts\<lparr>seconds := seconds ts + ToUnixSeconds (client_now E w)\<rparr>)\<rparr>\<rparr>)"

definition start_sending :: "'w client_env \<Rightarrow> (commit_request \<times> bool) list \<Rightarrow> 'w \<Rightarrow> 'w sending option" where
  "start_sending E requests w = map_option (\<lambda>w. \<lparr>todo = requests, futures = [], collected_futures = 0,
     logged = [], send_world = w\<rparr>) (WaitForCoordinator E w)"

inductive send_step :: "'w client_env \<Rightarrow> 'w sending \<Rightarrow> 'w sending \<Rightarrow> bool" for E where
  async: "todo x = (request, True) # rest \<Longrightarrow>
    CommitAsync E (absolute_config E (send_world x) request) (send_world x) = Some (f, w) \<Longrightarrow>
    send_step E x (x\<lparr>todo := rest, futures := futures x @ [f], send_world := w\<rparr>)"
| sync: "todo x = (request, False) # rest \<Longrightarrow>
    CommitSync E (absolute_config E (send_world x) request) (send_world x) = Some (r, w) \<Longrightarrow>
    send_step E x (x\<lparr>todo := rest, logged := logged x @ [r], send_world := w\<rparr>)"
| pool: "i < length (futures x) \<Longrightarrow> futures x ! i = Submitted resp \<Longrightarrow>
    GetTransactionResults E resp (send_world x) = Some (r, w) \<Longrightarrow>
    send_step E x (x\<lparr>futures := (futures x)[i := Promised r], send_world := w\<rparr>)"
| collect: "todo x = [] \<Longrightarrow> collected_futures x < length (futures x) \<Longrightarrow>
    futures x ! collected_futures x = Promised r \<Longrightarrow>
    send_step E x (x\<lparr>collected_futures := Suc (collected_futures x), logged := logged x @ [r]\<rparr>)"

inductive_cases send_stepE: "send_step E x x'"

definition sending_done :: "'w sending \<Rightarrow> bool" where
  "sending_done x \<longleftrightarrow> todo x = [] \<and> collected_futures x = length (futures x)"

end
