(* ===== verification/Client_Runs.thy ===== *)
theory Client_Runs
  imports Client_Program
begin

text \<open>
  Lemmas on the client program. A specification of the operations that a file asks for, independent of
  the random numbers drawn (\<open>op_built\<close>, \<open>trace_built\<close>), and that the requests meet it; the order
  in which polling lets time pass; and that sending makes progress until every answer is logged.
\<close>

subsection \<open>Random choices\<close>

definition small_value :: "int64 \<Rightarrow> bool" where
  "small_value v \<longleftrightarrow> - 10 \<le> sint v \<and> sint v \<le> 39"

lemma GetRandomValue_range: "GetRandomValue E w = (v, w') \<Longrightarrow> small_value v"
proof -
  have "small_value (word_of_int (int (r mod 50) - 10))" for r
  proof -
    have r: "0 \<le> int (r mod 50)" "int (r mod 50) < 50" by simp_all
    have k: "sint (word_of_int k :: int64) = k" if "- 10 \<le> k" "k < 40" for k
      unfolding sint_sbintrunc' by (rule signed_take_bit_int_eq_self) (use that in simp_all)
    have "sint (word_of_int (int (r mod 50) - 10) :: int64) = int (r mod 50) - 10"
      by (rule k) (use r in linarith)+
    then show ?thesis using r unfolding small_value_def by linarith
  qed
  then show "GetRandomValue E w = (v, w') \<Longrightarrow> small_value v"
    by (auto simp: GetRandomValue_def split: prod.splits)
qed

lemma GetRandomAddress_known: "GetRandomAddress E w = (a, w') \<Longrightarrow> a \<in> set random_addresses"
proof -
  have "0 < length random_addresses" by (simp add: random_addresses_def)
  then have "random_addresses ! (r mod length random_addresses) \<in> set random_addresses" for r
    by (intro nth_mem) simp
  then show "GetRandomAddress E w = (a, w') \<Longrightarrow> a \<in> set random_addresses"
    by (auto simp: GetRandomAddress_def split: prod.splits)
qed

definition lower_case :: "char \<Rightarrow> bool" where
  "lower_case c \<longleftrightarrow> 97 \<le> (of_char c :: nat) \<and> (of_char c :: nat) \<le> 122"

lemma random_chars_lower:
  "random_chars E n w = (cs, w') \<Longrightarrow> length cs = n \<and> (\<forall>c \<in> set cs. lower_case c)"
proof (induction n arbitrary: w w' cs)
  case (Suc n)
  obtain r w1 where r: "rand E w = (r, w1)" by fastforce
  obtain cs1 w2 where cs: "random_chars E n w1 = (cs1, w2)" by fastforce
  have "r mod 26 < 26" by simp
  then have "(97 + r mod 26) mod 256 = 97 + r mod 26" by (intro mod_less) linarith
  then have "of_char (char_of (97 + r mod 26) :: char) = 97 + r mod 26" by simp
  then have "lower_case (char_of (97 + r mod 26))" using \<open>r mod 26 < 26\<close> unfolding lower_case_def by linarith
  with Suc.IH [OF cs] Suc.prems r cs show ?case by (auto simp del: of_char_of)
qed simp

lemma GetRandomKey_of_member:
  assumes "GetRandomKey_of E keys w = Some (k, w')" and "perm_order (iter_put_keys E)"
  shows "k \<in> set keys"
proof -
  obtain r where "k = iter_put_keys E keys ! (r mod length keys)" "keys \<noteq> []"
    using assms(1) by (auto simp: GetRandomKey_of_def split: prod.splits if_splits)
  then show ?thesis
    using perm_order_set [OF assms(2), of keys] perm_order_length [OF assms(2), of keys] nth_mem
    by (metis length_greater_0_conv mod_less_divisor)
qed

subsection \<open>What the operations of a request must be\<close>

definition key_built :: "put_keys \<Rightarrow> string \<Rightarrow> key_type \<Rightarrow> string \<Rightarrow> bool" where
  "key_built pk address kt key = (case kt of
     kRandomKey _ \<Rightarrow> length key = 3 \<and> (\<forall>c \<in> set key. lower_case c)
   | kRandomPutKey _ \<Rightarrow> key \<in> set (index_default [] pk address)
   | _ \<Rightarrow> key = the_key kt)"

definition value_built :: "value_type \<Rightarrow> put_value \<Rightarrow> bool" where
  "value_built vt pv = (case vt of
     kRandomRelativeValue _ \<Rightarrow> (\<exists>v. small_value v \<and>
       pv = Relative \<lparr>relative_part = Some (NumericValue (Some v)), default_part = None\<rparr>)
   | kRelativeValue v \<Rightarrow> pv = Relative \<lparr>relative_part = Some (NumericValue (Some v)), default_part = None\<rparr>
   | kRandomValue _ \<Rightarrow> (\<exists>v. small_value v \<and> pv = Constant (ConstantValue (Some v)))
   | _ \<Rightarrow> pv = Constant (ConstantValue (Some (the_value vt))))"

definition op_built :: "put_keys \<Rightarrow> client_op \<Rightarrow> operation \<Rightarrow> bool" where
  "op_built pk c op \<longleftrightarrow> ns_identifier (op_namespace op) = [] \<and>
     (case address_type c of
        kRandomAddress _ \<Rightarrow> ns_address (op_namespace op) \<in> set random_addresses
      | a \<Rightarrow> ns_address (op_namespace op) = the_address a) \<and>
     (\<exists>key. key_built pk (ns_address (op_namespace op)) (key_type c) key \<and>
        (if co_type c = OP_TYPE_PUT
         then \<exists>pv. op_type op = PutOp \<lparr>put_key = key, put_val = pv\<rparr> \<and> value_built (value_type c) pv
         else op_type op = GetOp \<lparr>get_key = key\<rparr>))"

text \<open>The keys put so far, which later operations may choose from.\<close>

definition note_put :: "operation \<Rightarrow> put_keys \<Rightarrow> put_keys" where
  "note_put op pk = (case op_type op of
     PutOp p \<Rightarrow> (let a = ns_address (op_namespace op) in pk(a \<mapsto> hs_emplace (put_key p) (index_default [] pk a)))
   | _ \<Rightarrow> pk)"

fun trace_built :: "put_keys \<Rightarrow> client_op list \<Rightarrow> operation list \<Rightarrow> bool" where
  "trace_built pk [] ops \<longleftrightarrow> ops = []"
| "trace_built pk (c # cs) ops \<longleftrightarrow> (case ops of [] \<Rightarrow> False
     | op # ops \<Rightarrow> op_built pk c op \<and> trace_built (note_put op pk) cs ops)"

definition unrolled :: "client_op list \<Rightarrow> client_op list" where
  "unrolled cs = concat (map (\<lambda>c. replicate (repeats c) c) cs)"

lemma trace_built_append:
  "trace_built pk cs ops \<Longrightarrow> trace_built (fold note_put ops pk) cs' ops' \<Longrightarrow> trace_built pk (cs @ cs') (ops @ ops')"
  by (induction cs arbitrary: pk ops) (auto split: list.splits)

lemma trace_built_length: "trace_built pk cs ops \<Longrightarrow> length ops = length cs"
  by (induction cs arbitrary: pk ops) (auto split: list.splits)

text \<open>What a part of the program that adds operations does.\<close>

definition adds ::
  "client_op list \<Rightarrow> operation list \<Rightarrow> commit_request \<times> run_info \<times> put_keys \<Rightarrow> commit_request \<times> run_info \<times> put_keys \<Rightarrow> bool" where
  "adds cs ops x x' \<longleftrightarrow> trace_built (snd (snd x)) cs ops \<and>
     fst x' = (fst x)\<lparr>creq_transaction := creq_transaction (fst x) @ ops\<rparr> \<and>
     snd (snd x') = fold note_put ops (snd (snd x)) \<and> run_requests (fst (snd x')) = run_requests (fst (snd x))"

lemma adds_Nil [simp]: "adds [] [] x x"
  by (simp add: adds_def)

lemma adds_append: "adds cs ops x x1 \<Longrightarrow> adds cs' ops' x1 x2 \<Longrightarrow> adds (cs @ cs') (ops @ ops') x x2"
  by (auto simp: adds_def intro: trace_built_append)

lemma AddOperation_adds:
  assumes "AddOperation E op x w = Some (x', w')" and "perm_order (iter_put_keys E)"
  shows "\<exists>ops. adds [op] ops x x'"
proof -
  obtain request ri pk where x: "x = (request, ri, pk)" by (metis prod.exhaust)
  obtain a w1 where a: "(case address_type op of kRandomAddress _ \<Rightarrow> GetRandomAddress E w
      | _ \<Rightarrow> (the_address (address_type op), w)) = (a, w1)" by fastforce
  with assms(1) x obtain key w2 where key: "(case key_type op of kRandomKey _ \<Rightarrow> Some (GetRandomKey E w1)
      | kRandomPutKey _ \<Rightarrow> GetRandomKey_of E (index_default [] pk a) w1
      | _ \<Rightarrow> Some (the_key (key_type op), w1)) = Some (key, w2)"
    by (auto simp: AddOperation_def Let_def elim!: bind_elims)
  have addr: "case address_type op of kRandomAddress _ \<Rightarrow> a \<in> set random_addresses | at \<Rightarrow> a = the_address at"
    using a GetRandomAddress_known by (auto split: address_type.splits)
  have kb: "key_built pk a (key_type op) key"
    using key GetRandomKey_of_member [OF _ assms(2)]
    by (auto simp: key_built_def GetRandomKey_def split: key_type.splits dest!: random_chars_lower)
  obtain pv w3 where pv: "value_built (value_type op) pv" and built:
    "(if co_type op = OP_TYPE_PUT then add_op (PutOp \<lparr>put_key = key, put_val = pv\<rparr>) a request
      else add_op (GetOp \<lparr>get_key = key\<rparr>) a request) = fst x'"
    and rest: "snd (snd x') = (if co_type op = OP_TYPE_PUT then pk(a \<mapsto> hs_emplace key (index_default [] pk a)) else pk)"
      "run_requests (fst (snd x')) = run_requests ri"
  proof (cases "co_type op = OP_TYPE_PUT")
    case True
    obtain v w4 where v: "GetRandomValue E w2 = (v, w4)" by fastforce
    then have "small_value v" by (rule GetRandomValue_range)
    with True v assms(1) x a key show thesis
      by (cases "value_type op"; intro that)
         (auto simp: AddOperation_def Let_def AddPutOp_def AddRelativePutOp_def value_built_def)
  next
    case False
    have "\<exists>pv. value_built (value_type op) pv"
      by (cases "value_type op") (auto simp: value_built_def small_value_def intro!: exI [of _ "0 :: int64"])
    with False assms(1) x a key show thesis
      by (auto simp: AddOperation_def Let_def AddGetOp_def intro: that)
  qed
  let ?op = "\<lparr>op_namespace = \<lparr>ns_identifier = [], ns_address = a\<rparr>, op_type =
    (if co_type op = OP_TYPE_PUT then PutOp \<lparr>put_key = key, put_val = pv\<rparr> else GetOp \<lparr>get_key = key\<rparr>)\<rparr>"
  have "op_built pk op ?op" using addr kb pv by (cases "address_type op") (auto simp: op_built_def)
  then show ?thesis
    using x built rest by (intro exI [of _ "[?op]"]) (auto simp: adds_def add_op_def note_put_def Let_def)
qed

lemma repeat_operation_adds:
  assumes "repeat_operation E op n x w = Some (x', w')" and "perm_order (iter_put_keys E)"
  shows "\<exists>ops. adds (replicate n op) ops x x'"
  using assms(1)
proof (induction n arbitrary: x w)
  case (Suc n)
  then obtain x1 w1 where "AddOperation E op x w = Some (x1, w1)" "repeat_operation E op n x1 w1 = Some (x', w')"
    by (auto elim!: bind_elims)
  with Suc.IH [of x1 w1] AddOperation_adds [OF _ assms(2)] obtain ops ops'
    where "adds [op] ops x x1" "adds (replicate n op) ops' x1 x'" by blast
  from adds_append [OF this] show ?case by auto
qed (auto intro: exI [of _ "[]"])

lemma add_operations_adds:
  assumes "add_operations E cs x w = Some (x', w')" and "perm_order (iter_put_keys E)"
  shows "\<exists>ops. adds (unrolled cs) ops x x'"
  using assms(1)
proof (induction cs arbitrary: x w)
  case (Cons c cs)
  then obtain x1 w1 where "repeat_operation E c (repeats c) x w = Some (x1, w1)" "add_operations E cs x1 w1 = Some (x', w')"
    by (auto elim!: bind_elims)
  with Cons.IH [of x1 w1] repeat_operation_adds [OF _ assms(2)] obtain ops ops'
    where "adds (replicate (repeats c) c) ops x x1" "adds (unrolled cs) ops' x1 x'" by blast
  from adds_append [OF this] show ?case by (auto simp: unrolled_def)
qed (auto simp: unrolled_def intro: exI [of _ "[]"])

text \<open>A whole file: one request for each transaction, in order, with the keys put so far carried along.\<close>

definition request_built :: "'w program_env \<Rightarrow> put_keys \<Rightarrow> simple_transaction \<Rightarrow> commit_request \<Rightarrow> bool" where
  "request_built E pk t request \<longleftrightarrow> trace_built pk (unrolled (st_op t)) (creq_transaction request) \<and>
     config_abort_time (creq_config request) = time_before_abort t \<and>
     client_transaction_id request = CEscape E (SerializeAsString E (request\<lparr>client_transaction_id := []\<rparr>))"

fun file_built :: "'w program_env \<Rightarrow> put_keys \<Rightarrow> simple_transaction list \<Rightarrow> (commit_request \<times> bool) list \<Rightarrow> bool" where
  "file_built E pk [] requests \<longleftrightarrow> requests = []"
| "file_built E pk (t # ts) requests \<longleftrightarrow> (case requests of [] \<Rightarrow> False
     | (request, async) # requests \<Rightarrow> request_built E pk t request \<and> async = st_async t \<and>
         file_built E (fold note_put (creq_transaction request) pk) ts requests)"

lemma AddTransaction_built:
  assumes "AddTransaction E t (ri, pk) w = Some ((ri', pk'), w')" and "perm_order (iter_put_keys E)"
  shows "\<exists>request. run_requests ri' = run_requests ri @ [(request, st_async t)] \<and> request_built E pk t request \<and>
    pk' = fold note_put (creq_transaction request) pk"
proof -
  let ?r0 = "case time_before_abort t of None \<Rightarrow> empty_request
    | Some d \<Rightarrow> empty_request\<lparr>creq_config := \<lparr>config_abort_time = Some \<lparr>seconds = seconds d, nanos = nanos d\<rparr>\<rparr>\<rparr>"
  from assms(1) obtain r1 ri1 pk1 where add: "add_operations E (st_op t) (?r0, ri, pk) w = Some ((r1, ri1, pk1), w')"
    and x': "pk' = pk1" "run_requests ri' = run_requests ri1 @
      [(r1\<lparr>client_transaction_id := CEscape E (SerializeAsString E r1)\<rparr>, st_async t)]"
    by (cases "time_before_abort t") (auto simp: AddTransaction_def Let_def elim!: bind_elims)
  from add_operations_adds [OF add assms(2)] obtain ops where "adds (unrolled (st_op t)) ops (?r0, ri, pk) (r1, ri1, pk1)" ..
  then have r1: "trace_built pk (unrolled (st_op t)) ops" "r1 = ?r0\<lparr>creq_transaction := creq_transaction ?r0 @ ops\<rparr>"
    "pk1 = fold note_put ops pk" "run_requests ri1 = run_requests ri" by (simp_all add: adds_def)
  have "creq_transaction r1 = ops" "config_abort_time (creq_config r1) = time_before_abort t" "client_transaction_id r1 = []"
    unfolding r1(2) by (auto simp: empty_request_def split: option.split)
  moreover have "SerializeAsString E (r1\<lparr>client_transaction_id := []\<rparr>) = SerializeAsString E r1"
    using \<open>client_transaction_id r1 = []\<close> by (cases r1) simp
  ultimately show ?thesis using x' r1(1,3,4) by (simp add: request_built_def)
qed

lemma add_transactions_built:
  assumes "add_transactions E ts (ri, pk) w = Some ((ri', pk'), w')" and "perm_order (iter_put_keys E)"
  shows "\<exists>requests. run_requests ri' = run_requests ri @ requests \<and> file_built E pk ts requests"
  using assms(1)
proof (induction ts arbitrary: ri pk w)
  case (Cons t ts)
  then obtain ri1 pk1 w1 where t: "AddTransaction E t (ri, pk) w = Some ((ri1, pk1), w1)"
    and ts: "add_transactions E ts (ri1, pk1) w1 = Some ((ri', pk'), w')"
    by (auto elim!: bind_elims)
  from AddTransaction_built [OF t assms(2)] Cons.IH [OF ts] obtain request requests where
    "run_requests ri' = run_requests ri1 @ requests" "file_built E pk1 ts requests"
    "run_requests ri1 = run_requests ri @ [(request, st_async t)]" "request_built E pk t request"
    "pk1 = fold note_put (creq_transaction request) pk" by blast
  then show ?case by (intro exI [of _ "(request, st_async t) # requests"]) simp
qed auto

lemma add_transactions_append:
  "add_transactions E (ts @ us) x w = do { (x, w) \<leftarrow> add_transactions E ts x w; add_transactions E us x w }"
proof (induction ts arbitrary: x w)
  case (Cons t ts)
  then show ?case by (cases "AddTransaction E t x w") auto
qed simp

text \<open>An operation without random parts always gives the same operation.\<close>

definition not_random :: "client_op \<Rightarrow> bool" where
  "not_random c \<longleftrightarrow> (\<forall>b. address_type c \<noteq> kRandomAddress b) \<and> (\<forall>b. key_type c \<noteq> kRandomKey b \<and> key_type c \<noteq> kRandomPutKey b) \<and>
     (\<forall>b. value_type c \<noteq> kRandomValue b \<and> value_type c \<noteq> kRandomRelativeValue b)"

lemma not_random_unique: "not_random c \<Longrightarrow> op_built pk c op \<Longrightarrow> op_built pk' c op' \<Longrightarrow> op = op'"
  by (cases op; cases op'; cases "address_type c"; cases "key_type c"; cases "value_type c")
     (auto simp: not_random_def op_built_def key_built_def value_built_def split: if_splits intro: name_space.equality)

lemma trace_built_unique:
  "list_all not_random cs \<Longrightarrow> trace_built pk cs ops \<Longrightarrow> trace_built pk' cs ops' \<Longrightarrow> ops = ops'"
  by (induction cs arbitrary: pk pk' ops ops') (auto split: list.splits dest: not_random_unique)

lemma not_random_unrolled: "list_all not_random cs \<Longrightarrow> list_all not_random (unrolled cs)"
  by (induction cs) (auto simp: unrolled_def list_all_iff)

lemma request_built_unique:
  assumes "list_all not_random (st_op t)" and "request_built E pk t r" and "request_built E pk' t r'"
  shows "r = r'"
proof -
  have "creq_transaction r = creq_transaction r'"
    using trace_built_unique [OF not_random_unrolled [OF assms(1)]] assms(2,3) unfolding request_built_def by blast
  moreover have "creq_config r = creq_config r'"
    using assms(2,3) by (simp add: request_built_def transaction_config.equality)
  ultimately have "r\<lparr>client_transaction_id := []\<rparr> = r'\<lparr>client_transaction_id := []\<rparr>"
    by (cases r; cases r') simp
  with assms(2,3) have "client_transaction_id r = client_transaction_id r'" by (simp add: request_built_def)
  with \<open>creq_transaction r = creq_transaction r'\<close> \<open>creq_config r = creq_config r'\<close> show ?thesis
    by (simp add: commit_request.equality)
qed

subsection \<open>Polling\<close>

lemma polling_elapsed:
  assumes clock: "\<And>u w. u \<le> client_now E (client_sleep_until E u w)"
    and latency: "\<And>w st r w'. cs_GetTransactionResult (client_stub E) tid w = Some (st, r, w') \<Longrightarrow>
      client_now E w + l \<le> client_now E w'"
    and run: "retry_loop.failing (poll_attempt E tid t) n w = Some w'" and "t + d \<le> client_now E w"
  shows "t + 2 ^ n * d + 2 * (2 ^ n - 1) * l \<le> client_now E w'"
  using run assms(4)
proof (induction n arbitrary: w d)
  case (Suc n)
  from Suc.prems(1) obtain w1 where w1: "poll_attempt E tid t w = Some (Inr w1)"
    and rest: "retry_loop.failing (poll_attempt E tid t) n w1 = Some w'"
    by (auto simp: polling.failing.simps split: option.splits sum.splits)
  then obtain st r wa where "cs_GetTransactionResult (client_stub E) tid w = Some (st, r, wa)"
    and w1': "w1 = client_sleep_until E (client_now E wa + (client_now E wa - t)) wa"
    by (auto simp: poll_attempt_def TryGetTransactionResults_def elim!: bind_elims split: if_splits)
  with latency have "client_now E w + l \<le> client_now E wa" by blast
  moreover have "client_now E wa + (client_now E wa - t) \<le> client_now E w1" unfolding w1' by (rule clock)
  ultimately have "t + (2 * d + 2 * l) \<le> client_now E w1" using Suc.prems(2) by linarith
  from Suc.IH [OF rest this] show ?case by (simp add: algebra_simps)
qed (simp add: polling.failing.simps)

subsection \<open>Sending\<close>

text \<open>Every call of the client library comes back.\<close>

definition answering :: "'w client_env \<Rightarrow> bool" where
  "answering E \<longleftrightarrow> (\<forall>request w. CommitAsync E request w \<noteq> None) \<and> (\<forall>resp w. GetTransactionResults E resp w \<noteq> None)"

fun is_submitted :: "future \<Rightarrow> bool" where
  "is_submitted (Submitted _) = True" | "is_submitted (Promised _) = False"

definition steps_left :: "'w sending \<Rightarrow> nat" where
  "steps_left x = 3 * length (todo x) + length (filter is_submitted (futures x)) +
     (length (futures x) - collected_futures x)"

definition sending_ok :: "nat \<Rightarrow> 'w sending \<Rightarrow> bool" where
  "sending_ok n x \<longleftrightarrow> collected_futures x \<le> length (futures x) \<and>
     n + collected_futures x = length (logged x) + length (todo x) + length (futures x)"

lemma filter_update_shorter:
  "i < length xs \<Longrightarrow> P (xs ! i) \<Longrightarrow> \<not> P y \<Longrightarrow> Suc (length (filter P (xs[i := y]))) = length (filter P xs)"
proof (induction xs arbitrary: i)
  case (Cons x xs)
  then show ?case by (cases i) auto
qed simp

lemma send_step_decreases: "send_step E x x' \<Longrightarrow> sending_ok n x \<Longrightarrow> steps_left x' < steps_left x"
proof (erule send_stepE, goal_cases)
  case (3 i resp r w)
  then show ?case using filter_update_shorter [of i "futures x" is_submitted "Promised r"] by (simp add: steps_left_def)
next
  case (1 request rest f w)
  then show ?case by (cases f) (auto simp: steps_left_def sending_ok_def)
qed (auto simp: steps_left_def sending_ok_def)

lemma send_step_ok: "send_step E x x' \<Longrightarrow> sending_ok n x \<Longrightarrow> sending_ok n x'"
  by (erule send_stepE) (auto simp: sending_ok_def)

lemma send_step_progress:
  assumes "answering E" and "sending_ok n x" and "\<not> sending_done x"
  shows "\<exists>x'. send_step E x x'"
proof (cases "todo x")
  case (Cons t rest)
  obtain request async where t: "t = (request, async)" by fastforce
  let ?request = "absolute_config E (send_world x) request"
  obtain f w where f: "CommitAsync E ?request (send_world x) = Some (f, w)"
    using assms(1) by (fastforce simp: answering_def)
  have "\<exists>r w'. CommitSync E ?request (send_world x) = Some (r, w')"
    using assms(1) f by (cases f) (fastforce simp: CommitSync_def answering_def)+
  then show ?thesis using Cons t f by (cases async) (fastforce intro: send_step.intros)+
next
  case Nil
  with assms(2,3) have k: "collected_futures x < length (futures x)" by (auto simp: sending_done_def sending_ok_def)
  show ?thesis
  proof (cases "futures x ! collected_futures x")
    case (Promised r)
    from send_step.collect [OF Nil k this] show ?thesis by blast
  next
    case (Submitted resp)
    obtain r w where "GetTransactionResults E resp (send_world x) = Some (r, w)"
      using assms(1) by (fastforce simp: answering_def)
    from send_step.pool [OF k Submitted this] show ?thesis by blast
  qed
qed

lemma send_run:
  assumes "(send_step E ^^ k) x0 x" and "sending_ok n x0"
  shows "sending_ok n x \<and> k + steps_left x \<le> steps_left x0"
  using assms(1)
proof (induction k arbitrary: x)
  case (Suc k)
  then obtain x1 where "(send_step E ^^ k) x0 x1" and step: "send_step E x1 x" by auto
  with Suc.IH have "sending_ok n x1" "k + steps_left x1 \<le> steps_left x0" by auto
  with send_step_ok [OF step] send_step_decreases [OF step] show ?case by fastforce
qed (use assms(2) in auto)

end
