(* ===== verification/Coordinator_Runs.thy ===== *)
theory Coordinator_Runs
  imports Coordinator_Trace
begin

text \<open>
  Runs of the coordinator: any sequence of calls of its two handlers, while the world changes in
  between. A response that is complete never changes again and is answered without asking anybody.
\<close>

inductive coord_steps ::
  "('c, 'stub, 'w) coord_env \<Rightarrow> 'stub coord_server \<Rightarrow> 'stub coord_server \<Rightarrow> bool" for E where
  no_call: "coord_steps E s s"
| commit_call: "coord_steps E s s1 \<Longrightarrow> CommitAtomicTransaction E context req s1 w = Some (st, resp, s', w') \<Longrightarrow>
    coord_steps E s s'"
| result_call: "coord_steps E s s1 \<Longrightarrow> coord_GetTransactionResult E context tid s1 w = Some (st, res, s', w') \<Longrightarrow>
    coord_steps E s s'"

inductive_simps coord_steps_iff: "coord_steps E s s'"

lemma coord_inv_steps:
  assumes "coord_steps E s s'" and "coord_inv E answers s"
    and "perm_order (iter_subs E)" and "stable_answers E answers"
  shows "coord_inv E answers s'"
  using assms by (induction rule: coord_steps.induct) (auto intro: coord_inv_Commit coord_inv_Get)

subsection \<open>What a call leaves alone\<close>

lemma Commit_resp:
  assumes "CommitAtomicTransaction E context req s w = Some (st, resp, s', w')"
  shows "coord_resp s' = coord_resp s"
  using assms
proof (cases rule: Commit_cases)
  case (sent tid config e w1)
  from SendCohortPrepareRequests_frame [OF sent(7,4)] show ?thesis
    by (auto simp: coord_resp_def configured_def)
qed (auto simp: configured_def)

lemma CleanUp_other: "t \<noteq> tid \<Longrightarrow> coord_resp (CleanUpTransactionMetadata tid s) t = coord_resp s t"
  by simp

lemma collect_responses_resp:
  assumes "collect_responses E tid context nss n s w = Some (n', s', w')" and "t \<noteq> tid"
  shows "coord_resp s' t = coord_resp s t"
  using assms(1)
proof (induction nss arbitrary: n s w)
  case (Cons ns nss)
  show ?case
  proof (cases "ns_address ns \<in> set (cohorts_already_responded (coord_meta s tid))")
    case True
    with Cons show ?thesis by simp
  next
    case False
    with Cons.prems obtain st cr s1 w1 where
      get: "GetResultsFromCohort E ns tid (FromServerContext context) s w = Some (st, cr, s1, w1)"
      by (auto elim!: bind_elims)
    obtain stub s2 where gs: "GetCohortStub E ns s = (stub, s2)" by fastforce
    with get have "s1 = s2" by (auto simp: GetResultsFromCohort_def elim!: bind_elims)
    then have s1: "coord_resp s1 = coord_resp s" using GetCohortStub_frame [OF gs] by simp
    from Cons.prems False get obtain n1 s3 where
      rest: "collect_responses E tid context nss n1 s3 w1 = Some (n', s', w')"
      and s3: "s3 = s1 \<or> (\<exists>gs f. s3 = upd_meta tid f (upd_resp tid (add_responses gs) s1))"
      by (cases cr) (auto split: if_splits)
    from Cons.IH [OF rest] s3 s1 assms(2) show ?thesis by auto
  qed
qed simp

lemma UpdateSingle_resp:
  assumes "UpdateResponseForSingleCohortTransaction E tid context s w = Some (st, s', w')" and "t \<noteq> tid"
  shows "coord_resp s' t = coord_resp s t"
proof -
  let ?s0 = "upd_resp tid (\<lambda>r. r) s"
  from assms(1) obtain ns where "single_cohort_namespace (coord_meta s tid) = Some ns"
    by (auto simp: UpdateResponseForSingleCohortTransaction_def Let_def elim!: bind_elims)
  from UpdateSingle_call [OF assms(1) this] obtain st0 cr s1 where
    get: "GetResultsFromCohort E ns tid (FromServerContext context) ?s0 w = Some (st0, cr, s1, w')"
    and s': "(st, s') = single_outcome tid ns st0 cr s1" .
  obtain stub s2 where gs: "GetCohortStub E ns ?s0 = (stub, s2)" by fastforce
  with get have "s1 = s2" by (auto simp: GetResultsFromCohort_def elim!: bind_elims)
  then have "coord_resp s1 t = coord_resp s t" using GetCohortStub_frame [OF gs] assms(2) by simp
  with s' assms(2) show ?thesis
    by (auto simp: single_outcome_def split: if_splits cohort_result.splits)
qed

lemma UpdateCommitted_resp:
  assumes "UpdateCommittedResponseFromCohorts E tid context s w = Some (s', w')" and "t \<noteq> tid"
  shows "coord_resp s' t = coord_resp s t"
proof -
  from assms(1) obtain n s1 where
    coll: "collect_responses E tid context (cohort_namespaces (coord_meta s tid)) 0 (upd_resp tid (\<lambda>r. r) s) w = Some (n, s1, w')"
    and s': "s' = CleanUpTransactionMetadata tid (upd_resp tid set_complete s1) \<or> s' = s1"
    by (auto simp: UpdateCommittedResponseFromCohorts_def Let_def elim!: bind_elims)
  with collect_responses_resp [OF coll assms(2)] assms(2) show ?thesis by auto
qed

lemma Get_resp_other:
  assumes ret: "coord_GetTransactionResult E context tid s w = Some (st, res, s', w')" and "t \<noteq> tid"
  shows "coord_resp s' t = coord_resp s t"
proof -
  consider (answered) "complete (coord_resp s tid)"
    | (unknown) "\<not> complete (coord_resp s tid)" "metadata_by_transaction s tid = None"
    | (single) m where "\<not> complete (coord_resp s tid)" "metadata_by_transaction s tid = Some m"
        "single_cohort_namespace m \<noteq> None"
    | (many) m where "\<not> complete (coord_resp s tid)" "metadata_by_transaction s tid = Some m"
        "single_cohort_namespace m = None" by blast
  then show ?thesis
  proof cases
    case answered
    with ret assms(2) show ?thesis by (auto simp: Get_answered)
  next
    case unknown
    with ret assms(2) show ?thesis by (auto simp: Get_unknown)
  next
    case single
    with ret assms(2) show ?thesis
      by (auto simp: Get_single elim!: bind_elims dest!: UpdateSingle_resp [where t = t])
  next
    case many
    from ret obtain d w1 where d: "current_decision E tid m w = Some (d, w1)"
      unfolding Get_many [OF many] by (auto elim!: bind_elims)
    with ret assms(2) show ?thesis
      unfolding Get_many [OF many]
      by (cases d) (auto simp: Let_def UpdateAbortedResponseFromCohorts_def
          dest!: UpdateCommitted_resp [where t = t] split: if_splits elim!: bind_elims)
  qed
qed

lemma complete_forever:
  assumes "coord_steps E s s'" and "complete (coord_resp s tid)"
  shows "coord_resp s' tid = coord_resp s tid"
  using assms
proof (induction rule: coord_steps.induct)
  case (commit_call s s1 ctx req w st resp s' w')
  then show ?case by (simp add: Commit_resp)
next
  case (result_call s s1 ctx tid' w st res s' w')
  then show ?case by (cases "tid' = tid") (auto simp: Get_answered Get_resp_other)
qed simp

subsection \<open>Final answers\<close>

text \<open>An answer that is final has been stored as complete.\<close>

lemma Get_final_complete:
  assumes inv: "coord_inv E answers s" and stable: "stable_answers E answers"
    and ret: "coord_GetTransactionResult E context tid s w = Some (st, res, s', w')"
    and final: "grpc_ok st" "final_result res"
  shows "complete (coord_resp s' tid) \<and> tr_response (coord_resp s' tid) = res"
proof -
  have "tr_response (coord_resp s' tid) = res"
  proof -
    consider (answered) "complete (coord_resp s tid)"
      | (unknown) "\<not> complete (coord_resp s tid)" "metadata_by_transaction s tid = None"
      | (single) m where "\<not> complete (coord_resp s tid)" "metadata_by_transaction s tid = Some m"
          "single_cohort_namespace m \<noteq> None"
      | (many) m where "\<not> complete (coord_resp s tid)" "metadata_by_transaction s tid = Some m"
          "single_cohort_namespace m = None" by blast
    then show ?thesis
    proof cases
      case answered
      with ret show ?thesis by (auto simp: Get_answered)
    next
      case unknown
      with ret final show ?thesis by (auto simp: Get_unknown)
    next
      case single
      with ret final show ?thesis by (auto simp: Get_single split: if_splits elim!: bind_elims)
    next
      case many
      from ret obtain d w1 where d: "current_decision E tid m w = Some (d, w1)"
        unfolding Get_many [OF many] by (auto elim!: bind_elims)
      with ret final show ?thesis
        unfolding Get_many [OF many]
        by (cases d) (auto simp: Let_def split: if_splits elim!: bind_elims)
    qed
  qed
  moreover have "resp_ok (coord_resp s' tid)"
    using coord_invD(2) [OF coord_inv_Get [OF inv stable ret], of tid] by (simp add: txn_inv_def)
  ultimately show ?thesis using final by (auto simp: resp_ok_def)
qed

lemma final_update_cleans:
  assumes "(st, s') = single_outcome tid ns status cr s" and "grpc_ok st"
    and "\<not> complete (coord_resp s tid)" and "final_result (tr_response (coord_resp s' tid))"
    and "\<not> final_result (tr_response (coord_resp s tid))"
  shows "metadata_by_transaction s' tid = None"
  using assms by (cases cr) (auto simp: single_outcome_def grpc_ok_def split: if_splits)

text \<open>The call that gives the final answer forgets the transaction.\<close>

lemma Get_final_cleans:
  assumes inv: "coord_inv E answers s" and stable: "stable_answers E answers"
    and ret: "coord_GetTransactionResult E context tid s w = Some (st, res, s', w')"
    and final: "grpc_ok st" "final_result res" and open_txn: "\<not> complete (coord_resp s tid)"
  shows "metadata_by_transaction s' tid = None"
proof -
  have not_final: "\<not> final_result (tr_response (coord_resp s tid))"
    using coord_invD(2) [OF inv, of tid] open_txn by (simp add: txn_inv_def resp_ok_def)
  consider (unknown) "metadata_by_transaction s tid = None"
    | (single) m ns where "metadata_by_transaction s tid = Some m" "single_cohort_namespace m = Some ns"
    | (many) m where "metadata_by_transaction s tid = Some m" "single_cohort_namespace m = None"
    by (metis option.exhaust)
  then show ?thesis
  proof cases
    case unknown
    with ret open_txn show ?thesis by (auto simp: Get_unknown)
  next
    case single
    let ?s0 = "upd_resp tid (\<lambda>r. r) s"
    from ret single open_txn obtain status where
      upd: "UpdateResponseForSingleCohortTransaction E tid context ?s0 w = Some (status, s', w')"
      and res: "grpc_ok status" "res = tr_response (coord_resp s' tid)"
      using final by (auto simp: Get_single split: if_splits elim!: bind_elims)
    have "single_cohort_namespace (coord_meta ?s0 tid) = Some ns" using single by (simp add: coord_meta_present)
    from UpdateSingle_call [OF upd this] obtain st0 cr s1 where
      get: "GetResultsFromCohort E ns tid (FromServerContext context) (upd_resp tid (\<lambda>r. r) ?s0) w = Some (st0, cr, s1, w')"
      and out: "(status, s') = single_outcome tid ns st0 cr s1" .
    have "coord_resp s1 = coord_resp (upd_resp tid (\<lambda>r. r) ?s0)"
      using GetResultsFromCohort_ret(4) [OF get] coord_invD(1) [OF inv] by simp
    then show ?thesis using final_update_cleans [OF out res(1)] open_txn not_final final(2) res(2) by simp
  next
    case many
    from ret obtain d w1 where d: "current_decision E tid m w = Some (d, w1)"
      unfolding Get_many [OF open_txn many] by (auto elim!: bind_elims)
    let ?s = "\<lambda>d. upd_meta tid (\<lambda>m. m\<lparr>cm_decision := d\<rparr>) (upd_resp tid (\<lambda>r. r) s)"
    show ?thesis
    proof (cases "d = Inr VOTING_DECISION_COMMIT")
      case True
      with ret d obtain w2 where upd: "UpdateCommittedResponseFromCohorts E tid context (?s VOTING_DECISION_COMMIT) w1 = Some (s', w2)"
        unfolding Get_many [OF open_txn many] by (auto simp: Let_def elim!: bind_elims)
      have inv': "coord_inv E answers (?s VOTING_DECISION_COMMIT)"
        using coord_inv_decision [OF inv many(1)] d True by simp
      have "complete (coord_resp s' tid)" using Get_final_complete [OF inv stable ret final] by simp
      then show ?thesis
        using UpdateCommitted_complete_cleans [OF upd inv' stable] open_txn many by simp
    next
      case False
      with ret d final show ?thesis
        unfolding Get_many [OF open_txn many]
        by (cases d) (auto simp: Let_def UpdateAbortedResponseFromCohorts_def split: if_splits)
    qed
  qed
qed

subsection \<open>Repeated commits\<close>

text \<open>What a successful commit of a transaction with operations leaves in the metadata.\<close>

lemma Commit_stores:
  assumes "CommitAtomicTransaction E context req s w = Some (st, resp, s', w')"
    and "grpc_ok st" and "creq_transaction req \<noteq> []" and "perm_order (iter_subs E)"
  shows "GetTransactionId (sha E) (client_transaction_id req) (peer context) = Inr (global_transaction_id resp) \<and>
    possibly_sent_to_all_cohorts (coord_meta s' (global_transaction_id resp)) \<and>
    cm_config (coord_meta s' (global_transaction_id resp)) = cresp_config resp \<and>
    metadata_by_transaction s' (global_transaction_id resp) \<noteq> None"
  using assms(1)
proof (cases rule: Commit_cases)
  case (no_id e)
  then show ?thesis using assms(2) by (auto simp: GetTransactionId_def split: option.splits)
next
  case (late tid e)
  then show ?thesis using assms(2) by (auto simp: ComputeFinalConfig_eq split: if_splits)
next
  case (nothing tid config)
  then show ?thesis using assms(3) SplitClientTransaction_Nil_iff [OF assms(4)] by blast
next
  case (sent tid config e w1)
  have "coord_meta (configured tid config s) tid = (coord_meta s tid)\<lparr>cm_config := config\<rparr>"
    by (simp add: configured_def)
  with SendCohortPrepareRequests_frame [OF sent(7,4)] sent show ?thesis
    by (auto simp: coord_meta_def sent_to_def Suc_le_eq)
qed (use assms(2) in auto)

text \<open>A repeated \<open>CommitAtomicTransaction\<close> is idempotent: after a successful call for a transaction with
  operations, any later request from the same client with the same client transaction id, whatever its
  contents, gets the same answer without a call to the blockchain or to a cohort and without a change
  of the metadata, as long as the server still holds it.\<close>

lemma Commit_again:
  assumes "CommitAtomicTransaction E context req s w = Some (st, resp, s', w')"
    and "grpc_ok st" and "creq_transaction req \<noteq> []" and "perm_order (iter_subs E)"
    and "client_transaction_id req' = client_transaction_id req"
  shows "\<exists>s''. CommitAtomicTransaction (ctraced E) context req' s' (w2, tr) = Some (grpc_OK, resp, s'', (w2, tr)) \<and>
    metadata_by_transaction s'' = metadata_by_transaction s' \<and> response_by_transaction s'' = response_by_transaction s' \<and>
    cohort_by_namespace s'' = cohort_by_namespace s'"
proof -
  let ?tid = "global_transaction_id resp"
  note stored = Commit_stores [OF assms(1-4)]
  then obtain m where m: "metadata_by_transaction s' ?tid = Some m" by blast
  show ?thesis
    using stored assms(5) m
    by (intro exI [of _ "upd_meta ?tid (\<lambda>m. m) s'"])
       (auto simp: CommitAtomicTransaction_def Let_def coord_meta_present)
qed

subsection \<open>Invariant of the runs\<close>

lemma coord_inv_ctraced [simp]: "coord_inv (ctraced E) answers s = coord_inv E answers s"
  by (simp add: coord_inv_def)

lemma coord_inv_reach:
  "coord_steps E new_coord_server s \<Longrightarrow> perm_order (iter_subs E) \<Longrightarrow> stable_answers E answers \<Longrightarrow>
   coord_inv E answers s"
  using coord_inv_steps coord_inv_new by blast

subsection \<open>A decision to commit before any answer\<close>

text \<open>Cohorts of which none has committed yet: the loop changes neither the answers nor the responses.\<close>

definition none_committed :: "('c, 'stub, 'w) coord_env \<Rightarrow> string \<Rightarrow> bool" where
  "none_committed E tid \<longleftrightarrow> (\<forall>stub ctx w. \<exists>st r w'. stub_Result E stub ctx tid w = Some (st, r, w') \<and>
     (\<not> grpc_ok st \<or> (\<forall>gs. r \<noteq> CohortCommitted gs)))"

lemma GetResultsFromCohort_none:
  assumes "none_committed E tid"
  obtains st r s' w' where "GetResultsFromCohort E ns tid ctx s w = Some (st, r, s', w')"
    "\<not> grpc_ok st \<or> (\<forall>gs. r \<noteq> CohortCommitted gs)" "coord_meta s' = coord_meta s" "coord_resp s' = coord_resp s"
proof -
  obtain stub s' where get: "GetCohortStub E ns s = (stub, s')" by fastforce
  obtain st r w' where "stub_Result E stub ctx tid w = Some (st, r, w')" "\<not> grpc_ok st \<or> (\<forall>gs. r \<noteq> CohortCommitted gs)"
    using assms unfolding none_committed_def by blast
  with get GetCohortStub_frame [OF get] show thesis
    by (intro that [of st r s' w']) (simp_all add: GetResultsFromCohort_def)
qed

lemma collect_none:
  assumes "none_committed E tid" and "cohorts_already_responded (coord_meta s tid) = []"
  shows "\<exists>s' w'. collect_responses E tid context nss n s w = Some (n, s', w') \<and>
    coord_meta s' = coord_meta s \<and> coord_resp s' = coord_resp s"
  using assms(2)
proof (induction nss arbitrary: s w)
  case (Cons ns nss)
  obtain st r s1 w1 where get: "GetResultsFromCohort E ns tid (FromServerContext context) s w = Some (st, r, s1, w1)"
    and none: "\<not> grpc_ok st \<or> (\<forall>gs. r \<noteq> CohortCommitted gs)"
    and s1: "coord_meta s1 = coord_meta s" "coord_resp s1 = coord_resp s"
    by (rule GetResultsFromCohort_none [OF assms(1), of ns "FromServerContext context" s w])
  have "cohorts_already_responded (coord_meta s1 tid) = []" using Cons.prems s1 by simp
  from Cons.IH [OF this, of w1] s1 Cons.prems get none show ?case
    by (cases r) auto
qed simp

text \<open>Between the decision to commit and the first answer of a cohort, \<open>GetTransactionResult\<close> succeeds with a
  response whose status is not set at all, neither pending nor committed: the handler copies the stored
  response, which nobody has filled in yet.\<close>

lemma Get_without_status:
  assumes "metadata_by_transaction s tid = Some m" and "single_cohort_namespace m = None" and "cohort_namespaces m \<noteq> []"
    and "cohorts_already_responded m = []" and "response_by_transaction s tid = None"
    and "none_committed E tid" and "\<not> definite (cm_decision m)"
    and "bc_GetVotingDecision (coord_blockchain E) tid w = Some (Inr VOTING_DECISION_COMMIT, w1)"
  shows "\<exists>s' w'. coord_GetTransactionResult E context tid s w = Some (grpc_OK, CoordStatusNotSet, s', w') \<and>
    \<not> complete (coord_resp s' tid)"
proof -
  let ?s = "upd_meta tid (\<lambda>m. m\<lparr>cm_decision := VOTING_DECISION_COMMIT\<rparr>) (upd_resp tid (\<lambda>r. r) s)"
  have resp: "coord_resp s tid = fresh_response" using assms(5) by (rule coord_resp_absent)
  then have open_txn: "\<not> complete (coord_resp s tid)" by (simp add: fresh_response_def)
  have meta: "coord_meta s tid = m" using assms(1) by (rule coord_meta_present)
  obtain s2 w2 where coll: "collect_responses E tid context (cohort_namespaces m) 0 (upd_resp tid (\<lambda>r. r) ?s) w1 = Some (0, s2, w2)"
    and s2: "coord_meta s2 = coord_meta ?s" "coord_resp s2 = coord_resp s"
    using collect_none [OF assms(6), of "upd_resp tid (\<lambda>r. r) ?s" "context" "cohort_namespaces m" 0 w1] meta assms(4)
    by (auto simp: fun_eq_iff)
  then have "UpdateCommittedResponseFromCohorts E tid context ?s w1 = Some (s2, w2)"
    using meta assms(3) by (simp add: UpdateCommittedResponseFromCohorts_def)
  then show ?thesis
    unfolding Get_many [OF open_txn assms(1,2)] current_decision_def
    using assms(7,8) s2(2) resp by (simp add: Let_def fresh_response_def)
qed

end
