(* ===== verification/Coordinator_Progress.thy ===== *)
theory Coordinator_Progress
  imports Coordinator_Runs
begin

text \<open>
  When \<open>GetTransactionResult\<close> has a final answer: as soon as the decision is known and, for a commit, every
  cohort reports its own.
\<close>

definition all_committed :: "('c, 'stub, 'w) coord_env \<Rightarrow> string \<Rightarrow> name_space list \<Rightarrow> bool" where
  "all_committed E tid nss \<longleftrightarrow> (\<forall>ns \<in> set nss. \<forall>ctx w. \<exists>st gs w'.
     stub_Result E (NewStub E (ns_address ns)) ctx tid w = Some (st, CohortCommitted gs, w') \<and> grpc_ok st)"

lemma GetResultsFromCohort_committed:
  assumes "all_committed E tid nss" and "ns \<in> set nss" and "stubs_ok E s"
  obtains st gs s' w' where "GetResultsFromCohort E ns tid ctx s w = Some (st, CohortCommitted gs, s', w')"
    "grpc_ok st" "stubs_ok E s'" "coord_meta s' = coord_meta s"
proof -
  obtain stub s' where get: "GetCohortStub E ns s = (stub, s')" by fastforce
  note stub = GetCohortStub_ok [OF assms(3) get]
  obtain st gs w' where call: "stub_Result E (NewStub E (ns_address ns)) ctx tid w = Some (st, CohortCommitted gs, w')" "grpc_ok st"
    using assms(1,2) unfolding all_committed_def by blast
  have "GetResultsFromCohort E ns tid ctx s w = Some (st, CohortCommitted gs, s', w')"
    using get call stub by (simp add: GetResultsFromCohort_def)
  then show thesis using call(2) stub(2) GetCohortStub_frame(3) [OF get] by (rule that)
qed

lemma collect_all:
  assumes "all_committed E tid nss" and "stubs_ok E s"
  shows "\<exists>s' w'. collect_responses E tid context nss n s w = Some (n + length nss, s', w') \<and>
    cohort_namespaces (coord_meta s' tid) = cohort_namespaces (coord_meta s tid)"
  using assms
proof (induction nss arbitrary: n s w)
  case (Cons ns nss)
  then have rest: "all_committed E tid nss" by (simp add: all_committed_def)
  show ?case
  proof (cases "ns_address ns \<in> set (cohorts_already_responded (coord_meta s tid))")
    case True
    with Cons.IH [OF rest Cons.prems(2), of "n + 1" w] show ?thesis by simp
  next
    case False
    obtain st gs s1 w1 where get: "GetResultsFromCohort E ns tid (FromServerContext context) s w = Some (st, CohortCommitted gs, s1, w1)"
      "grpc_ok st" and s1: "stubs_ok E s1" "coord_meta s1 = coord_meta s"
      by (rule GetResultsFromCohort_committed [OF Cons.prems(1) _ Cons.prems(2), of ns "FromServerContext context" w]) simp
    let ?s2 = "upd_meta tid (\<lambda>m. m\<lparr>cohorts_already_responded := hs_emplace (ns_address ns) (cohorts_already_responded m)\<rparr>)
       (upd_resp tid (add_responses gs) s1)"
    have "stubs_ok E ?s2" using s1 by simp
    from Cons.IH [OF rest this, of "n + 1" w1] False get s1 show ?thesis by simp
  qed
qed simp

lemma UpdateCommitted_all:
  assumes "all_committed E tid (cohort_namespaces (coord_meta s tid))" and "stubs_ok E s"
  shows "\<exists>s' w'. UpdateCommittedResponseFromCohorts E tid context s w = Some (s', w') \<and> complete (coord_resp s' tid)"
proof -
  obtain s1 w1 where "collect_responses E tid context (cohort_namespaces (coord_meta s tid)) 0 (upd_resp tid (\<lambda>r. r) s) w =
      Some (length (cohort_namespaces (coord_meta s tid)), s1, w1)"
    "cohort_namespaces (coord_meta s1 tid) = cohort_namespaces (coord_meta s tid)"
    using collect_all [OF assms(1), of "upd_resp tid (\<lambda>r. r) s" "context" 0 w] assms(2) by auto
  then show ?thesis by (simp add: UpdateCommittedResponseFromCohorts_def Let_def)
qed

text \<open>The call that finds a definite decision, and every cohort with its answer when that is to commit, answers for good.\<close>

lemma Get_decided:
  assumes inv: "coord_inv E answers s" and stable: "stable_answers E answers"
    and m: "metadata_by_transaction s tid = Some m" "single_cohort_namespace m = None" and open_txn: "\<not> complete (coord_resp s tid)"
    and d: "current_decision E tid m w = Some (Inr d, w1)" "definite d"
    and all: "d = VOTING_DECISION_COMMIT \<Longrightarrow> all_committed E tid (cohort_namespaces m)"
  shows "\<exists>res s' w'. coord_GetTransactionResult E context tid s w = Some (grpc_OK, res, s', w') \<and> final_result res \<and>
    (if d = VOTING_DECISION_COMMIT
     then \<exists>c. res = CoordCommitted c \<and>
       mset (all_get_responses c) = (\<Sum>ns \<leftarrow> cohort_namespaces m. mset (answers tid (ns_address ns)))
     else \<exists>a. res = CoordAborted a)"
proof (cases "d = VOTING_DECISION_COMMIT")
  case True
  let ?s = "upd_meta tid (\<lambda>m. m\<lparr>cm_decision := VOTING_DECISION_COMMIT\<rparr>) (upd_resp tid (\<lambda>r. r) s)"
  have inv': "coord_inv E answers ?s" using coord_inv_decision [OF inv m(1) d(1)] True by simp
  have cm: "coord_meta s tid = m" using m(1) by (rule coord_meta_present)
  obtain s' w' where upd: "UpdateCommittedResponseFromCohorts E tid context ?s w1 = Some (s', w')" "complete (coord_resp s' tid)"
    using UpdateCommitted_all [of E tid ?s "context" w1] all [OF True] coord_invD(1) [OF inv'] cm by auto
  from UpdateCommitted_result(2) [OF upd(1) inv' stable _ _ _ upd(2)] open_txn m(2) cm obtain c where
    "tr_response (coord_resp s' tid) = CoordCommitted c" "complete_flag c"
    "mset (all_get_responses c) = (\<Sum>ns \<leftarrow> cohort_namespaces m. mset (answers tid (ns_address ns)))" by auto
  then show ?thesis
    unfolding Get_many [OF open_txn m] using d True upd(1) by (simp add: Let_def)
next
  case False
  with d(2) have abort: "d = VOTING_DECISION_ABORT" using definite_cases by blast
  let ?s = "upd_meta tid (\<lambda>m. m\<lparr>cm_decision := VOTING_DECISION_ABORT\<rparr>) (upd_resp tid (\<lambda>r. r) s)"
  have "\<exists>a. tr_response (coord_resp (UpdateAbortedResponseFromCohorts tid ?s) tid) = CoordAborted a"
    by (simp add: UpdateAbortedResponseFromCohorts_def)
  then show ?thesis
    unfolding Get_many [OF open_txn m] using d abort by (auto simp: Let_def)
qed

end
