(* ===== verification/Client_Coordinator.thy ===== *)
theory Client_Coordinator
  imports Client_Runs Coordinator_Progress
begin

text \<open>
  The client library in front of the coordinator: its stub calls the two handlers of one server, in a
  world that holds the server's state and what the server itself talks to. While a client sleeps, the
  server may handle any other calls.
\<close>

definition served_by ::
  "('c, 'stub, 'w) coord_env \<Rightarrow> server_context \<Rightarrow> ('stub coord_server \<times> 'w) coordinator_stub" where
  "served_by CE context = \<lparr>
     cs_CommitAtomicTransaction = (\<lambda>request (s, w). CommitAtomicTransaction CE context request s w),
     cs_GetTransactionResult = (\<lambda>tid (s, w). coord_GetTransactionResult CE context tid s w)\<rparr>"

lemma served_by_simps [simp]:
  "cs_CommitAtomicTransaction (served_by CE context) request (s, w) = CommitAtomicTransaction CE context request s w"
  "cs_GetTransactionResult (served_by CE context) tid (s, w) = coord_GetTransactionResult CE context tid s w"
  by (simp_all add: served_by_def)

definition sleeping_client ::
  "('c, 'stub, 'w) coord_env \<Rightarrow> ('stub coord_server \<times> 'w) client_env \<Rightarrow> bool" where
  "sleeping_client CE C \<longleftrightarrow>
     (\<forall>u s w. coord_steps CE s (fst (client_sleep_until C u (s, w))))"

lemma coord_steps_trans:
  "coord_steps CE s1 s2 \<Longrightarrow> coord_steps CE s s1 \<Longrightarrow> coord_steps CE s s2"
  by (induction rule: coord_steps.induct) (auto intro: coord_steps.intros)

lemma Commit_id:
  assumes "CommitAtomicTransaction CE context request s w = Some (st, resp, s', w')" and "grpc_ok st"
  shows "GetTransactionId (sha CE) (client_transaction_id request) (peer context) = Inr (global_transaction_id resp)"
  using assms(1)
proof (cases rule: Commit_cases)
  case (no_id e)
  then show ?thesis using assms(2) by (auto simp: GetTransactionId_def split: option.splits)
next
  case (late tid e)
  then show ?thesis using assms(2) by (auto simp: ComputeFinalConfig_eq split: if_splits)
qed auto

text \<open>Every state of the server during the polling is one that calls of its handlers reach.\<close>

lemma poll_attempt_steps:
  assumes "client_stub C = served_by CE context" and "sleeping_client CE C"
    and "poll_attempt C tid t w = Some (Inr w')" and "coord_steps CE s (fst w)"
  shows "coord_steps CE s (fst w')"
proof -
  obtain s1 v where w: "w = (s1, v)" by fastforce
  with assms(1,3) obtain st res s2 v2 u where "coord_GetTransactionResult CE context tid s1 v = Some (st, res, s2, v2)"
    and w': "w' = client_sleep_until C u (s2, v2)"
    by (auto simp: poll_attempt_def TryGetTransactionResults_def elim!: bind_elims split: if_splits)
  with w assms(4) have "coord_steps CE s s2" by (auto intro: result_call)
  moreover have "coord_steps CE s2 (fst w')" using assms(2) unfolding w' sleeping_client_def by blast
  ultimately show ?thesis using coord_steps_trans by blast
qed

text \<open>The answer that ends the polling.\<close>

lemma poll_results_call:
  assumes "client_stub C = served_by CE context" and "sleeping_client CE C"
    and "poll_results C tid t w = Some (res, s', v')" and "coord_steps CE s (fst w)"
  obtains st s1 v1 where "coord_steps CE s s1"
    "coord_GetTransactionResult CE context tid s1 v1 = Some (st, res, s', v')" "grpc_ok st"
    "res = CoordStatusNotSet \<or> final_result res"
proof -
  from assms(3) obtain n w1 where run: "retry_loop.failing (poll_attempt C tid t) n w = Some w1"
    and good: "poll_attempt C tid t w1 = Some (Inl (res, s', v'))"
    unfolding polling.returns_iff by blast
  have "coord_steps CE s (fst w1)"
    using polling.failing_invariant [OF run, where Q = "\<lambda>w. coord_steps CE s (fst w)"] assms(4)
      poll_attempt_steps [OF assms(1,2)] by blast
  moreover obtain s1 v1 where w1: "w1 = (s1, v1)" by fastforce
  moreover from good w1 assms(1) obtain st where
    "coord_GetTransactionResult CE context tid s1 v1 = Some (st, res, s', v')" "grpc_ok st"
    "res = CoordStatusNotSet \<or> final_result res"
    by (cases res) (auto simp: poll_attempt_def TryGetTransactionResults_def elim!: bind_elims split: if_splits)
  ultimately show thesis using that by simp
qed

lemma CommitSync_polls:
  assumes "CommitSync C request w = Some (Inr res, w')"
  obtains st resp w1 t where
    "cs_CommitAtomicTransaction (client_stub C) request w = Some (st, resp, w1)" "grpc_ok st"
    "poll_results C (global_transaction_id resp) t (client_sleep_until C t w1) = Some (res, w')"
  using assms
  by (auto simp: CommitSync_def CommitAsync_def GetTransactionResults_def Let_def elim!: bind_elims split: if_splits)

end
