(* ===== verification/Coordinator_Properties.thy ===== *)
theory Coordinator_Properties
  imports Coordinator_Runs
begin

text \<open>
  The properties of the coordinator, each with a concrete run of the handlers: the environment
  \<open>demo_coord\<close> has a blockchain that accepts every vote and decided to commit, and cohorts that
  answer with one value each.
\<close>

definition demo_sha :: "string sha_lib" where
  "demo_sha = \<lparr>SHA256_Init = Some [], SHA256_Update = (\<lambda>c s. Some (c @ s)),
     SHA256_Final = (\<lambda>c. Some (take 32 (map of_char c @ replicate 32 0)))\<rparr>"

definition demo_stub :: "unit adapter_stub" where
  "demo_stub = \<lparr>stub_StartVoting = (\<lambda>_ w. Some (grpc_OK, w)), stub_Vote = (\<lambda>_ w. Some (grpc_OK, w)),
     stub_GetVotingDecision = (\<lambda>_ w. Some (grpc_OK, \<lparr>dr_decision = VOTING_DECISION_COMMIT, dr_reason = []\<rparr>, w)),
     stub_GetHeartBeat = (\<lambda>w. Some (grpc_OK, True, w))\<rparr>"

definition demo_answer :: "string \<Rightarrow> committed_response" where
  "demo_answer a = [\<lparr>gr_namespace = \<lparr>ns_identifier = [], ns_address = a\<rparr>, gr_get = \<lparr>get_key = ''x''\<rparr>, gr_value = 7\<rparr>]"

definition demo_coord :: "(string, string, unit) coord_env" where
  "demo_coord = \<lparr>sha = demo_sha\<lparr>SHA256_Final := \<lambda>_. Some [1]\<rparr>, coord_blockchain = demo_stub, NewStub = (\<lambda>a. a),
     stub_Prepare = (\<lambda>_ _ _ w. Some (grpc_OK, w)),
     stub_Result = (\<lambda>a _ _ w. Some (grpc_OK, CohortCommitted (demo_answer a), w)),
     coord_clock = (\<lambda>_. 1000 * 4000000000), default_presumed_abort_duration = 5 * 4000000000,
     iter_subs = rev\<rparr>"

definition demo_op :: "string \<Rightarrow> operation" where
  "demo_op a = \<lparr>op_namespace = \<lparr>ns_identifier = [], ns_address = a\<rparr>, op_type = GetOp \<lparr>get_key = ''x''\<rparr>\<rparr>"

definition demo_request :: commit_request where
  "demo_request = \<lparr>client_transaction_id = ''1'', creq_transaction = [demo_op ''b'', demo_op ''a'', demo_op ''b''],
     creq_config = \<lparr>config_abort_time = None\<rparr>\<rparr>"

lemma stable_demo: "stable_answers demo_coord (\<lambda>_. demo_answer)"
  by (simp add: stable_answers_def demo_coord_def)

lemma iter_demo [simp]: "iter_subs demo_coord = rev"
  by (simp add: demo_coord_def)

abbreviation demo_context :: server_context where
  "demo_context \<equiv> \<lparr>peer = ''p''\<rparr>"

text \<open>The first commit of the demo request sends it to both cohorts.\<close>

lemma demo_commits:
  obtains resp s w tr where
    "CommitAtomicTransaction (ctraced demo_coord) demo_context demo_request new_coord_server ((), []) =
       Some (grpc_OK, resp, s, w, tr)" "length tr = 3"
proof -
  have "case CommitAtomicTransaction (ctraced demo_coord) demo_context demo_request new_coord_server ((), []) of
      Some (st, resp, s, w, tr) \<Rightarrow> st = grpc_OK \<and> length tr = 3 | None \<Rightarrow> False"
    by code_simp
  then show thesis by (auto split: option.splits intro: that)
qed

subsection \<open>Splitting and identifying transactions\<close>

text \<open>C28: \<open>SplitClientTransaction\<close> is a partition by cohort address: every address of the transaction
  gets exactly one part, which holds exactly the operations for that address in their original order,
  and together the parts hold every operation as often as the transaction does, whatever the iteration
  order of the hash map and whether or not the parts are sorted.\<close>

theorem split_partitions_transaction:
  assumes "perm_order iter"
  shows "distinct (map (\<lambda>sub. ns_address (sub_namespace sub)) (SplitClientTransaction iter ops srt)) \<and>
    (\<lambda>sub. ns_address (sub_namespace sub)) ` set (SplitClientTransaction iter ops srt) =
      (\<lambda>op. ns_address (op_namespace op)) ` set ops \<and>
    list_all (\<lambda>sub. sub_ops sub = filter (\<lambda>op. ns_address (op_namespace op) = ns_address (sub_namespace sub)) ops)
      (SplitClientTransaction iter ops srt) \<and>
    (\<Sum>sub \<leftarrow> SplitClientTransaction iter ops srt. mset (sub_ops sub)) = mset ops"
proof -
  have s: "splits_into ops (SplitClientTransaction iter ops srt)"
    by (rule SplitClientTransaction_splits [OF assms])
  have "sub_address = (\<lambda>sub. ns_address (sub_namespace sub))" by (rule ext) (rule sub_address_def)
  from s [unfolded splits_into_def addresses_def ops_for_def this] splits_into_mset [OF s]
  show ?thesis unfolding list_all_iff by blast
qed

theorem split_partitions_transaction_witness:
  "length (SplitClientTransaction rev [demo_op ''b'', demo_op ''a'', demo_op ''b''] False) = 2 \<and>
   (\<Sum>sub \<leftarrow> SplitClientTransaction rev [demo_op ''b'', demo_op ''a'', demo_op ''b''] False. mset (sub_ops sub)) =
     mset [demo_op ''b'', demo_op ''a'', demo_op ''b'']"
proof
  show "length (SplitClientTransaction rev [demo_op ''b'', demo_op ''a'', demo_op ''b''] False) = 2" by code_simp
qed (use split_partitions_transaction [of rev "[demo_op ''b'', demo_op ''a'', demo_op ''b'']" False] in simp)

text \<open>When the parts are sorted by address, \<open>SplitClientTransaction\<close> does not depend on the iteration
  order of the hash map, so two coordinators number the cohorts alike.\<close>

lemma split_sorted_deterministic:
  assumes "perm_order iter" and "perm_order iter'"
  shows "SplitClientTransaction iter ops True = SplitClientTransaction iter' ops True"
  using assms by (rule Split_sorted_unique)

text \<open>The transaction id is 64 hexadecimal characters for a 32-byte digest, and two requests get the same
  id exactly when their client transaction ids and client addresses agree, provided that the hash does
  not collide on the two hashed texts and no address contains the separator.\<close>

lemma transaction_id_identifies:
  assumes "GetTransactionId lib cid addr = Inr tid" and "GetTransactionId lib cid' addr' = Inr tid'"
    and "HashSha256 lib (cid @ ''~'' @ addr) = HashSha256 lib (cid' @ ''~'' @ addr') \<Longrightarrow>
      cid @ ''~'' @ addr = cid' @ ''~'' @ addr'"
    and "\<And>md. HashSha256 lib (cid @ ''~'' @ addr) = Some md \<Longrightarrow> length md = 32"
    and "CHR ''~'' \<notin> set addr" and "CHR ''~'' \<notin> set addr'"
  shows "length tid = 64 \<and> (tid = tid' \<longleftrightarrow> cid = cid' \<and> addr = addr')"
  using assms(4) GetTransactionId_eq_iff [OF assms(1,2)] assms(3) tilde_split [OF assms(5,6)] assms(1)
  by (auto simp: GetTransactionId_def length_hex_bytes split: option.splits)

lemma transaction_id_identifies_example:
  "\<exists>tid tid'. GetTransactionId demo_sha ''1'' ''p'' = Inr tid \<and> GetTransactionId demo_sha ''2'' ''p'' = Inr tid' \<and>
     length tid = 64 \<and> tid \<noteq> tid'"
proof -
  have "case GetTransactionId demo_sha ''1'' ''p'' of Inr _ \<Rightarrow> True | Inl _ \<Rightarrow> False"
    "case GetTransactionId demo_sha ''2'' ''p'' of Inr _ \<Rightarrow> True | Inl _ \<Rightarrow> False" by code_simp+
  then obtain tid tid' where ids: "GetTransactionId demo_sha ''1'' ''p'' = Inr tid"
    "GetTransactionId demo_sha ''2'' ''p'' = Inr tid'" by (auto split: sum.splits)
  have "HashSha256 demo_sha ''1~p'' \<noteq> HashSha256 demo_sha ''2~p''" by code_simp
  then have "length tid = 64 \<and> (tid = tid' \<longleftrightarrow> ''1'' = ''2'' \<and> ''p'' = ''p'')"
    by (intro transaction_id_identifies [OF ids]) (auto simp: HashSha256_def demo_sha_def)
  with ids show ?thesis by auto
qed



subsection \<open>Committing\<close>

text \<open>C12: Whatever the state of the server, one call of \<open>CommitAtomicTransaction\<close> either calls nobody, or makes
  exactly these calls: with more than one cohort it first opens the vote with the id, the number of
  cohorts and the final abort time; then, unless that failed, each cohort gets one prepare request with
  its own operations, the final configuration, and \<open>only_cohort\<close> or its position as the cohort index.
  The call succeeds exactly when the vote was opened or not needed.\<close>

theorem commit_opens_vote_then_prepares:
  assumes "CommitAtomicTransaction (ctraced E) context req s (w, []) = Some (st, resp, s', w', tr)"
    and "\<forall>a stub. cohort_by_namespace s a = Some stub \<longrightarrow> stub = NewStub E a"
  shows "tr = [] \<or> (\<exists>tid ts st0. GetTransactionId (sha E) (client_transaction_id req) (peer context) = Inr tid \<and>
      resp = \<lparr>global_transaction_id = tid, cresp_config = \<lparr>config_abort_time = Some ts\<rparr>\<rparr> \<and>
      (let subs = SplitClientTransaction (iter_subs E) (creq_transaction req) SortCohortRequests;
           n = length subs;
           vote = VotingStarted \<lparr>sv_transaction_id = tid,
             sv_timeout_time = \<lparr>seconds = seconds ts, nanos = 0\<rparr>, sv_cohorts = of_nat n\<rparr> st0;
           prepares = map (\<lambda>(i, sub). PrepareSent (NewStub E (ns_address (sub_namespace sub)))
             \<lparr>req_transaction_id = tid, req_transaction = sub_ops sub, req_config = cresp_config resp,
              participant = (if n = 1 then OnlyCohort True else CohortIndex i)\<rparr>) (enumerate 0 subs)
       in (grpc_ok st \<longleftrightarrow> n \<le> 1 \<or> grpc_ok st0) \<and>
          tr = (if n \<le> 1 then prepares else if grpc_ok st0 then vote # prepares else [vote])))"
proof (cases "tr = []")
  case False
  have "stubs_ok E s" using assms(2) by (simp add: stubs_ok_def)
  from Commit_traced [OF assms(1) this] False obtain tid ts st0 where
    facts: "GetTransactionId (sha E) (client_transaction_id req) (peer context) = Inr tid"
      "resp = \<lparr>global_transaction_id = tid, cresp_config = \<lparr>config_abort_time = Some ts\<rparr>\<rparr>"
      "grpc_ok st \<longleftrightarrow> \<not> RequiresBlockchain (subs_of E req) \<or> grpc_ok st0"
      "tr = commit_events E tid ts (subs_of E req) st0" by blast
  then show ?thesis
    by (intro disjI2 exI [of _ tid] exI [of _ ts] exI [of _ st0])
       (auto simp: Let_def commit_events_def prepare_events_def prepare_for_def sub_address_def RequiresBlockchain_def)
qed simp

theorem commit_opens_vote_then_prepares_witness:
  "\<exists>st resp s' w' tr.
     CommitAtomicTransaction (ctraced demo_coord) demo_context demo_request new_coord_server ((), []) =
       Some (st, resp, s', w', tr) \<and> tr \<noteq> [] \<and>
     (\<exists>ts. cresp_config resp = \<lparr>config_abort_time = Some ts\<rparr>)"
proof -
  obtain resp s' w' tr where ret: "CommitAtomicTransaction (ctraced demo_coord) demo_context demo_request
      new_coord_server ((), []) = Some (grpc_OK, resp, s', w', tr)" "length tr = 3" by (rule demo_commits)
  have "tr \<noteq> []" using ret(2) by auto
  moreover have "\<exists>ts. cresp_config resp = \<lparr>config_abort_time = Some ts\<rparr>"
    using commit_opens_vote_then_prepares [OF ret(1)] \<open>tr \<noteq> []\<close> by (auto simp: new_coord_server_def)
  ultimately show ?thesis using ret by blast
qed

subsection \<open>Results\<close>

text \<open>The demo run: commit, then ask for the result.\<close>

lemma demo_results:
  obtains resp s c s' where
    "CommitAtomicTransaction demo_coord demo_context demo_request new_coord_server () = Some (grpc_OK, resp, s, ())"
    "coord_GetTransactionResult demo_coord demo_context (global_transaction_id resp) s () =
       Some (grpc_OK, CoordCommitted c, s', ())" "complete_flag c"
    "\<not> complete (coord_resp s (global_transaction_id resp))"
    "map_option (\<lambda>m. map ns_address (cohort_namespaces m)) (metadata_by_transaction s (global_transaction_id resp)) =
       Some [''a'', ''b'']"
proof -
  have "case CommitAtomicTransaction demo_coord demo_context demo_request new_coord_server () of
      None \<Rightarrow> False
    | Some (st, resp, s, _) \<Rightarrow> st = grpc_OK \<and> \<not> complete (coord_resp s (global_transaction_id resp)) \<and>
        map_option (\<lambda>m. map ns_address (cohort_namespaces m)) (metadata_by_transaction s (global_transaction_id resp)) =
          Some [''a'', ''b''] \<and>
        (case coord_GetTransactionResult demo_coord demo_context (global_transaction_id resp) s () of
           Some (st', CoordCommitted c, s', _) \<Rightarrow> st' = grpc_OK \<and> complete_flag c | _ \<Rightarrow> False)"
    by code_simp
  then obtain resp s st' res s' where
    "CommitAtomicTransaction demo_coord demo_context demo_request new_coord_server () = Some (grpc_OK, resp, s, ())"
    "coord_GetTransactionResult demo_coord demo_context (global_transaction_id resp) s () = Some (st', res, s', ())"
    "\<not> complete (coord_resp s (global_transaction_id resp))"
    "map_option (\<lambda>m. map ns_address (cohort_namespaces m)) (metadata_by_transaction s (global_transaction_id resp)) =
       Some [''a'', ''b'']"
    "case res of CoordCommitted c \<Rightarrow> st' = grpc_OK \<and> complete_flag c | _ \<Rightarrow> False"
    by (auto split: option.split_asm)
  then show thesis by (cases res) (auto intro: that)
qed

lemma demo_reach:
  assumes "CommitAtomicTransaction demo_coord demo_context demo_request new_coord_server () = Some (grpc_OK, resp, s, ())"
  shows "coord_steps demo_coord new_coord_server s"
  using assms by (rule commit_call [OF no_call])

text \<open>C14: In every reachable state of the coordinator, the metadata of a transaction lists cohorts with
  distinct addresses and one client context per cohort; it is marked as possibly sent to all exactly when
  it lists cohorts; the single-cohort shortcut is set exactly when there is one cohort; the cohorts
  recorded as having responded are distinct cohorts of the transaction, and there are none before a
  decision to commit; an abort decision is never kept.\<close>

theorem coordinator_invariant:
  assumes "coord_steps E new_coord_server s" and "perm_order (iter_subs E)" and "stable_answers E answers"
    and "metadata_by_transaction s tid = Some m"
  shows "distinct (map ns_address (cohort_namespaces m)) \<and>
    length (cm_contexts m) = length (cohort_namespaces m) \<and>
    (possibly_sent_to_all_cohorts m \<longleftrightarrow> cohort_namespaces m \<noteq> []) \<and>
    single_cohort_namespace m = (if length (cohort_namespaces m) = 1 then Some (hd (cohort_namespaces m)) else None) \<and>
    distinct (cohorts_already_responded m) \<and>
    set (cohorts_already_responded m) \<subseteq> ns_address ` set (cohort_namespaces m) \<and>
    (cohorts_already_responded m = [] \<or> cm_decision m = VOTING_DECISION_COMMIT) \<and>
    cm_decision m \<noteq> VOTING_DECISION_ABORT"
  using coord_invD(2) [OF coord_inv_reach [OF assms(1-3)], of tid] assms(4)
  by (auto simp: txn_inv_def meta_ok_def coord_meta_present)

theorem coordinator_invariant_witness:
  "\<exists>s tid m. coord_steps demo_coord new_coord_server s \<and> metadata_by_transaction s tid = Some m \<and>
     possibly_sent_to_all_cohorts m \<and> single_cohort_namespace m = None"
proof -
  obtain resp s where s: "CommitAtomicTransaction demo_coord demo_context demo_request new_coord_server () =
      Some (grpc_OK, resp, s, ())" and m: "map_option (\<lambda>m. map ns_address (cohort_namespaces m))
        (metadata_by_transaction s (global_transaction_id resp)) = Some [''a'', ''b'']" by (rule demo_results)
  from m obtain m where m: "metadata_by_transaction s (global_transaction_id resp) = Some m"
    "map ns_address (cohort_namespaces m) = [''a'', ''b'']" by auto
  then have "length (cohort_namespaces m) = 2" by (metis length_Cons length_map list.size(3) numeral_2_eq_2)
  then show ?thesis
    using coordinator_invariant [OF demo_reach [OF s] _ stable_demo m(1)] demo_reach [OF s] m(1) by auto
qed

lemma complete_collects:
  assumes inv: "coord_inv E answers s" and stable: "stable_answers E answers"
    and ret: "coord_GetTransactionResult E context tid s w = Some (st, CoordCommitted c, s', w')"
    and complete: "grpc_ok st" "complete_flag c" and open_txn: "\<not> complete (coord_resp s tid)"
    and m: "metadata_by_transaction s tid = Some m"
  shows "mset (all_get_responses c) = (\<Sum>ns \<leftarrow> cohort_namespaces m. mset (answers tid (ns_address ns)))"
proof (cases "single_cohort_namespace m")
  case (Some ns)
  let ?s0 = "upd_resp tid (\<lambda>r. r) s"
  have mok: "meta_ok m" "gathered (coord_resp s tid) = concat (map (answers tid) (cohorts_already_responded m))"
    using coord_invD(2) [OF inv, of tid] m open_txn by (simp_all add: txn_inv_def coord_meta_present)
  have nss: "cohort_namespaces m = [ns]" and none: "cohorts_already_responded m = []"
    using mok(1) Some by (auto simp: meta_ok_def length_Suc_conv split: if_splits)
  from ret Some m open_txn complete obtain status where
    upd: "UpdateResponseForSingleCohortTransaction E tid context ?s0 w = Some (status, s', w')"
    and res: "grpc_ok status" "CoordCommitted c = tr_response (coord_resp s' tid)"
    by (auto simp: Get_single split: if_splits elim!: bind_elims)
  have sn: "single_cohort_namespace (coord_meta ?s0 tid) = Some ns" using Some m by (simp add: coord_meta_present)
  from UpdateSingle_result [OF upd coord_inv_touch(2) [OF inv] _ sn] open_txn obtain st0 cr where
    call: "stub_Result E (NewStub E (ns_address ns)) (FromServerContext context) tid w = Some (st0, cr, w')"
    and r: "if grpc_ok st0 then status = grpc_OK \<and> coord_resp s' tid = single_update ns cr (coord_resp s tid)
      else error_code status = error_code st0 \<and> coord_resp s' tid = coord_resp s tid" by auto
  from r res(1) have "grpc_ok st0" by (auto simp: grpc_ok_def split: if_splits)
  with r res(2) obtain gs where gs: "cr = CohortCommitted gs" "all_get_responses c = gathered (coord_resp s tid) @ gs"
    by (cases cr) (auto simp: add_abort_def Let_def set_complete_def gathered_def add_responses_def)
  with call \<open>grpc_ok st0\<close> stable have "gs = answers tid (ns_address ns)"
    unfolding stable_answers_def by blast
  with gs nss none mok(2) show ?thesis by simp
next
  case None
  from ret obtain d w1 where d: "current_decision E tid m w = Some (d, w1)"
    unfolding Get_many [OF open_txn m None] by (auto elim!: bind_elims)
  let ?s = "upd_meta tid (\<lambda>m. m\<lparr>cm_decision := VOTING_DECISION_COMMIT\<rparr>) (upd_resp tid (\<lambda>r. r) s)"
  from ret d obtain w2 where dec: "d = Inr VOTING_DECISION_COMMIT" and
    upd: "UpdateCommittedResponseFromCohorts E tid context ?s w1 = Some (s', w2)"
    and c: "CoordCommitted c = tr_response (coord_resp s' tid)"
    unfolding Get_many [OF open_txn m None]
    by (cases d) (auto simp: Let_def UpdateAbortedResponseFromCohorts_def split: if_splits elim!: bind_elims)
  have inv': "coord_inv E answers ?s" using coord_inv_decision [OF inv m] d dec by simp
  have "complete (coord_resp s' tid)"
    using Get_final_complete [OF inv stable ret complete(1)] complete(2) by simp
  with UpdateCommitted_result(2) [OF upd inv' stable] open_txn None m c show ?thesis
    by (auto simp: coord_meta_present)
qed

text \<open>C13: A committed result that is marked complete holds the answer of every cohort of the transaction exactly
  once, however many calls of \<open>GetTransactionResult\<close>, failures and partial answers came before it, provided
  that a cohort which has committed always answers the same.\<close>

theorem complete_answer_collects_each_cohort_once:
  assumes "coord_steps E new_coord_server s" and "perm_order (iter_subs E)" and "stable_answers E answers"
    and "coord_GetTransactionResult E context tid s w = Some (st, CoordCommitted c, s', w')"
    and "grpc_ok st" and "complete_flag c" and "\<not> complete (coord_resp s tid)"
    and "metadata_by_transaction s tid = Some m"
  shows "mset (all_get_responses c) = (\<Sum>ns \<leftarrow> cohort_namespaces m. mset (answers tid (ns_address ns)))"
  using complete_collects [OF coord_inv_reach [OF assms(1-3)] assms(3-8)] .

theorem complete_answer_collects_each_cohort_once_witness:
  "\<exists>s tid c s'. coord_steps demo_coord new_coord_server s \<and>
     coord_GetTransactionResult demo_coord demo_context tid s () = Some (grpc_OK, CoordCommitted c, s', ()) \<and>
     mset (all_get_responses c) = mset (demo_answer ''a'') + mset (demo_answer ''b'')"
proof -
  obtain resp s c s' where r: "CommitAtomicTransaction demo_coord demo_context demo_request new_coord_server () =
      Some (grpc_OK, resp, s, ())" "coord_GetTransactionResult demo_coord demo_context (global_transaction_id resp) s () =
       Some (grpc_OK, CoordCommitted c, s', ())" "complete_flag c"
    "\<not> complete (coord_resp s (global_transaction_id resp))"
    "map_option (\<lambda>m. map ns_address (cohort_namespaces m)) (metadata_by_transaction s (global_transaction_id resp)) =
       Some [''a'', ''b'']" by (rule demo_results)
  from r(5) obtain m where m: "metadata_by_transaction s (global_transaction_id resp) = Some m"
    "map ns_address (cohort_namespaces m) = [''a'', ''b'']" by auto
  have "mset (all_get_responses c) = (\<Sum>ns \<leftarrow> cohort_namespaces m. mset (demo_answer (ns_address ns)))"
    using complete_answer_collects_each_cohort_once [OF demo_reach [OF r(1)] _ stable_demo r(2) _ r(3,4) m(1)]
    by simp
  also have "\<dots> = (\<Sum>a \<leftarrow> map ns_address (cohort_namespaces m). mset (demo_answer a))" by (simp add: comp_def)
  finally show ?thesis using demo_reach [OF r(1)] r(2) m(2) by fastforce
qed

text \<open>C20: A final answer is for ever: once \<open>GetTransactionResult\<close> has returned an aborted result or a complete
  committed one, every later call, after any further calls of the two handlers, returns the same
  answer, asks nobody and leaves the stored responses as they are.\<close>

theorem final_answer_forever:
  assumes "coord_steps E new_coord_server s" and "perm_order (iter_subs E)" and "stable_answers E answers"
    and "coord_GetTransactionResult E context tid s w = Some (st, res, s1, w1)"
    and "grpc_ok st" and "final_result res" and "coord_steps E s1 s2"
  shows "\<exists>s3. coord_GetTransactionResult (ctraced E) context' tid s2 (w2, tr) = Some (grpc_OK, res, s3, (w2, tr)) \<and>
    response_by_transaction s3 = (response_by_transaction s2)(tid \<mapsto> coord_resp s2 tid)"
proof -
  have "complete (coord_resp s1 tid) \<and> tr_response (coord_resp s1 tid) = res"
    using Get_final_complete [OF coord_inv_reach [OF assms(1-3)] assms(3-6)] .
  moreover from this complete_forever [OF assms(7)] have "coord_resp s2 tid = coord_resp s1 tid" by blast
  ultimately show ?thesis by (simp add: Get_answered)
qed

theorem final_answer_forever_witness:
  "\<exists>s tid c s3. coord_steps demo_coord new_coord_server s \<and>
     coord_GetTransactionResult (ctraced demo_coord) demo_context tid s ((), []) =
       Some (grpc_OK, CoordCommitted c, s3, ((), []))"
proof -
  obtain resp s c s' where r: "CommitAtomicTransaction demo_coord demo_context demo_request new_coord_server () =
      Some (grpc_OK, resp, s, ())" "coord_GetTransactionResult demo_coord demo_context (global_transaction_id resp) s () =
       Some (grpc_OK, CoordCommitted c, s', ())" "complete_flag c" by (rule demo_results)
  have "final_result (CoordCommitted c)" using r(3) by simp
  from final_answer_forever [OF demo_reach [OF r(1)] _ stable_demo r(2) _ this no_call]
  show ?thesis using result_call [OF demo_reach [OF r(1)] r(2)] by fastforce
qed

text \<open>C34: A transaction of one cohort never touches the blockchain: asking for its result asks that cohort, once,
  and nobody else; the answer is the cohort's (aborted with its reason and namespace, committed and
  complete with its values, or pending), or the error of that call with the same code.\<close>

theorem single_cohort_without_blockchain:
  assumes "coord_steps E new_coord_server s" and "perm_order (iter_subs E)" and "stable_answers E answers"
    and "metadata_by_transaction s tid = Some m" and "cohort_namespaces m = [ns]" and "\<not> complete (coord_resp s tid)"
    and "coord_GetTransactionResult (ctraced E) context tid s (w, []) = Some (st, res, s', w', tr)"
  shows "\<exists>st0 cr. stub_Result E (NewStub E (ns_address ns)) (FromServerContext context) tid w = Some (st0, cr, w') \<and>
    tr = [ResultAsked (NewStub E (ns_address ns)) tid] \<and>
    (if grpc_ok st0
     then st = grpc_OK \<and> res = (case cr of
       CohortAborted reason \<Rightarrow> CoordAborted \<lparr>abort_reason_of = reason, abort_namespaces = [ns]\<rparr>
     | CohortCommitted gs \<Rightarrow> CoordCommitted \<lparr>complete_flag = True, all_get_responses = gs\<rparr>
     | _ \<Rightarrow> CoordPending)
     else error_code st = error_code st0)"
proof -
  let ?s0 = "upd_resp tid (\<lambda>r. r) s"
  have inv: "coord_inv (ctraced E) answers s" using coord_inv_reach [OF assms(1-3)] by simp
  then have txn: "txn_inv (answers tid) m (coord_resp s tid)"
    using coord_invD(2) [of _ answers s tid] assms(4) by (simp add: coord_meta_present)
  then have single: "single_cohort_namespace m = Some ns" and none: "cohorts_already_responded m = []"
    using assms(5) by (auto simp: txn_inv_def meta_ok_def)
  have nf: "\<not> final_result (tr_response (coord_resp s tid))" and gath: "gathered (coord_resp s tid) = []"
    using txn none assms(6) by (simp_all add: txn_inv_def resp_ok_def)
  from assms(4,6,7) single obtain s1 where
    upd: "UpdateResponseForSingleCohortTransaction (ctraced E) tid context ?s0 (w, []) = Some (st, s', w', tr)"
    and res: "res = (if grpc_ok st then tr_response (coord_resp s' tid) else CoordStatusNotSet)"
    by (auto simp: Get_single elim!: bind_elims)
  have sn: "single_cohort_namespace (coord_meta ?s0 tid) = Some ns" using single assms(4) by (simp add: coord_meta_present)
  from UpdateSingle_result [OF upd coord_inv_touch(2) [OF inv] _ sn] assms(6) obtain st0 cr where
    call: "stub_Result (ctraced E) (NewStub E (ns_address ns)) (FromServerContext context) tid (w, []) = Some (st0, cr, w', tr)"
    and r: "if grpc_ok st0 then st = grpc_OK \<and> coord_resp s' tid = single_update ns cr (coord_resp s tid)
      else error_code st = error_code st0 \<and> coord_resp s' tid = coord_resp s tid" by auto
  have "tr_response (single_update ns cr (coord_resp s tid)) = (case cr of
       CohortAborted reason \<Rightarrow> CoordAborted \<lparr>abort_reason_of = reason, abort_namespaces = [ns]\<rparr>
     | CohortCommitted gs \<Rightarrow> CoordCommitted \<lparr>complete_flag = True, all_get_responses = gs\<rparr>
     | _ \<Rightarrow> CoordPending)"
    using nf gath
    by (cases cr; cases "tr_response (coord_resp s tid)")
       (auto simp: add_abort_def set_complete_def add_responses_def Let_def gathered_def)
  with call r res show ?thesis by (intro exI [of _ st0] exI [of _ cr]) auto
qed

text \<open>A run with one cohort, for the witness.\<close>

definition demo_single :: commit_request where
  "demo_single = demo_request\<lparr>creq_transaction := [demo_op ''a'']\<rparr>"

theorem single_cohort_without_blockchain_witness:
  "\<exists>s tid res s'. coord_GetTransactionResult (ctraced demo_coord) demo_context tid s ((), []) =
     Some (grpc_OK, res, s', (), [ResultAsked ''a'' tid])"
proof -
  have "case CommitAtomicTransaction demo_coord demo_context demo_single new_coord_server () of
      None \<Rightarrow> False
    | Some (st, resp, s, _) \<Rightarrow> \<not> complete (coord_resp s (global_transaction_id resp)) \<and>
        map_option cohort_namespaces (metadata_by_transaction s (global_transaction_id resp)) =
          Some [\<lparr>ns_identifier = [], ns_address = ''a''\<rparr>] \<and>
        (case coord_GetTransactionResult (ctraced demo_coord) demo_context (global_transaction_id resp) s ((), []) of
           Some (st', res, s', _, tr) \<Rightarrow> st' = grpc_OK | _ \<Rightarrow> False)"
    by code_simp
  then obtain st resp s m res s' tr where
    commit: "CommitAtomicTransaction demo_coord demo_context demo_single new_coord_server () = Some (st, resp, s, ())"
    and open_txn: "\<not> complete (coord_resp s (global_transaction_id resp))"
    and m: "metadata_by_transaction s (global_transaction_id resp) = Some m"
      "cohort_namespaces m = [\<lparr>ns_identifier = [], ns_address = ''a''\<rparr>]"
    and ret: "coord_GetTransactionResult (ctraced demo_coord) demo_context (global_transaction_id resp) s ((), []) =
      Some (grpc_OK, res, s', (), tr)"
    by (auto split: option.split_asm)
  have "NewStub demo_coord = (\<lambda>a. a)" by (simp add: demo_coord_def)
  with single_cohort_without_blockchain [OF commit_call [OF no_call commit] _ stable_demo m open_txn ret] ret
  show ?thesis by auto
qed

subsection \<open>What the code does not mean to do\<close>



definition demo_silent :: "(string, string, unit) coord_env" where
  "demo_silent = demo_coord\<lparr>stub_Result := \<lambda>_ _ _ w. Some (grpc_OK, CohortPending, w)\<rparr>"

definition demo_state :: "string coord_server" where
  "demo_state = \<lparr>cohort_by_namespace = Map.empty,
     metadata_by_transaction = [''t'' \<mapsto> fresh_coord_metadata\<lparr>cohort_namespaces :=
       [\<lparr>ns_identifier = [], ns_address = ''a''\<rparr>, \<lparr>ns_identifier = [], ns_address = ''b''\<rparr>],
       possibly_sent_to_all_cohorts := True\<rparr>],
     response_by_transaction = Map.empty\<rparr>"

text \<open>A transaction without operations is accepted, but its result can never be asked for: nobody opens a
  vote for it, so the adapter server never answers the question for the decision, and the call of
  \<open>GetTransactionResult\<close> does not return.\<close>

lemma empty_transaction_never_answered:
  assumes "coord_blockchain E = js_stub" and "perm_order (iter_subs E)" and "creq_transaction req = []"
    and "GetTransactionId (sha E) (client_transaction_id req) (peer context) = Inr tid"
    and "metadata_by_transaction s tid = None" and "response_by_transaction s tid = None"
    and "coord_clock E ch \<le> requested_time (creq_config req) (coord_clock E ch) (default_presumed_abort_duration E)"
    and "num_cohorts (deployed ch) tid = 0"
  shows "\<exists>resp s'. CommitAtomicTransaction E context req s ch = Some (grpc_OK, resp, s', ch) \<and>
    coord_GetTransactionResult E context' tid s' ch = None"
proof -
  let ?c = "\<lparr>config_abort_time = Some (ToTimespec (requested_time (creq_config req) (coord_clock E ch)
    (default_presumed_abort_duration E)))\<rparr>"
  have subs: "subs_of E req = []" using SplitClientTransaction_Nil_iff [OF assms(2)] assms(3) by simp
  have meta: "coord_meta s tid = fresh_coord_metadata" using assms(5) by (rule coord_meta_absent)
  have commit: "CommitAtomicTransaction E context req s ch = Some (grpc_OK,
      \<lparr>global_transaction_id = tid, cresp_config = ?c\<rparr>, configured tid ?c s, ch)"
    using assms(4,7) subs meta
    by (simp add: CommitAtomicTransaction_def Let_def configured_def ComputeFinalConfig_eq fresh_coord_metadata_def)
  have m: "metadata_by_transaction (configured tid ?c s) tid = Some (fresh_coord_metadata\<lparr>cm_config := ?c\<rparr>)"
    using meta by (simp add: configured_def)
  have open_txn: "\<not> complete (coord_resp (configured tid ?c s) tid)"
    using assms(6) by (simp add: configured_def coord_resp_absent fresh_response_def)
  have "coord_GetTransactionResult E context' tid (configured tid ?c s) ch = None"
    using assms(1,8) decide_None [of "deployed ch" "block_now ch" tid]
    by (subst Get_many [OF open_txn m]) (simp_all add: current_decision_def fresh_coord_metadata_def bc_GetVotingDecision_js decision_option_def)
  with commit show ?thesis by blast
qed

definition demo_chain :: chain where
  "demo_chain = \<lparr>deployed = new_contract, block_now = 1000\<rparr>"

definition demo_js :: "(string, string, chain) coord_env" where
  "demo_js = \<lparr>sha = demo_sha, coord_blockchain = js_stub, NewStub = (\<lambda>a. a),
     stub_Prepare = (\<lambda>_ _ _ w. Some (grpc_OK, w)), stub_Result = (\<lambda>_ _ _ w. Some (grpc_OK, CohortPending, w)),
     coord_clock = (\<lambda>ch. uint (block_now ch) * 4000000000), default_presumed_abort_duration = 5 * 4000000000,
     iter_subs = rev\<rparr>"

lemma empty_transaction_never_answered_example:
  "\<exists>resp s'. CommitAtomicTransaction demo_js demo_context (demo_request\<lparr>creq_transaction := []\<rparr>) new_coord_server demo_chain =
       Some (grpc_OK, resp, s', demo_chain) \<and>
     (\<exists>tid. coord_GetTransactionResult demo_js demo_context tid s' demo_chain = None)"
proof -
  obtain tid where id: "GetTransactionId demo_sha ''1'' ''p'' = Inr tid"
    by (simp add: GetTransactionId_def HashSha256_def demo_sha_def)
  have "\<exists>resp s'. CommitAtomicTransaction demo_js demo_context (demo_request\<lparr>creq_transaction := []\<rparr>) new_coord_server demo_chain =
      Some (grpc_OK, resp, s', demo_chain) \<and> coord_GetTransactionResult demo_js demo_context tid s' demo_chain = None"
    by (rule empty_transaction_never_answered)
       (use id in \<open>simp_all add: demo_js_def demo_chain_def demo_request_def new_coord_server_def requested_time_def
          num_cohorts_def new_contract_def\<close>)
  then show ?thesis by blast
qed

text \<open>A transaction with more than 120 cohorts blocks the coordinator: the contract refuses to open the vote,
  the adapter server only logs that, and the call to open the vote never returns.\<close>

lemma too_many_cohorts_block:
  assumes "coord_blockchain E = js_stub" and "120 < n" and "n < 2 ^ 32"
  shows "coord_StartVoting E tid ts n ch = None"
proof -
  have "unat (of_nat n :: uint32) = n" using assms(3) by (simp add: unat_of_nat take_bit_nat_eq_self)
  then have "\<not> (of_nat n :: uint32) \<le> 120" using assms(2) by (simp add: word_le_nat_alt)
  then have "sol_startVoting c now tid (of_nat n) timeout = None" for c now timeout
    by (simp add: sol_startVoting_def)
  then show ?thesis
    by (simp add: coord_StartVoting_def assms(1) bc_StartVoting_js client_startVoting_def Let_def)
qed

lemma too_many_cohorts_block_example:
  "coord_StartVoting demo_js ''t'' \<lparr>seconds = 2000, nanos = 0\<rparr> 121 demo_chain = None"
  by (rule too_many_cohorts_block) (simp_all add: demo_js_def)

end
