(* ===== verification/Client_Properties.thy ===== *)
theory Client_Properties
  imports Client_Coordinator Coordinator_Properties
begin

text \<open>
  The properties of the client library and of the client program, alone and together with the
  coordinator, with concrete runs.
\<close>

subsection \<open>Polling\<close>

text \<open>Polling ends exactly when it should: the task of a transaction returns if and only if, after some number
  of polls that failed, were answered pending or with a committed result that is not complete, a poll succeeds
  with any other answer, which is what the task returns.\<close>

lemma polling_ends_iff_answered:
  "GetTransactionResults C resp w = Some (r, w') \<longleftrightarrow>
     (\<exists>n w1 res. let t = time_of_timestamp (config_time (cresp_config resp)) in r = Inr res \<and>
        retry_loop.failing (poll_attempt C (global_transaction_id resp) t) n (client_sleep_until C t w) = Some w1 \<and>
        TryGetTransactionResults C (global_transaction_id resp) w1 = Some (True, res, w'))"
proof -
  let ?t = "time_of_timestamp (config_time (cresp_config resp))" and ?tid = "global_transaction_id resp"
  have attempt: "poll_attempt C ?tid ?t w1 = Some (Inl (res, w')) \<longleftrightarrow>
      TryGetTransactionResults C ?tid w1 = Some (True, res, w')" for w1 res
    by (auto simp: poll_attempt_def split: if_splits)
  have "GetTransactionResults C resp w = Some (r, w') \<longleftrightarrow>
      (\<exists>res. r = Inr res \<and> poll_results C ?tid ?t (client_sleep_until C ?t w) = Some (res, w'))"
    by (auto simp: GetTransactionResults_def Let_def time_of_timestamp_def elim!: bind_elims)
  also have "\<dots> \<longleftrightarrow> (\<exists>n w1 res. r = Inr res \<and>
      retry_loop.failing (poll_attempt C ?tid ?t) n (client_sleep_until C ?t w) = Some w1 \<and>
      TryGetTransactionResults C ?tid w1 = Some (True, res, w'))"
    unfolding polling.returns_iff attempt by blast
  finally show ?thesis by (simp add: Let_def)
qed

text \<open>The polls back off exponentially: when every poll takes at least \<open>l\<close>, after \<open>n\<close> polls that did not end the
  task at least \<open>2 * (2 ^ n - 1) * l\<close> has passed since the presumed abort time, so that the number of
  polls is logarithmic in the time waited.\<close>

lemma polls_back_off:
  assumes "\<And>u w. u \<le> client_now C (client_sleep_until C u w)"
    and "\<And>w st r w'. cs_GetTransactionResult (client_stub C) (global_transaction_id resp) w = Some (st, r, w') \<Longrightarrow>
      client_now C w + l \<le> client_now C w'"
    and "t = time_of_timestamp (config_time (cresp_config resp))"
    and "retry_loop.failing (poll_attempt C (global_transaction_id resp) t) n (client_sleep_until C t w) = Some w'"
  shows "t + 2 * (2 ^ n - 1) * l \<le> client_now C w'"
  using polling_elapsed [OF assms(1,2,4), where d = 0] assms(1) by simp

definition slow_client :: "time client_env" where
  "slow_client = \<lparr>client_stub = \<lparr>cs_CommitAtomicTransaction = (\<lambda>_ _. None),
       cs_GetTransactionResult = (\<lambda>_ w. Some (grpc_OK, CoordPending, w + 3))\<rparr>,
     client_now = (\<lambda>w. w), client_sleep_until = max, client_sleep_for = (\<lambda>d w. w + d)\<rparr>"

lemma polls_back_off_example:
  "\<exists>w'. retry_loop.failing (poll_attempt slow_client ''t'' 0) 2 (client_sleep_until slow_client 0 0) = Some w' \<and> 18 \<le> w'"
proof -
  have run: "retry_loop.failing (poll_attempt slow_client ''t'' 0) 2 (client_sleep_until slow_client 0 0) = Some 18"
    by (simp add: numeral_2_eq_2 polling.failing.simps poll_attempt_def TryGetTransactionResults_def slow_client_def)
  have "0 + 2 * (2 ^ 2 - 1) * 3 \<le> client_now slow_client 18"
    by (rule polls_back_off [where resp = "\<lparr>global_transaction_id = ''t'', cresp_config = \<lparr>config_abort_time = None\<rparr>\<rparr>"
          and C = slow_client and w = 0])
       (use run in \<open>auto simp: slow_client_def config_time_def time_defs\<close>)
  with run show ?thesis by auto
qed

subsection \<open>The client and the coordinator\<close>

text \<open>C19: What \<open>CommitSync\<close> returns is final, or has no status: against the coordinator, while other calls of any kind
  come in between, its result is an aborted or a complete committed response that every later query of the
  coordinator returns too, or the response without a status.\<close>

theorem client_answer_is_final:
  assumes "client_stub C = served_by CE context" and "sleeping_client CE C"
    and "coord_steps CE new_coord_server s" and "perm_order (iter_subs CE)" and "stable_answers CE answers"
    and "CommitSync C request (s, w) = Some (Inr res, s', w')"
  shows "\<exists>tid. GetTransactionId (sha CE) (client_transaction_id request) (peer context) = Inr tid \<and>
    (res = CoordStatusNotSet \<or> final_result res \<and>
     (\<forall>s2 context' w2. coord_steps CE s' s2 \<longrightarrow>
        (\<exists>s3. coord_GetTransactionResult CE context' tid s2 w2 = Some (grpc_OK, res, s3, w2))))"
proof -
  from CommitSync_polls [OF assms(6)] obtain st resp w1 t where
    com: "cs_CommitAtomicTransaction (client_stub C) request (s, w) = Some (st, resp, w1)" "grpc_ok st"
    and polls: "poll_results C (global_transaction_id resp) t (client_sleep_until C t w1) = Some (res, s', w')" by blast
  obtain s1 v1 where w1: "w1 = (s1, v1)" by fastforce
  have com': "CommitAtomicTransaction CE context request s w = Some (st, resp, s1, v1)" using com(1) assms(1) w1 by simp
  have steps: "coord_steps CE new_coord_server (fst (client_sleep_until C t w1))"
    using coord_steps_trans [OF _ commit_call [OF assms(3) com']] assms(2) w1 by (auto simp: sleeping_client_def)
  from poll_results_call [OF assms(1,2) polls steps] obtain st' s2 v2 where
    reach: "coord_steps CE new_coord_server s2" and
    get: "coord_GetTransactionResult CE context (global_transaction_id resp) s2 v2 = Some (st', res, s', w')" "grpc_ok st'"
    and res: "res = CoordStatusNotSet \<or> final_result res" by blast
  have later: "\<exists>s4. coord_GetTransactionResult CE context' (global_transaction_id resp) s3 w3 = Some (grpc_OK, res, s4, w3)"
    if "final_result res" and "coord_steps CE s' s3" for s3 context' w3
  proof -
    have "complete (coord_resp s' (global_transaction_id resp)) \<and> tr_response (coord_resp s' (global_transaction_id resp)) = res"
      using Get_final_complete [OF coord_inv_reach [OF reach assms(4,5)] assms(5) get(1,2) that(1)] .
    with complete_forever [OF that(2)] show ?thesis by (simp add: Get_answered)
  qed
  show ?thesis using Commit_id [OF com' com(2)] res later by blast
qed

definition demo_client :: "(string, string, unit) coord_env \<Rightarrow> (string coord_server \<times> unit) client_env" where
  "demo_client CE = \<lparr>client_stub = served_by CE demo_context, client_now = (\<lambda>_. 0),
     client_sleep_until = (\<lambda>_ x. x), client_sleep_for = (\<lambda>_ x. x)\<rparr>"

lemma demo_client_simps [simp]:
  "client_stub (demo_client CE) = served_by CE demo_context" "client_sleep_until (demo_client CE) u x = x"
  "sleeping_client CE (demo_client CE)"
  by (auto simp: demo_client_def sleeping_client_def intro: no_call)

text \<open>A poll that is answered for good ends the task at once.\<close>

lemma GetTransactionResults_first:
  assumes "client_sleep_until C (time_of_timestamp (config_time (cresp_config resp))) w = w0"
    and "cs_GetTransactionResult (client_stub C) (global_transaction_id resp) w0 = Some (st, res, w')" and "grpc_ok st"
    and "res = CoordStatusNotSet \<or> final_result res"
  shows "GetTransactionResults C resp w = Some (Inr res, w')"
proof -
  have "TryGetTransactionResults C (global_transaction_id resp) w0 = Some (True, res, w')"
    using assms(2-4) by (cases res) (auto simp: TryGetTransactionResults_def)
  then show ?thesis
    using assms(1) by (subst (asm) time_of_timestamp_def) (simp add: GetTransactionResults_def Let_def poll_results.simps)
qed

theorem client_answer_is_final_witness:
  "\<exists>c s' tid. CommitSync (demo_client demo_coord) demo_request (new_coord_server, ()) =
       Some (Inr (CoordCommitted c), s', ()) \<and>
     (\<exists>s3. coord_GetTransactionResult demo_coord \<lparr>peer = ''q''\<rparr> tid s' () = Some (grpc_OK, CoordCommitted c, s3, ()))"
proof -
  obtain resp s c s' where ret: "CommitAtomicTransaction demo_coord demo_context demo_request new_coord_server () =
      Some (grpc_OK, resp, s, ())"
    "coord_GetTransactionResult demo_coord demo_context (global_transaction_id resp) s () =
       Some (grpc_OK, CoordCommitted c, s', ())" "complete_flag c" by (rule demo_results)
  have "GetTransactionResults (demo_client demo_coord) resp (s, ()) = Some (Inr (CoordCommitted c), s', ())"
  proof (rule GetTransactionResults_first)
    show "cs_GetTransactionResult (client_stub (demo_client demo_coord)) (global_transaction_id resp) (s, ()) =
        Some (grpc_OK, CoordCommitted c, s', ())"
      using ret(2) by simp
  qed (use ret(3) in simp_all)
  then have run: "CommitSync (demo_client demo_coord) demo_request (new_coord_server, ()) = Some (Inr (CoordCommitted c), s', ())"
    using ret(1) by (simp add: CommitSync_def CommitAsync_def)
  from client_answer_is_final [OF _ _ no_call _ stable_demo run, of demo_context] obtain tid where
    "\<forall>s2 context' w2. coord_steps demo_coord s' s2 \<longrightarrow>
       (\<exists>s3. coord_GetTransactionResult demo_coord context' tid s2 w2 = Some (grpc_OK, CoordCommitted c, s3, w2))" by auto
  with run no_call show ?thesis by blast
qed

text \<open>C21: The client is told the outcome at the first poll that can tell it: if, after some polls without a final answer,
  the coordinator still holds the transaction of several cohorts, the decision can be had, and for a commit every cohort reports
  its own, then the task of the client returns at this poll, with an aborted response, or with a complete committed
  one that has the answer of every cohort exactly once.\<close>

theorem client_told_when_decided:
  assumes "client_stub C = served_by CE context" and "tid = global_transaction_id resp"
    and "coord_steps CE new_coord_server s" and "perm_order (iter_subs CE)" and "stable_answers CE answers"
    and "retry_loop.failing (poll_attempt C tid (time_of_timestamp (config_time (cresp_config resp)))) n
      (client_sleep_until C (time_of_timestamp (config_time (cresp_config resp))) v) = Some (s, w)"
    and "metadata_by_transaction s tid = Some m" and "1 < length (cohort_namespaces m)" and "\<not> complete (coord_resp s tid)"
    and "current_decision CE tid m w = Some (Inr d, w1)" and "definite d"
    and "d = VOTING_DECISION_COMMIT \<Longrightarrow> all_committed CE tid (cohort_namespaces m)"
  shows "\<exists>res s' w'. GetTransactionResults C resp v = Some (Inr res, s', w') \<and>
    (if d = VOTING_DECISION_COMMIT
     then \<exists>c. res = CoordCommitted c \<and> complete_flag c \<and>
       mset (all_get_responses c) = (\<Sum>ns \<leftarrow> cohort_namespaces m. mset (answers tid (ns_address ns)))
     else \<exists>a. res = CoordAborted a)"
proof -
  have inv: "coord_inv CE answers s" by (rule coord_inv_reach [OF assms(3-5)])
  then have "txn_inv (answers tid) m (coord_resp s tid)"
    using coord_invD(2) [of CE answers s tid] assms(7) by (simp add: coord_meta_present)
  then have many: "single_cohort_namespace m = None" using assms(8) by (auto simp: txn_inv_def meta_ok_def)
  from Get_decided [OF inv assms(5,7) many assms(9-12)] obtain res s' w' where
    get: "coord_GetTransactionResult CE context tid s w = Some (grpc_OK, res, s', w')" "final_result res"
    and res: "if d = VOTING_DECISION_COMMIT
      then \<exists>c. res = CoordCommitted c \<and>
        mset (all_get_responses c) = (\<Sum>ns \<leftarrow> cohort_namespaces m. mset (answers tid (ns_address ns)))
      else \<exists>a. res = CoordAborted a" by blast
  have "poll_attempt C tid (time_of_timestamp (config_time (cresp_config resp))) (s, w) = Some (Inl (res, s', w'))"
    using get assms(1) by (cases res) (auto simp: poll_attempt_def TryGetTransactionResults_def)
  then have "poll_results C tid (time_of_timestamp (config_time (cresp_config resp)))
      (client_sleep_until C (time_of_timestamp (config_time (cresp_config resp))) v) = Some (res, s', w')"
    using assms(6) unfolding polling.returns_iff by blast
  then have "GetTransactionResults C resp v = Some (Inr res, s', w')"
    using assms(2) by (simp add: GetTransactionResults_def Let_def time_of_timestamp_def)
  with res get(2) show ?thesis by (cases "d = VOTING_DECISION_COMMIT") auto
qed

theorem client_told_when_decided_witness:
  "\<exists>resp s res s'. CommitAtomicTransaction demo_coord demo_context demo_request new_coord_server () = Some (grpc_OK, resp, s, ()) \<and>
    GetTransactionResults (demo_client demo_coord) resp (s, ()) = Some (Inr res, s', ()) \<and>
    (\<exists>c. res = CoordCommitted c \<and> complete_flag c \<and> mset (all_get_responses c) = mset (demo_answer ''a'') + mset (demo_answer ''b''))"
proof -
  obtain resp s where s: "CommitAtomicTransaction demo_coord demo_context demo_request new_coord_server () =
      Some (grpc_OK, resp, s, ())" and open_txn: "\<not> complete (coord_resp s (global_transaction_id resp))"
    and "map_option (\<lambda>m. map ns_address (cohort_namespaces m))
        (metadata_by_transaction s (global_transaction_id resp)) = Some [''a'', ''b'']" by (rule demo_results)
  then obtain m where m: "metadata_by_transaction s (global_transaction_id resp) = Some m"
    "map ns_address (cohort_namespaces m) = [''a'', ''b'']" by auto
  then have two: "length (cohort_namespaces m) = 2" by (metis length_Cons length_map list.size(3) numeral_2_eq_2)
  note reach = demo_reach [OF s]
  have "txn_inv (demo_answer) m (coord_resp s (global_transaction_id resp))"
    using coord_invD(2) [OF coord_inv_reach [OF reach _ stable_demo], of "global_transaction_id resp"] m
    by (simp add: coord_meta_present)
  then have "current_decision demo_coord (global_transaction_id resp) m () = Some (Inr VOTING_DECISION_COMMIT, ())"
    by (cases "cm_decision m")
       (simp_all add: current_decision_def txn_inv_def meta_ok_def demo_coord_def demo_stub_def bc_GetVotingDecision_def)
  moreover have "all_committed demo_coord (global_transaction_id resp) (cohort_namespaces m)"
    by (simp add: all_committed_def demo_coord_def)
  moreover have "retry_loop.failing (poll_attempt (demo_client demo_coord) (global_transaction_id resp) t) 0 (s, ()) = Some (s, ())" for t
    by (simp add: polling.failing.simps)
  ultimately obtain res s' where run: "GetTransactionResults (demo_client demo_coord) resp (s, ()) = Some (Inr res, s', ())"
    and res: "\<exists>c. res = CoordCommitted c \<and> complete_flag c \<and>
       mset (all_get_responses c) = (\<Sum>ns \<leftarrow> cohort_namespaces m. mset (demo_answer (ns_address ns)))"
    using client_told_when_decided [of "demo_client demo_coord" demo_coord demo_context _ resp s "\<lambda>_. demo_answer" 0 "(s, ())" "()" m
        VOTING_DECISION_COMMIT "()"] reach stable_demo m(1) two open_txn by auto
  have "(\<Sum>ns \<leftarrow> cohort_namespaces m. mset (demo_answer (ns_address ns))) =
      (\<Sum>a \<leftarrow> map ns_address (cohort_namespaces m). mset (demo_answer a))" by (simp add: comp_def)
  with s run res m(2) show ?thesis by auto
qed

text \<open>C39: A client may be told nothing: when its first poll comes after the decision to commit and before any cohort
  has reported a commit, the coordinator succeeds with a response whose status is not set at all, and the client
  takes it for the final one and stops polling, though the coordinator has not completed the transaction.\<close>

theorem client_takes_empty_answer:
  assumes "client_stub C = served_by CE context"
    and "client_sleep_until C (time_of_timestamp (config_time (cresp_config resp))) v = (s, w)"
    and "tid = global_transaction_id resp"
    and "metadata_by_transaction s tid = Some m" and "single_cohort_namespace m = None" and "cohort_namespaces m \<noteq> []"
    and "cohorts_already_responded m = []" and "response_by_transaction s tid = None"
    and "none_committed CE tid" and "\<not> definite (cm_decision m)"
    and "bc_GetVotingDecision (coord_blockchain CE) tid w = Some (Inr VOTING_DECISION_COMMIT, w1)"
  shows "\<exists>s' w'. GetTransactionResults C resp v = Some (Inr CoordStatusNotSet, s', w') \<and>
    \<not> complete (coord_resp s' tid)"
proof -
  from Get_without_status [OF assms(4-11)] obtain s' w' where
    "coord_GetTransactionResult CE context tid s w = Some (grpc_OK, CoordStatusNotSet, s', w')"
    "\<not> complete (coord_resp s' tid)" by blast
  then show ?thesis using GetTransactionResults_first [OF assms(2)] assms(1,3) by simp
qed

theorem client_takes_empty_answer_witness:
  "\<exists>s'. GetTransactionResults (demo_client demo_silent)
      \<lparr>global_transaction_id = ''t'', cresp_config = \<lparr>config_abort_time = None\<rparr>\<rparr> (demo_state, ()) =
    Some (Inr CoordStatusNotSet, s', ())"
proof -
  let ?resp = "\<lparr>global_transaction_id = ''t'', cresp_config = \<lparr>config_abort_time = None\<rparr>\<rparr>"
  have "\<exists>s' w'. GetTransactionResults (demo_client demo_silent) ?resp (demo_state, ()) =
      Some (Inr CoordStatusNotSet, s', w') \<and> \<not> complete (coord_resp s' ''t'')"
    by (rule client_takes_empty_answer [where s = demo_state and w = "()"])
       (auto simp: demo_state_def demo_silent_def demo_coord_def demo_stub_def none_committed_def
          fresh_coord_metadata_def bc_GetVotingDecision_def)
  then show ?thesis by auto
qed

subsection \<open>The requests of a file\<close>

text \<open>C30: The requests of a file are what the file asks for: one request for each transaction, the initial ones first and
  then those of the cycle as often as the file says, with the time before the abort and the kind of the
  transaction, an identifier computed from the request, and for each operation, as often as it is
  repeated, one with the given address, key and value, or a random one: an address of the ten, a key of three
  lower-case letters or one that an earlier operation put at that address, a value from -10 to 39.\<close>

theorem requests_follow_file:
  assumes "CreateRunInfoFromFile E filename w = Some (Inr ri, w')" and "perm_order (iter_put_keys E)"
  shows "\<exists>ts. parse_file E filename = Some ts \<and>
    file_built E Map.empty (initial_transaction ts @ concat (replicate (nat (cycle_length ts)) (cycle_transaction ts)))
      (run_requests ri)"
proof -
  let ?ri = "\<lparr>cohort_addresses = [], run_requests = []\<rparr>"
  from assms(1) obtain ts x where ts: "parse_file E filename = Some ts" and
    "add_transactions E (initial_transaction ts @ concat (replicate (nat (cycle_length ts)) (cycle_transaction ts)))
       (?ri, Map.empty) w = Some (x, w')" and "ri = fst x"
    by (auto simp: CreateRunInfoFromFile_def Let_def add_transactions_append split: option.splits elim!: bind_elims)
  then have "add_transactions E (initial_transaction ts @ concat (replicate (nat (cycle_length ts)) (cycle_transaction ts)))
       (?ri, Map.empty) w = Some ((ri, snd x), w')" by simp
  from add_transactions_built [OF this assms(2)] ts show ?thesis by auto
qed

text \<open>A file with a put of random key and value, and a cycle of one get of a random put key, run twice.\<close>

definition demo_program :: "simple_transactions \<Rightarrow> nat program_env" where
  "demo_program ts = \<lparr>rand = (\<lambda>w. (w, w + 7)), iter_put_keys = rev, SerializeAsString = (\<lambda>_. ''s''), CEscape = (\<lambda>s. s),
     parse_file = (\<lambda>_. Some ts),
     client_lib = \<lparr>client_stub = \<lparr>cs_CommitAtomicTransaction = (\<lambda>_ _. None), cs_GetTransactionResult = (\<lambda>_ _. None)\<rparr>,
       client_now = (\<lambda>_. 0), client_sleep_until = (\<lambda>_ w. w), client_sleep_for = (\<lambda>_ w. w)\<rparr>\<rparr>"

definition demo_file :: simple_transactions where
  "demo_file = \<lparr>
     initial_transaction = [\<lparr>time_before_abort = None, st_op = [\<lparr>co_type = OP_TYPE_PUT, address_type = kAddress ''a'',
       key_type = kRandomKey True, value_type = kRandomValue True, repeat_count = 2\<rparr>], st_async = True\<rparr>],
     cycle_transaction = [\<lparr>time_before_abort = None, st_op = [\<lparr>co_type = OP_TYPE_GET, address_type = kAddress ''a'',
       key_type = kRandomPutKey True, value_type = ValueTypeNotSet, repeat_count = 0\<rparr>], st_async = False\<rparr>],
     cycle_length = 2\<rparr>"

lemma demo_file_runs:
  "case CreateRunInfoFromFile (demo_program demo_file) ''f'' 0 of
     Some (Inr ri, w') \<Rightarrow> map (\<lambda>(r, async). (map op_type (creq_transaction r), async)) (run_requests ri) =
       [([PutOp \<lparr>put_key = ''aho'', put_val = Constant (ConstantValue (Some 11))\<rparr>,
          PutOp \<lparr>put_key = ''cjq'', put_val = Constant (ConstantValue (Some 39))\<rparr>], True),
        ([GetOp \<lparr>get_key = ''cjq''\<rparr>], False), ([GetOp \<lparr>get_key = ''aho''\<rparr>], False)]
   | _ \<Rightarrow> False"
  by code_simp

theorem requests_follow_file_witness:
  "\<exists>ri w'. CreateRunInfoFromFile (demo_program demo_file) ''f'' 0 = Some (Inr ri, w') \<and>
    length (run_requests ri) = 3 \<and>
    file_built (demo_program demo_file) Map.empty (initial_transaction demo_file @ cycle_transaction demo_file @ cycle_transaction demo_file)
      (run_requests ri)"
proof -
  obtain ri w' where run: "CreateRunInfoFromFile (demo_program demo_file) ''f'' 0 = Some (Inr ri, w')"
    and "length (run_requests ri) = 3"
    using demo_file_runs by (auto split: option.splits sum.splits simp: map_eq_Cons_conv)
  moreover have "perm_order (iter_put_keys (demo_program demo_file))" by (simp add: demo_program_def)
  from requests_follow_file [OF run this] obtain ts where "parse_file (demo_program demo_file) ''f'' = Some ts" and
    "file_built (demo_program demo_file) Map.empty
       (initial_transaction ts @ concat (replicate (nat (cycle_length ts)) (cycle_transaction ts))) (run_requests ri)" by blast
  moreover from this(1) have "ts = demo_file" by (simp add: demo_program_def)
  ultimately show ?thesis by (auto simp: demo_file_def numeral_2_eq_2)
qed




subsection \<open>Sending them\<close>





end
