(* ===== verification/Programs.thy ===== *)
theory Programs
  imports Coordinator_Model Cohort_Model Lmdb_Adapter Client_Program Complex_Main
begin

text \<open>
  The programs: \<open>main\<close> and \<open>RunServer\<close> of \<open>src/coordinator/coordinator_server_main.cc\<close> and
  \<open>src/cohort/cohort_server_main.cc\<close>, and \<open>main\<close> of \<open>src/client/client_main.cc\<close>. A program either exits
  with a code, or goes on with what it has constructed: a server that gRPC serves on an address, or a client
  that sends its requests. Reading the command line into flags, channels, directories and the
  parser of durations belong to libraries.
\<close>

datatype 'x outcome = Exits int | Runs 'x

abbreviation (input) EXIT_FAILURE :: int where "EXIT_FAILURE \<equiv> 1"

text \<open>The library calls of the programs; \<open>adapter_over\<close> is the stub \<open>TwoPhaseCommitAdapter::NewStub\<close> of a channel.\<close>

record ('ch, 'w) program_lib =
  CreateChannel :: "string \<Rightarrow> 'ch"
  adapter_over :: "'ch \<Rightarrow> 'w adapter_stub"
  sleep_one_second :: "'w \<Rightarrow> 'w"
  parse_duration :: "string \<Rightarrow> duration option"
  create_directories :: "string \<Rightarrow> 'w \<Rightarrow> 'w option"
  hardware_concurrency :: nat

text \<open>\<open>std::make_unique<blockchain::TwoPhaseCommit>(CreateChannel(address, ...))\<close>: waits until the adapter server answers.\<close>

definition connect_blockchain ::
  "('ch, 'w) program_lib \<Rightarrow> string \<Rightarrow> 'w \<Rightarrow> ('w adapter_stub \<times> 'w) option" where
  "connect_blockchain P address w =
     (let stub = adapter_over P (CreateChannel P address) in do {
        (failures, messages, w) \<leftarrow> wait_for_adapter stub (sleep_one_second P) 0 0 w;
        Some (stub, w)
      })"

record ('env, 'srv) server =
  server_address :: string
  service_env :: 'env
  service :: 'srv

subsection \<open>The coordinator\<close>

record coordinator_flags =
  cf_port :: string
  cf_blockchain_adapter_port :: string
  cf_default_presumed_abort_duration :: string

definition coordinator_default_flags :: coordinator_flags where
  "coordinator_default_flags = \<lparr>cf_port = ''50052'', cf_blockchain_adapter_port = ''50552'',
     cf_default_presumed_abort_duration = ''1m''\<rparr>"

text \<open>\<open>E\<close> holds the libraries that the service itself calls; its clock and its channels are not of \<open>RunServer\<close>.\<close>

definition coordinator_RunServer ::
  "('ch, 'w) program_lib \<Rightarrow> ('c, 'stub, 'w) coord_env \<Rightarrow> string \<Rightarrow> string \<Rightarrow> duration \<Rightarrow> 'w \<Rightarrow>
   ((('c, 'stub, 'w) coord_env, 'stub coord_server) server \<times> 'w) option" where
  "coordinator_RunServer P E port blockchain_adapter_port default_duration w =
     (let address = StrCat ''0.0.0.0:'' port;
          blockchain_adapter_address = StrCat ''0.0.0.0:'' blockchain_adapter_port
      in do {
        (stub, w) \<leftarrow> connect_blockchain P blockchain_adapter_address w;
        Some (\<lparr>server_address = address,
               service_env = E\<lparr>coord_blockchain := stub, default_presumed_abort_duration := default_duration\<rparr>,
               service = new_coord_server\<rparr>, w)
      })"

definition coordinator_main ::
  "('ch, 'w) program_lib \<Rightarrow> ('c, 'stub, 'w) coord_env \<Rightarrow> coordinator_flags \<Rightarrow> 'w \<Rightarrow>
   ((('c, 'stub, 'w) coord_env, 'stub coord_server) server outcome \<times> 'w) option" where
  "coordinator_main P E flags w =
     (case parse_duration P (cf_default_presumed_abort_duration flags) of
        Some default_duration \<Rightarrow> do {
          (srv, w) \<leftarrow> coordinator_RunServer P E (cf_port flags) (cf_blockchain_adapter_port flags) default_duration w;
          Some (Runs srv, w)
        }
      | None \<Rightarrow> Some (Exits 1, w))"

subsection \<open>A cohort\<close>

record cohort_flags =
  hf_port :: string
  hf_blockchain_adapter_port :: string
  db_thread_ratio :: rat
  hf_db_data_dir :: string
  hf_db_txn_response_dir :: string

definition cohort_default_flags :: cohort_flags where
  "cohort_default_flags = \<lparr>hf_port = ''50051'', hf_blockchain_adapter_port = ''50551'', db_thread_ratio = 3 / 4,
     hf_db_data_dir = ''/tmp/data'', hf_db_txn_response_dir = ''/tmp/txn_responses''\<rparr>"

text \<open>
  \<open>uint(ratio * n)\<close>: the conversion truncates, and is undefined outside the range of \<open>uint\<close>. The product of
  two doubles is taken to be exact, as it is for the default ratio.
\<close>

definition db_threads :: "rat \<Rightarrow> nat \<Rightarrow> nat option" where
  "db_threads ratio n = (let x = ratio * of_nat n in
     if - 1 < x \<and> x < 2 ^ 32 then Some (nat \<lfloor>x\<rfloor>) else None)"

text \<open>
  The server constructs its service with the creator of LMDB adapters. The number of threads goes to the
  thread pool, the rest to the service.
\<close>

definition cohort_RunServer ::
  "('ch, 'w) program_lib \<Rightarrow> ('env, 'txn, 'dbi, 'w) lmdb_lib \<Rightarrow> (('env, 'txn, 'dbi) lmdb_adapter, 'w) cohort_env \<Rightarrow>
   string \<Rightarrow> string \<Rightarrow> nat \<Rightarrow> string \<Rightarrow> string \<Rightarrow> 'w \<Rightarrow>
   ((nat \<times> (('env, 'txn, 'dbi) lmdb_adapter, 'w) cohort_env, ('env, 'txn, 'dbi) lmdb_adapter cohort_server) server \<times> 'w) option" where
  "cohort_RunServer P lib E port blockchain_adapter_port num_db_threads data_dir response_dir w = do {
     w \<leftarrow> create_directories P data_dir w;
     w \<leftarrow> create_directories P response_dir w;
     (let address = StrCat ''0.0.0.0:'' port;
          blockchain_adapter_address = StrCat ''0.0.0.0:'' blockchain_adapter_port
      in do {
        (stub, w) \<leftarrow> connect_blockchain P blockchain_adapter_address w;
        Some (\<lparr>server_address = address,
               service_env = (num_db_threads, E\<lparr>db_txn_response_dir := response_dir, db_ops := lmdb_db lib,
                 db_transaction_adapter_creator := lmdb_create lib data_dir, blockchain_stub := stub\<rparr>),
               service = new_cohort_server\<rparr>, w)
      })
   }"

definition cohort_main ::
  "('ch, 'w) program_lib \<Rightarrow> ('env, 'txn, 'dbi, 'w) lmdb_lib \<Rightarrow> (('env, 'txn, 'dbi) lmdb_adapter, 'w) cohort_env \<Rightarrow>
   cohort_flags \<Rightarrow> 'w \<Rightarrow>
   ((nat \<times> (('env, 'txn, 'dbi) lmdb_adapter, 'w) cohort_env, ('env, 'txn, 'dbi) lmdb_adapter cohort_server) server outcome \<times> 'w) option" where
  "cohort_main P lib E flags w = do {
     num_db_threads \<leftarrow> db_threads (db_thread_ratio flags) (hardware_concurrency P);
     (srv, w) \<leftarrow> cohort_RunServer P lib E (hf_port flags) (hf_blockchain_adapter_port flags) num_db_threads
       (hf_db_data_dir flags) (hf_db_txn_response_dir flags) w;
     Some (Runs srv, w)
   }"

subsection \<open>The client\<close>

text \<open>\<open>main\<close> does not parse the command line: its flags have their default values.\<close>

definition FLAGS_coordinator_port :: string where
  "FLAGS_coordinator_port = ''58000''"

definition FLAGS_request_file_prefix :: string where
  "FLAGS_request_file_prefix = ''two_namespaces_simple''"

text \<open>\<open>client_over\<close> gives the library calls of a \<open>client::Client\<close> on the channel to an address.\<close>

definition client_main ::
  "'w program_env \<Rightarrow> (string \<Rightarrow> 'w client_env) \<Rightarrow> 'w \<Rightarrow> ('w sending outcome \<times> 'w) option" where
  "client_main E client_over w = do {
     (run_info, w) \<leftarrow> CreateRunInfoFromFile E
       (StrCat (StrCat ''src/client/requests/'' FLAGS_request_file_prefix) ''.textproto'') w;
     (case run_info of
        Inl status \<Rightarrow> Some (Exits EXIT_FAILURE, w)
      | Inr info \<Rightarrow> do {
          x \<leftarrow> start_sending (client_over (StrCat ''0.0.0.0:'' FLAGS_coordinator_port)) (run_requests info) w;
          Some (Runs x, send_world x)
        })
   }"

text \<open>\<open>LogResponseOrStatus\<close>: the line that it logs. \<open>DebugString\<close> is the one of protobuf.\<close>

fun decimal :: "nat \<Rightarrow> string" where
  "decimal n = (if n < 10 then [char_of (48 + n)] else decimal (n div 10) @ [char_of (48 + n mod 10)])"

definition show_int :: "int \<Rightarrow> string" where
  "show_int i = (if i < 0 then CHR ''-'' # decimal (nat (- i)) else decimal (nat i))"

definition LogResponseOrStatus :: "(coord_result \<Rightarrow> string) \<Rightarrow> response_or_status \<Rightarrow> string" where
  "LogResponseOrStatus DebugString r = (case r of
     Inl status \<Rightarrow> show_int (error_code status) @ '' '' @ error_message status
   | Inr response \<Rightarrow> DebugString response)"

subsection \<open>When the servers are up\<close>

lemma connect_blockchain_iff:
  "connect_blockchain P address w = Some (stub, w') \<longleftrightarrow> stub = adapter_over P (CreateChannel P address) \<and>
     (\<exists>k. heartbeat_after stub (sleep_one_second P) k w = Some w')"
  using wait_for_adapter_returns_iff [of "adapter_over P (CreateChannel P address)" "sleep_one_second P" 0 0 w _ w']
  by (auto simp: connect_blockchain_def Let_def elim!: bind_elims) (force split: option.splits)+

text \<open>
  The coordinator serves if and only if its duration can be parsed and the adapter server answers a heartbeat in
  the end, and it serves with exactly these; it exits if and only if the duration cannot be parsed.
\<close>

lemma coordinator_main_runs_iff:
  "coordinator_main P E flags w = Some (Runs srv, w') \<longleftrightarrow>
     (\<exists>d k. parse_duration P (cf_default_presumed_abort_duration flags) = Some d \<and>
        heartbeat_after (coord_blockchain (service_env srv)) (sleep_one_second P) k w = Some w' \<and>
        srv = \<lparr>server_address = ''0.0.0.0:'' @ cf_port flags,
          service_env = E\<lparr>coord_blockchain := adapter_over P (CreateChannel P (''0.0.0.0:'' @ cf_blockchain_adapter_port flags)),
            default_presumed_abort_duration := d\<rparr>,
          service = new_coord_server\<rparr>)"
  by (cases "parse_duration P (cf_default_presumed_abort_duration flags)")
     (auto simp: coordinator_main_def coordinator_RunServer_def Let_def connect_blockchain_iff bind_eq_Some_conv)

lemma coordinator_main_exits_iff:
  "(\<exists>c w'. coordinator_main P E flags w = Some (Exits c, w')) \<longleftrightarrow>
   parse_duration P (cf_default_presumed_abort_duration flags) = None"
  by (cases "parse_duration P (cf_default_presumed_abort_duration flags)") (auto simp: coordinator_main_def bind_eq_Some_conv)

text \<open>A cohort serves if and only if its directories exist or can be made and the adapter server answers in the end.\<close>

lemma cohort_main_runs_iff:
  "cohort_main P lib E flags w = Some (out, w') \<longleftrightarrow>
     (\<exists>n w1 w2 k stub. db_threads (db_thread_ratio flags) (hardware_concurrency P) = Some n \<and>
        create_directories P (hf_db_data_dir flags) w = Some w1 \<and>
        create_directories P (hf_db_txn_response_dir flags) w1 = Some w2 \<and>
        stub = adapter_over P (CreateChannel P (''0.0.0.0:'' @ hf_blockchain_adapter_port flags)) \<and>
        heartbeat_after stub (sleep_one_second P) k w2 = Some w' \<and>
        out = Runs \<lparr>server_address = ''0.0.0.0:'' @ hf_port flags,
          service_env = (n, E\<lparr>db_txn_response_dir := hf_db_txn_response_dir flags, db_ops := lmdb_db lib,
            db_transaction_adapter_creator := lmdb_create lib (hf_db_data_dir flags), blockchain_stub := stub\<rparr>),
          service = new_cohort_server\<rparr>)"
  by (auto simp: cohort_main_def cohort_RunServer_def Let_def connect_blockchain_iff bind_eq_Some_conv)

text \<open>By default three quarters of the hardware threads work on the database: none of them on a machine with one.\<close>

lemma default_db_threads:
  assumes "n < 2 ^ 32"
  shows "db_threads (db_thread_ratio cohort_default_flags) n = Some (3 * n div 4)"
proof -
  have "(3 / 4 * of_nat n :: rat) = of_int (3 * int n) / of_int 4" by simp
  then have "\<lfloor>3 / 4 * of_nat n :: rat\<rfloor> = 3 * int n div 4" by (simp only: floor_divide_of_int_eq)
  moreover have "(3 / 4 * of_nat n :: rat) < 2 ^ 32"
  proof -
    have "(of_nat n :: rat) < of_nat (2 ^ 32)" using assms by (simp only: of_nat_less_iff)
    then show ?thesis by simp
  qed
  moreover have "(- 1 :: rat) < 3 / 4 * of_nat n" by (rule less_le_trans [of _ 0]) simp_all
  moreover have "nat (3 * int n div 4) = 3 * n div 4" by (simp add: nat_div_distrib nat_mult_distrib)
  ultimately show ?thesis unfolding db_threads_def cohort_default_flags_def Let_def cohort_flags.select_convs by simp
qed

text \<open>The client exits when its file cannot be parsed, and otherwise sends the requests of the file once the coordinator answers.\<close>

lemma client_main_outcome:
  "client_main E client_over w = Some (out, w') \<longleftrightarrow>
     (\<exists>info w1. CreateRunInfoFromFile E ''src/client/requests/two_namespaces_simple.textproto'' w = Some (info, w1) \<and>
        (case info of
           Inl st \<Rightarrow> out = Exits 1 \<and> w' = w1
         | Inr i \<Rightarrow> WaitForCoordinator (client_over ''0.0.0.0:58000'') w1 = Some w' \<and>
             out = Runs \<lparr>todo = run_requests i, futures = [], collected_futures = 0, logged = [], send_world = w'\<rparr>))"
proof (cases "CreateRunInfoFromFile E ''src/client/requests/two_namespaces_simple.textproto'' w")
  case None
  then show ?thesis by (simp add: client_main_def FLAGS_request_file_prefix_def)
next
  case (Some r)
  obtain info w1 where r: "r = (info, w1)" by (rule prod.exhaust)
  from Some r show ?thesis
    by (cases info) (auto simp: client_main_def FLAGS_request_file_prefix_def FLAGS_coordinator_port_def start_sending_def
        bind_eq_Some_conv)
qed

end
