(* ===== verification/Lmdb_Example.thy ===== *)
theory Lmdb_Example
  imports Lmdb_Adapter "HOL-Library.List_Lexorder" "HOL-Library.Char_ord"
begin

text \<open>
  \<open>src/db/lmdb_raw_lib_example_main.cc\<close>: a program that puts three pairs of strings in a write transaction of
  LMDB, reads one back inside the transaction and once more after the commit, and prints all pairs with a
  cursor. The library of \<^theory_text>\<open>Lmdb_Adapter\<close> is extended with the calls on cursors. \<open>printf\<close> is the list of
  the strings printed.
\<close>

record ('env, 'txn, 'dbi, 'cur, 'w) lmdb_cursor_lib = "('env, 'txn, 'dbi, 'w) lmdb_lib" +
  lib_cursor_open :: "'txn \<Rightarrow> 'dbi \<Rightarrow> 'w \<Rightarrow> ('cur \<times> 'w) option"
  lib_cursor_next :: "'cur \<Rightarrow> 'w \<Rightarrow> ((string \<times> byte list) option \<times> 'w) option"
  lib_cursor_close :: "'cur \<Rightarrow> 'w \<Rightarrow> 'w"

definition bytes_of_string :: "string \<Rightarrow> byte list" where
  "bytes_of_string s = map (\<lambda>c. of_nat (of_char c)) s"

definition string_of_bytes :: "byte list \<Rightarrow> string" where
  "string_of_bytes bs = map (\<lambda>b. char_of (unat b)) bs"

lemma string_bytes [simp]: "string_of_bytes (bytes_of_string s) = s"
  by (induction s) (simp_all add: string_of_bytes_def bytes_of_string_def unat_of_nat)

text \<open>What \<open>printf("%s", s.c_str())\<close> prints: the string up to its first null character.\<close>

definition c_str :: "string \<Rightarrow> string" where
  "c_str s = takeWhile (\<lambda>c. c \<noteq> CHR 0x00) s"

definition example_put ::
  "('env, 'txn, 'dbi, 'cur, 'w) lmdb_cursor_lib \<Rightarrow> 'dbi \<Rightarrow> 'txn \<Rightarrow> string \<Rightarrow> string \<Rightarrow> 'w \<Rightarrow> (bool \<times> 'w) option" where
  "example_put lib d t key value w = lib_dbi_put lib d t key (bytes_of_string value) w"

text \<open>\<open>get\<close> writes the value to its reference argument when it is found; here the new content is returned.\<close>

definition example_get ::
  "('env, 'txn, 'dbi, 'cur, 'w) lmdb_cursor_lib \<Rightarrow> 'dbi \<Rightarrow> 'txn \<Rightarrow> string \<Rightarrow> string \<Rightarrow> 'w \<Rightarrow> (bool \<times> string) option" where
  "example_get lib d t key value w =
     map_option (\<lambda>found. case found of None \<Rightarrow> (False, value) | Some val \<Rightarrow> (True, string_of_bytes val))
       (lib_dbi_get lib d t key w)"

definition pair_line :: "string \<Rightarrow> string \<Rightarrow> string" where
  "pair_line key value = ''key: '' @ [CHR 0x27] @ c_str key @ [CHR 0x27] @ '', value: '' @ [CHR 0x27] @ c_str value @ [CHR 0x27, CHR 0x0A]"

partial_function (option) print_pairs ::
  "('env, 'txn, 'dbi, 'cur, 'w) lmdb_cursor_lib \<Rightarrow> 'cur \<Rightarrow> string list \<Rightarrow> 'w \<Rightarrow> (string list \<times> 'w) option" where
  "print_pairs lib cursor out w = do {
     (found, w) \<leftarrow> lib_cursor_next lib cursor w;
     (case found of
        None \<Rightarrow> Some (out, w)
      | Some (key, value) \<Rightarrow> print_pairs lib cursor (out @ [pair_line key (string_of_bytes value)]) w)
   }"

definition quoted_line :: "string \<Rightarrow> string \<Rightarrow> string" where
  "quoted_line label value = label @ [CHR 0x27] @ c_str value @ [CHR 0x27, CHR 0x20, CHR 0x0A]"

definition title_line :: string where
  "title_line = [CHR 0x0A] @ ''===================='' @ ''Program Starts'' @ ''===================='' @ [CHR 0x0A]"

definition example_main ::
  "('env, 'txn, 'dbi, 'cur, 'w) lmdb_cursor_lib \<Rightarrow> string \<Rightarrow> 'w \<Rightarrow> (string list \<times> int \<times> 'w) option" where
  "example_main lib db_dir w = do {
     (e, w) \<leftarrow> lib_env_create lib w;
     w \<leftarrow> lib_set_mapsize lib e (1 * 1024 * 1024 * 1024) w;
     w \<leftarrow> lib_env_open lib e db_dir 0 kFileOpenMode w;
     (wtxn, w) \<leftarrow> lib_txn_begin lib e 0 w;
     (d, w) \<leftarrow> lib_dbi_open lib wtxn w;
     (ignored, w) \<leftarrow> example_put lib d wtxn ''username'' ''jhacker'' w;
     (ignored, w) \<leftarrow> example_put lib d wtxn ''email'' ''jhacker@example.org'' w;
     (ignored, w) \<leftarrow> example_put lib d wtxn ''fullname'' ''J. Random Hacker'' w;
     (ignored, email_val) \<leftarrow> example_get lib d wtxn ''email'' [] w;
     w \<leftarrow> lib_txn_commit lib wtxn w;
     (wtxn_get_only, w) \<leftarrow> lib_txn_begin lib e 0 w;
     (d_get_only, w) \<leftarrow> lib_dbi_open lib wtxn_get_only w;
     (ignored, email_val_get_only) \<leftarrow> example_get lib d_get_only wtxn_get_only ''email'' [] w;
     w \<leftarrow> lib_txn_commit lib wtxn_get_only w;
     (rtxn, w) \<leftarrow> lib_txn_begin lib e MDB_RDONLY w;
     (cursor, w) \<leftarrow> lib_cursor_open lib rtxn d w;
     (pairs, w) \<leftarrow> print_pairs lib cursor [] w;
     w \<leftarrow> lib_txn_abort lib rtxn (lib_cursor_close lib cursor w);
     Some ([title_line, quoted_line ''Get within a txn: '' email_val,
            quoted_line ''Get commited value via a write txn: '' email_val_get_only,
            ''Readonly txn w/ cursor: '' @ [CHR 0x0A]] @ pairs, 0, w)
   }"

subsection \<open>What it prints\<close>

text \<open>The data \<open>m\<close> with the pairs of the program.\<close>

definition example_data :: "raw \<Rightarrow> raw" where
  "example_data m = m(''username'' \<mapsto> bytes_of_string ''jhacker'', ''email'' \<mapsto> bytes_of_string ''jhacker@example.org'',
     ''fullname'' \<mapsto> bytes_of_string ''J. Random Hacker'')"

text \<open>
  What LMDB documents of cursors: a new cursor of a transaction visits the pairs of the transaction's data in
  the order of their keys, and then finds no more. \<open>pending\<close> is what a cursor still has to visit.
\<close>

locale lmdb_cursors =
  lmdb "lmdb_lib.truncate lib" committed view writer_free opened
  for lib :: "('env, 'txn, 'dbi, 'cur, 'w) lmdb_cursor_lib"
    and committed :: "'w \<Rightarrow> raw" and view :: "'txn \<Rightarrow> 'w \<Rightarrow> (bool \<times> raw) option"
    and writer_free :: "'w \<Rightarrow> bool" and opened :: "'env \<Rightarrow> 'w \<Rightarrow> bool" +
  fixes pending :: "'cur \<Rightarrow> 'w \<Rightarrow> (string \<times> byte list) list"
  assumes cursor_open: "view t w = Some (ro, m) \<Longrightarrow> finite (dom m) \<Longrightarrow>
      \<exists>c w'. lib_cursor_open lib t b w = Some (c, w') \<and> view t w' = Some (ro, m) \<and> committed w' = committed w \<and>
        pending c w' = map (\<lambda>k. (k, the (m k))) (sorted_list_of_set (dom m))"
    and cursor_next: "view t w = Some v \<Longrightarrow> pending c w = (k, bs) # rest \<Longrightarrow>
      \<exists>w'. lib_cursor_next lib c w = Some (Some (k, bs), w') \<and> pending c w' = rest \<and> view t w' = Some v \<and>
        committed w' = committed w"
    and cursor_end: "pending c w = [] \<Longrightarrow> lib_cursor_next lib c w = Some (None, w)"
    and cursor_close: "view t w = Some v \<Longrightarrow> view t (lib_cursor_close lib c w) = Some v \<and>
      committed (lib_cursor_close lib c w) = committed w"
begin

lemma print_pairs_returns:
  assumes "view t w = Some v" and "pending c w = ps"
  shows "\<exists>w'. print_pairs lib c out w = Some (out @ map (\<lambda>(k, bs). pair_line k (string_of_bytes bs)) ps, w') \<and>
    view t w' = Some v \<and> committed w' = committed w"
  using assms
proof (induction ps arbitrary: w out)
  case Nil
  then show ?case by (subst print_pairs.simps) (simp add: cursor_end)
next
  case (Cons p ps)
  obtain k bs where p: "p = (k, bs)" by fastforce
  with Cons.prems obtain w1 where w1: "lib_cursor_next lib c w = Some (Some (k, bs), w1)" "pending c w1 = ps"
    "view t w1 = Some v" "committed w1 = committed w" using cursor_next by blast
  from Cons.IH [OF w1(3,2), of "out @ [pair_line k (string_of_bytes bs)]"] obtain w2 where
    "print_pairs lib c (out @ [pair_line k (string_of_bytes bs)]) w1 =
       Some ((out @ [pair_line k (string_of_bytes bs)]) @ map (\<lambda>(k, bs). pair_line k (string_of_bytes bs)) ps, w2)"
    "view t w2 = Some v" "committed w2 = committed w1" by blast
  with w1 p show ?case by (subst print_pairs.simps) simp
qed

lemmas base_laws = begin_rw begin_ro open_dbi get put commit abort

text \<open>
  On a fresh environment with data \<open>m\<close> the program prints the address that it put, twice, and then the data with
  the three new pairs in the order of the keys; this is what it leaves in the database.
\<close>

lemma example_main_prints:
  assumes "lib_env_create lib w = Some (e, w1)" "lib_set_mapsize lib e (1 * 1024 * 1024 * 1024) w1 = Some w2"
    and "lib_env_open lib e dir 0 kFileOpenMode w2 = Some w3"
    and "opened e w3" "writer_free w3" "committed w3 = m" "finite (dom m)"
  shows "\<exists>w'. example_main lib dir w = Some ([title_line,
      quoted_line ''Get within a txn: '' ''jhacker@example.org'',
      quoted_line ''Get commited value via a write txn: '' ''jhacker@example.org'',
      ''Readonly txn w/ cursor: '' @ [CHR 0x0A]] @
      map (\<lambda>k. pair_line k (string_of_bytes (the (example_data m k)))) (sorted_list_of_set (dom (example_data m))), 0, w') \<and>
    committed w' = example_data m"
proof -
  note laws = base_laws [unfolded lmdb_lib.truncate_def lmdb_lib.simps]
  have keys: "valid_key ''username''" "valid_key ''email''" "valid_key ''fullname''" by (simp_all add: valid_key_def)
  obtain t w4 where t: "lib_txn_begin lib e 0 w3 = Some (t, w4)" "view t w4 = Some (False, m)" "committed w4 = m" "opened e w4"
    using laws(1) [OF assms(4,5)] assms(4,6) by auto
  obtain d where d: "lib_dbi_open lib t w4 = Some (d, w4)" using laws(3) [OF t(2)] by blast
  obtain w5 where p1: "lib_dbi_put lib d t ''username'' (bytes_of_string ''jhacker'') w4 = Some (True, w5)"
    "view t w5 = Some (False, m(''username'' \<mapsto> bytes_of_string ''jhacker''))" "committed w5 = m" "opened e w5"
    using laws(5) [OF t(2) keys(1)] t(3,4) by metis
  obtain w6 where p2: "lib_dbi_put lib d t ''email'' (bytes_of_string ''jhacker@example.org'') w5 = Some (True, w6)"
    "view t w6 = Some (False, m(''username'' \<mapsto> bytes_of_string ''jhacker'', ''email'' \<mapsto> bytes_of_string ''jhacker@example.org''))"
    "committed w6 = m" "opened e w6"
    using laws(5) [OF p1(2) keys(2)] p1(3,4) by metis
  obtain w7 where p3: "lib_dbi_put lib d t ''fullname'' (bytes_of_string ''J. Random Hacker'') w6 = Some (True, w7)"
    "view t w7 = Some (False, example_data m)" "committed w7 = m" "opened e w7"
    using laws(5) [OF p2(2) keys(3)] p2(3,4) unfolding example_data_def by metis
  have mail: "example_data m ''email'' = Some (bytes_of_string ''jhacker@example.org'')" by (simp add: example_data_def)
  have g1: "lib_dbi_get lib d t ''email'' w7 = Some (example_data m ''email'')" by (rule laws(4) [OF p3(2) keys(2)])
  obtain w8 where c1: "lib_txn_commit lib t w7 = Some w8" "committed w8 = example_data m" "writer_free w8" "opened e w8"
    using laws(6) [OF p3(2)] p3(4) by auto
  obtain t2 w9 where t2: "lib_txn_begin lib e 0 w8 = Some (t2, w9)" "view t2 w9 = Some (False, example_data m)" "opened e w9"
    using laws(1) [OF c1(4,3)] c1(2,4) by auto
  obtain d2 where d2: "lib_dbi_open lib t2 w9 = Some (d2, w9)" using laws(3) [OF t2(2)] by blast
  have g2: "lib_dbi_get lib d2 t2 ''email'' w9 = Some (example_data m ''email'')" by (rule laws(4) [OF t2(2) keys(2)])
  obtain w10 where c2: "lib_txn_commit lib t2 w9 = Some w10" "committed w10 = example_data m" "opened e w10"
    using laws(6) [OF t2(2)] t2(3) by auto
  obtain t3 w11 where t3: "lib_txn_begin lib e MDB_RDONLY w10 = Some (t3, w11)" "view t3 w11 = Some (True, example_data m)"
    "committed w11 = example_data m"
    using laws(2) [OF c2(3)] c2(2) by auto
  have "finite (dom (example_data m))" using assms(7) by (simp add: example_data_def)
  then obtain c w12 where c: "lib_cursor_open lib t3 d w11 = Some (c, w12)" "view t3 w12 = Some (True, example_data m)"
    "committed w12 = example_data m"
    "pending c w12 = map (\<lambda>k. (k, the (example_data m k))) (sorted_list_of_set (dom (example_data m)))"
    using cursor_open [OF t3(2)] t3(3) by metis
  obtain w13 where s: "print_pairs lib c [] w12 = Some (map (\<lambda>k. pair_line k (string_of_bytes (the (example_data m k))))
      (sorted_list_of_set (dom (example_data m))), w13)" "view t3 w13 = Some (True, example_data m)" "committed w13 = example_data m"
    using print_pairs_returns [OF c(2,4), of "[]"] c(3) by (auto simp: comp_def)
  note closed = cursor_close [OF s(2), of c]
  obtain w14 where a: "lib_txn_abort lib t3 (lib_cursor_close lib c w13) = Some w14" "committed w14 = example_data m"
    using laws(7) [OF conjunct1 [OF closed]] conjunct2 [OF closed] s(3) by auto
  show ?thesis
    using assms(1-3) t(1) d p1(1) p2(1) p3(1) g1 c1(1) t2(1) d2 g2 c2(1) t3(1) c(1) s(1) a
    by (simp add: example_main_def example_put_def example_get_def mail string_bytes)
qed

end

subsection \<open>Cursors over the concrete LMDB\<close>

text \<open>The LMDB of \<^theory_text>\<open>Lmdb_Adapter\<close> with one cursor: the world also holds the pairs that it has still to visit.\<close>

type_synonym mdb_with_cursor = "mdb \<times> (string \<times> byte list) list"

definition mdb_cursor_lib :: "(unit, mdb_txn, unit, unit, mdb_with_cursor) lmdb_cursor_lib" where
  "mdb_cursor_lib = \<lparr>
     lib_env_create = (\<lambda>w. Some ((), w)),
     lib_set_mapsize = (\<lambda>_ _ w. Some w),
     lib_env_open = (\<lambda>_ _ _ _ w. Some w),
     lib_txn_begin = (\<lambda>e flags (w, ps). map_option (\<lambda>(t, w). (t, w, ps)) (mdb_begin e flags w)),
     lib_dbi_open = (\<lambda>_ w. Some ((), w)),
     lib_txn_commit = (\<lambda>t (w, ps). map_option (\<lambda>w. (w, ps)) (mdb_end True t w)),
     lib_txn_abort = (\<lambda>t (w, ps). map_option (\<lambda>w. (w, ps)) (mdb_end False t w)),
     lib_dbi_get = (\<lambda>b t k (w, ps). lib_dbi_get mdb_lib b t k w),
     lib_dbi_put = (\<lambda>b t k bs (w, ps). map_option (\<lambda>(r, w). (r, w, ps)) (lib_dbi_put mdb_lib b t k bs w)),
     lib_cursor_open = (\<lambda>t b (w, ps). map_option (\<lambda>(ro, m). ((), w, map (\<lambda>k. (k, the (m k))) (sorted_list_of_set (dom m))))
       (mdb_view t w)),
     lib_cursor_next = (\<lambda>c (w, ps). case ps of [] \<Rightarrow> Some (None, w, []) | p # ps \<Rightarrow> Some (Some p, w, ps)),
     lib_cursor_close = (\<lambda>c w. w)\<rparr>"

interpretation mdb_cursors: lmdb_cursors mdb_cursor_lib "\<lambda>(w, ps). mdb_data w" "\<lambda>t (w, ps). mdb_view t w"
  "\<lambda>(w, ps). mdb_writer w = None" "\<lambda>_ _. True" "\<lambda>_ (w, ps). ps"
proof unfold_locales
  note laws = mdb.begin_rw mdb.begin_ro mdb.get mdb.put mdb.commit mdb.abort
  note defs = mdb_cursor_lib_def mdb_lib_def lmdb_lib.truncate_def
  fix e :: unit and x :: mdb_with_cursor and t ro m b k bs v c rest
  obtain w ps where x: "x = (w, ps)" by (rule prod.exhaust)
  show "(case x of (w, ps) \<Rightarrow> mdb_writer w = None) \<Longrightarrow> \<exists>t x'. lib_txn_begin (lmdb_lib.truncate mdb_cursor_lib) e 0 x = Some (t, x') \<and>
      (case x' of (w, ps) \<Rightarrow> mdb_view t w) = Some (False, case x of (w, ps) \<Rightarrow> mdb_data w) \<and>
      (case x' of (w, ps) \<Rightarrow> mdb_data w) = (case x of (w, ps) \<Rightarrow> mdb_data w) \<and> (\<forall>e'. True \<longrightarrow> True)"
    by (auto simp: x defs mdb_begin_def)
  show "\<exists>t x'. lib_txn_begin (lmdb_lib.truncate mdb_cursor_lib) e MDB_RDONLY x = Some (t, x') \<and>
      (case x' of (w, ps) \<Rightarrow> mdb_view t w) = Some (True, case x of (w, ps) \<Rightarrow> mdb_data w) \<and>
      (case x' of (w, ps) \<Rightarrow> mdb_data w) = (case x of (w, ps) \<Rightarrow> mdb_data w) \<and>
      (case x' of (w, ps) \<Rightarrow> mdb_writer w = None) = (case x of (w, ps) \<Rightarrow> mdb_writer w = None) \<and> (\<forall>e'. True \<longrightarrow> True)"
    by (auto simp: x defs mdb_begin_def)
  show "\<exists>b. lib_dbi_open (lmdb_lib.truncate mdb_cursor_lib) t x = Some (b, x)" by (simp add: defs)
  show "(case x of (w, ps) \<Rightarrow> mdb_view t w) = Some (ro, m) \<Longrightarrow> valid_key k \<Longrightarrow>
      lib_dbi_get (lmdb_lib.truncate mdb_cursor_lib) b t k x = Some (m k)"
    by (auto simp: x defs valid_key_def)
  show "(case x of (w, ps) \<Rightarrow> mdb_view t w) = Some (False, m) \<Longrightarrow> valid_key k \<Longrightarrow>
      \<exists>x'. lib_dbi_put (lmdb_lib.truncate mdb_cursor_lib) b t k bs x = Some (True, x') \<and>
        (case x' of (w, ps) \<Rightarrow> mdb_view t w) = Some (False, m(k \<mapsto> bs)) \<and>
        (case x' of (w, ps) \<Rightarrow> mdb_data w) = (case x of (w, ps) \<Rightarrow> mdb_data w) \<and> (\<forall>e. True \<longrightarrow> True)"
    by (cases t) (auto simp: x defs)
  show "(case x of (w, ps) \<Rightarrow> mdb_view t w) = Some (ro, m) \<Longrightarrow>
      \<exists>x'. lib_txn_commit (lmdb_lib.truncate mdb_cursor_lib) t x = Some x' \<and>
        (case x' of (w, ps) \<Rightarrow> mdb_data w) = (if ro then case x of (w, ps) \<Rightarrow> mdb_data w else m) \<and>
        ((case x of (w, ps) \<Rightarrow> mdb_writer w = None) \<or> \<not> ro \<longrightarrow> (case x' of (w, ps) \<Rightarrow> mdb_writer w = None)) \<and> (\<forall>e. True \<longrightarrow> True)"
    by (cases t) (auto simp: x defs)
  show "(case x of (w, ps) \<Rightarrow> mdb_view t w) = Some (ro, m) \<Longrightarrow>
      \<exists>x'. lib_txn_abort (lmdb_lib.truncate mdb_cursor_lib) t x = Some x' \<and>
        (case x' of (w, ps) \<Rightarrow> mdb_data w) = (case x of (w, ps) \<Rightarrow> mdb_data w) \<and>
        ((case x of (w, ps) \<Rightarrow> mdb_writer w = None) \<or> \<not> ro \<longrightarrow> (case x' of (w, ps) \<Rightarrow> mdb_writer w = None)) \<and> (\<forall>e. True \<longrightarrow> True)"
    by (cases t) (auto simp: x defs)
  show "(case x of (w, ps) \<Rightarrow> mdb_view t w) = Some (ro, m) \<Longrightarrow> finite (dom m) \<Longrightarrow>
      \<exists>c x'. lib_cursor_open mdb_cursor_lib t b x = Some (c, x') \<and> (case x' of (w, ps) \<Rightarrow> mdb_view t w) = Some (ro, m) \<and>
        (case x' of (w, ps) \<Rightarrow> mdb_data w) = (case x of (w, ps) \<Rightarrow> mdb_data w) \<and>
        (case x' of (w, ps) \<Rightarrow> ps) = map (\<lambda>k. (k, the (m k))) (sorted_list_of_set (dom m))"
    by (auto simp: x defs)
  show "(case x of (w, ps) \<Rightarrow> mdb_view t w) = Some v \<Longrightarrow> (case x of (w, ps) \<Rightarrow> ps) = (k, bs) # rest \<Longrightarrow>
      \<exists>x'. lib_cursor_next mdb_cursor_lib c x = Some (Some (k, bs), x') \<and> (case x' of (w, ps) \<Rightarrow> ps) = rest \<and>
        (case x' of (w, ps) \<Rightarrow> mdb_view t w) = Some v \<and> (case x' of (w, ps) \<Rightarrow> mdb_data w) = (case x of (w, ps) \<Rightarrow> mdb_data w)"
    by (auto simp: x defs)
  show "(case x of (w, ps) \<Rightarrow> ps) = [] \<Longrightarrow> lib_cursor_next mdb_cursor_lib c x = Some (None, x)"
    by (auto simp: x defs)
  show "(case x of (w, ps) \<Rightarrow> mdb_view t w) = Some v \<Longrightarrow>
      (case lib_cursor_close mdb_cursor_lib c x of (w, ps) \<Rightarrow> mdb_view t w) = Some v \<and>
      (case lib_cursor_close mdb_cursor_lib c x of (w, ps) \<Rightarrow> mdb_data w) = (case x of (w, ps) \<Rightarrow> mdb_data w)"
    by (auto simp: x defs)
qed

text \<open>On an empty database: the output that the comment of the file gives, but for the address it gives first.\<close>

lemma example_on_empty_database:
  "\<exists>w'. example_main mdb_cursor_lib ''/tmp/lmdb'' (mdb_empty, []) = Some ([title_line,
      quoted_line ''Get within a txn: '' ''jhacker@example.org'',
      quoted_line ''Get commited value via a write txn: '' ''jhacker@example.org'',
      ''Readonly txn w/ cursor: '' @ [CHR 0x0A],
      pair_line ''email'' ''jhacker@example.org'', pair_line ''fullname'' ''J. Random Hacker'',
      pair_line ''username'' ''jhacker''], 0, w')"
proof -
  have "sorted_list_of_set {''fullname'', ''email'', ''username''} = [''email'', ''fullname'', ''username'']"
    by (simp add: sorted_list_of_set_insert insort_key.simps)
  moreover have "dom (example_data Map.empty) = {''fullname'', ''email'', ''username''}"
    by (simp add: example_data_def)
  ultimately have pairs: "map (\<lambda>k. pair_line k (string_of_bytes (the (example_data Map.empty k))))
      (sorted_list_of_set (dom (example_data Map.empty))) =
    [pair_line ''email'' ''jhacker@example.org'', pair_line ''fullname'' ''J. Random Hacker'', pair_line ''username'' ''jhacker'']"
    by (simp add: example_data_def)
  have calls: "lib_env_create mdb_cursor_lib w = Some ((), w)" "lib_set_mapsize mdb_cursor_lib e n w = Some w"
    "lib_env_open mdb_cursor_lib e dir flags mode w = Some w" for w e n dir flags mode
    by (simp_all add: mdb_cursor_lib_def)
  have empty: "case (mdb_empty, []) of (w, ps) \<Rightarrow> mdb_writer w = None"
    "(case (mdb_empty, []) of (w, ps) \<Rightarrow> mdb_data w) = Map.empty" by (simp_all add: mdb_empty_def)
  from mdb_cursors.example_main_prints [OF calls(1,2) calls(3) [where dir = "''/tmp/lmdb''"] TrueI empty] show ?thesis unfolding pairs by auto
qed

end
