(* ===== verification/Spec2Isabelle.thy ===== *)
theory Spec2Isabelle
  imports Protocol_Properties Cohort_Properties Thread_Properties Chain_Properties Lmdb_Properties Client_Properties
    Programs Lmdb_Example
begin

text \<open>
  A verification development for an atomic commit protocol over a blockchain.

  \<^bold>\<open>The program.\<close> A client sends a transaction, a list of gets and puts on keys of several databases, to a
  coordinator. The coordinator splits it by the address of the database, opens a vote in a smart
  contract for as many voters as there are parts, and sends each part to the cohort server of its database. A cohort
  runs its part in a database transaction under locks, saves what it needs to recover, votes, and asks
  the contract for the decision until there is one; then it commits or aborts. The contract decides to commit when
  all voted so, and to abort when one voted so or the deadline passed. The coordinator reads the
  decision too and collects the cohorts' answers when the client asks for the result. The C++ servers
  reach the contract through a client class and a small server in JavaScript. A transaction of one part
  only involves no vote.

  \<^bold>\<open>Theories and code.\<close> Paths are those of the repository.

    \<^item> \<open>Prelude\<close>: calls that may not return as options, hash containers with an arbitrary order.
      \<open>Retry_Loop\<close>: the locale of loops that try until they succeed, interpreted for all five of the program.
      \<open>Abs_Time\<close>: the part of \<open>absl/time\<close> in use. \<open>Status_Utils\<close>: \<open>src/utils/status_utils\<close>.
    \<^item> \<open>Messages\<close>: \<open>src/proto\<close> and \<open>src/blockchain/proto\<close>, with the accessors' defaults.
    \<^item> \<open>Vote_Contract\<close>: \<open>src/blockchain/contracts/TwoPhaseCommit.sol\<close>, its ballots in base 3 in a 256-bit word.
      \<open>Chain_Adapter\<close>: the handlers of \<open>src/blockchain/client\<close> in JavaScript. \<open>Blockchain_Client\<close>:
      \<open>src/blockchain/two_phase_commit\<close>, and \<open>js_stub\<close>, a channel to the JavaScript server that
      delivers. \<open>Chain_Runs\<close>: any sequence of calls and blocks, the abstract board of ballots
      that the contract refines, and the locale \<open>voting_service\<close> of what a user of the vote may rely on.
    \<^item> \<open>Db_Adapter\<close>: the interface \<open>src/db/database_transaction_adapter.h\<close> and its contract, the
      locale \<open>db_contract\<close>. \<open>Lmdb_Adapter\<close>: \<open>src/db/lmdb_database_transaction_adapter\<close> over the LMDB
      library, whose documented behaviour is the locale \<open>lmdb\<close>; a sublocale shows that the adapter keeps the
      contract, and \<open>mdb_lib\<close> is a small LMDB that keeps the assumptions.
    \<^item> \<open>Cohort_Model\<close>: \<open>src/cohort/cohort_server\<close>. \<open>Cohort_Locking\<close>: which locks it takes. \<open>Cohort_Loops\<close>: its
      loops. \<open>Cohort_Trace\<close>: the order of everything one run of \<open>ProcessTransaction\<close> does to
      the outside, for every environment. \<open>Cohort_Db\<close>: its effect on a database that keeps the contract, against an
      interpreter of the operations (locale \<open>cohort_db\<close>). \<open>Cohort_Lmdb\<close>: the two together.
      \<open>Cohort_State\<close>: the state between transactions. \<open>Cohort_Locked_Run\<close>: the exact order of locks, work and
      unlocks of a run. \<open>Cohort_Threads\<close>: the threads of a cohort interleaved, with the semantics of \<open>absl::Mutex\<close>.
      \<open>Cohort_Demo\<close>: concrete runs.
    \<^item> \<open>Coordinator_Model\<close>: \<open>src/coordinator/coordinator_server\<close>. \<open>Coordinator_Split\<close>: splitting and
      identifying transactions. \<open>Coordinator_Commit\<close>, \<open>Coordinator_Results\<close>: its two handlers and their invariant.
      \<open>Coordinator_Trace\<close>: the order of its calls. \<open>Coordinator_Runs\<close>: any sequence of calls of the handlers.
      \<open>Coordinator_Progress\<close>: when a call has a final answer.
    \<^item> \<open>Client_Model\<close>: \<open>src/client/client\<close>, with its two loops.
      \<open>Client_Program\<close>: \<open>src/client/client_main.cc\<close> and \<open>client.proto\<close>. \<open>Client_Runs\<close>: what the
      requests of a file must be, and progress. \<open>Client_Coordinator\<close>: the client in front of the coordinator.
    \<^item> \<open>Commit_Protocol\<close>: the cohorts, the chain and the coordinator, interleaved (\<open>protocol_step\<close>), and the
      invariant of the protocol. \<open>Whole_Protocol\<close>: started by the coordinator's handler. \<open>Atomic_Commit\<close>: the
      abstract machine of atomic commitment (\<open>commitment_step\<close>) and the simulation (locale \<open>simulation\<close>) that shows that
      the interleaved system implements it. \<open>Distributed_Run\<close>: a transaction of several databases against
      a sequential reference (\<open>exec_all\<close>), from the client's request to the data.
    \<^item> \<open>Programs\<close>: the mains of the two servers and of the client, which construct the objects above.
      \<open>Lmdb_Example\<close>: \<open>src/db/lmdb_raw_lib_example_main.cc\<close>, with the cursors of LMDB (locale \<open>lmdb_cursors\<close>).
    \<^item> The properties: \<open>Protocol_Properties\<close>, \<open>Cohort_Properties\<close>, \<open>Thread_Properties\<close>, \<open>Chain_Properties\<close>, \<open>Coordinator_Properties\<close>,
      \<open>Lmdb_Properties\<close>, \<open>Client_Properties\<close>, each with a concrete instance where it has hypotheses.

  \<^bold>\<open>How state and calls are modelled.\<close> Classes are records, and their methods functions from a
  state to a result and a state; each definition has the name and the order of steps of the
  method. What a class calls and does not define (a stub, a mutex, the clock, files, a library) is a field of a
  record of its environment, over a world of any type that the calls change. The world also stands for
  the other threads and machines: properties of one component hold whatever it does between two calls.
  \<^term>\<open>None\<close> is a call that never returns to its caller: it blocks, loops for ever, throws an exception nobody
  catches, or divides by zero; all other errors are values. Machine integers are words where their width matters
  (ballots, stored values), and integers with their bounds elsewhere. Loops that may run for ever are
  partial functions into options, so that not returning is \<^term>\<open>None\<close>; there is no fuel in the model, and the
  lemmas on such loops say exactly when they return.

  \<^bold>\<open>What is shown.\<close>

    \<^item> Safety of the protocol: a commit is unanimous, finished cohorts agree, the decision the coordinator
      read binds the cohorts, a unanimous vote commits and stays so, and a definite decision never changes; in
      sum, the system refines an abstract atomic commitment. The assumptions are the ones under which it is true: nobody opens the vote of the transaction again, and only its cohorts vote, each in one run.
    \<^item> Every cohort is right on its own: two-phase locking, votes only what it has saved, obeys the
      decision, is atomic in the database, and answers each transaction once.
    \<^item> Transactions that run side by side on a cohort are serialised when they conflict. With the one lock that LMDB
      needs they never deadlock; with locks per key two of them can, for ever.
    \<^item> The contract, the adapter server and the C++ client together are a board with one ballot per cohort.
    \<^item> The coordinator sends each cohort its part once, collects each answer once, and does not change a final answer;
      the client gets it at the first poll that can have it, and stops at a final answer, but for the one without a status.
    \<^item> The adapter implements transactions on a finite map over LMDB, and a transaction over several databases has
      the effect and the answers of executing its operations one after the other, or none.
    \<^item> The requests of the client program are what the file asks for.
    \<^item> Termination: each loop returns exactly when its condition comes true; waiting ends at the deadline; sending ends.
    \<^item> Failures that the code does not survive are properties or lemmas too: calls of the contract that fail are
      never answered, so that a cohort or the coordinator waits for ever; a vote can be opened again; equal
      transactions of a file are merged; a missing key is not reported as such.

  \<^bold>\<open>Limits.\<close> The handlers of the coordinator take no locks (the source says so); they are modelled one at a time.
  The threads of a cohort interleave event by event; its maps are changed without a lock, and races on them are
  not modelled (nor is the one in \<open>GetLock\<close>, which looks a mutex up before it takes the lock of the map). The destructor of an LMDB
  transaction, which aborts one that is still open, is not reached by the code modelled. LMDB is
  assumed to have space and a disk that works, and keys to have 1 to 511 bytes. A cohort that stops never
  restarts: no code reads the files it saved.

  \<^bold>\<open>Not modelled.\<close> The bodies of the libraries: gRPC, protobuf, absl, OpenSSL, LMDB, the thread pool,
  \<open>web3\<close>. The tests, the build, the migrations and the paper.
\<close>

end
